(* ===== verification/Prelude.thy ===== *)
theory Prelude
  imports Main
begin

text \<open>
  Shared by every theory of the development: the names of the model's basic types, the
  operations that stand for SQL statements over a table held as a list of rows, the
  locales for row updates that keep a key and for state machines with an invariant, and
  the generic lemmas the component proofs rewrite with.
\<close>

section \<open>Basic types\<close>

text \<open>
  A Python \<open>str\<close> is a HOL \<^typ>\<open>string\<close>, one character for each code point; the model covers
  code points below 256. Instants and durations are whole microseconds, the resolution of
  \<open>timestamptz\<close> and of \<open>datetime\<close>. Row identifiers are PostgreSQL \<open>bigint\<close>s, held as
  \<^typ>\<open>int\<close>.
\<close>

type_synonym time = int

type_synonym id = int

abbreviation seconds :: "int \<Rightarrow> time" where
  "seconds n \<equiv> n * 1000000"

text \<open>An exception that leaves a call: the name of its type and its message.\<close>

datatype exn = Exn (exn_type: string) (exn_msg: string)

named_theorems frame \<comment> \<open>which fields an operation leaves alone\<close>
named_theorems steps \<comment> \<open>invariants kept by one operation\<close>

section \<open>Python's falsy strings\<close>

text \<open>\<open>x or d\<close> for a string that may be \<open>None\<close>.\<close>

definition or_else :: "string option \<Rightarrow> string \<Rightarrow> string" where
  "or_else x d = (case x of None \<Rightarrow> d | Some s \<Rightarrow> if s = [] then d else s)"

lemma or_else_simps [simp]:
  "or_else None d = d"
  "or_else (Some []) d = d"
  "s \<noteq> [] \<Longrightarrow> or_else (Some s) d = s"
  by (simp_all add: or_else_def)

lemma or_else_nonempty: "d \<noteq> [] \<Longrightarrow> or_else x d \<noteq> []"
  by (simp add: or_else_def split: option.split)

section \<open>Tables as lists of rows\<close>

text \<open>\<open>UPDATE t SET ... WHERE p\<close> and \<open>DELETE FROM t WHERE p\<close>.\<close>

definition update_where :: "('r \<Rightarrow> bool) \<Rightarrow> ('r \<Rightarrow> 'r) \<Rightarrow> 'r list \<Rightarrow> 'r list" where
  "update_where p f rows = map (\<lambda>r. if p r then f r else r) rows"

definition delete_where :: "('r \<Rightarrow> bool) \<Rightarrow> 'r list \<Rightarrow> 'r list" where
  "delete_where p rows = filter (\<lambda>r. \<not> p r) rows"

text \<open>\<open>SELECT * FROM t WHERE p LIMIT 1\<close>, for a predicate that names one row.\<close>

definition find_row :: "('r \<Rightarrow> bool) \<Rightarrow> 'r list \<Rightarrow> 'r option" where
  "find_row p rows = List.find p rows"

lemma update_where_simps [simp]:
  "update_where p f [] = []"
  "update_where p f (r # rows) = (if p r then f r else r) # update_where p f rows"
  by (simp_all add: update_where_def)

lemma update_where_append [simp]:
  "update_where p f (xs @ ys) = update_where p f xs @ update_where p f ys"
  by (simp add: update_where_def)

lemma length_update_where [simp]: "length (update_where p f rows) = length rows"
  by (simp add: update_where_def)

lemma set_update_where:
  "set (update_where p f rows) = (\<lambda>r. if p r then f r else r) ` set rows"
  by (simp add: update_where_def)

lemma in_update_whereE:
  assumes "r \<in> set (update_where p f rows)"
  obtains r0 where "r0 \<in> set rows" "p r0" "r = f r0" | "r \<in> set rows" "\<not> p r"
  using assms by (auto simp: set_update_where split: if_splits)

lemma delete_where_simps [simp]:
  "delete_where p [] = []"
  "delete_where p (r # rows) = (if p r then delete_where p rows else r # delete_where p rows)"
  by (simp_all add: delete_where_def)

lemma set_delete_where [simp]: "set (delete_where p rows) = {r \<in> set rows. \<not> p r}"
  by (auto simp: delete_where_def)

lemma distinct_map_delete_where: "distinct (map k rows) \<Longrightarrow> distinct (map k (delete_where p rows))"
  by (simp add: delete_where_def distinct_map_filter)

lemma find_row_SomeD: "find_row p rows = Some r \<Longrightarrow> r \<in> set rows \<and> p r"
  by (auto simp: find_row_def find_Some_iff)

lemma find_row_None_iff: "find_row p rows = None \<longleftrightarrow> (\<forall>r \<in> set rows. \<not> p r)"
  by (auto simp: find_row_def find_None_iff)

lemma map_update_where_id:
  "(\<And>r. r \<in> set rows \<Longrightarrow> p r \<Longrightarrow> k (f r) = k r) \<Longrightarrow> map k (update_where p f rows) = map k rows"
  by (induction rows) auto

text \<open>A row update that keeps a projection of the row keeps it for the whole table.\<close>

locale keyed_update =
  fixes key :: "'r \<Rightarrow> 'k" and f :: "'r \<Rightarrow> 'r"
  assumes key_update: "key (f r) = key r"
begin

lemma keys_kept [simp]: "map key (update_where p f rows) = map key rows"
  by (rule map_update_where_id) (rule key_update)

lemma key_set_kept: "key ` set (update_where p f rows) = key ` set rows"
proof -
  have "set (map key (update_where p f rows)) = set (map key rows)" by (simp only: keys_kept)
  then show ?thesis by (simp only: set_map)
qed

lemma distinct_keys_kept: "distinct (map key rows) \<Longrightarrow> distinct (map key (update_where p f rows))"
  by simp

lemma filter_key_kept:
  "length (filter (\<lambda>r. q (key r)) (update_where p f rows)) = length (filter (\<lambda>r. q (key r)) rows)"
  by (induction rows) (simp_all add: key_update)

end

section \<open>State machines with an invariant\<close>

text \<open>The states a step relation reaches from its initial states.\<close>

inductive reach :: "('s \<Rightarrow> bool) \<Rightarrow> ('s \<Rightarrow> 's \<Rightarrow> bool) \<Rightarrow> 's \<Rightarrow> bool"
  for init :: "'s \<Rightarrow> bool" and step :: "'s \<Rightarrow> 's \<Rightarrow> bool" where
  reach_init: "init s \<Longrightarrow> reach init step s"
| reach_step: "reach init step s \<Longrightarrow> step s t \<Longrightarrow> reach init step t"

locale safe_machine =
  fixes init :: "'s \<Rightarrow> bool" and step :: "'s \<Rightarrow> 's \<Rightarrow> bool" and inv :: "'s \<Rightarrow> bool"
  assumes inv_init: "init s \<Longrightarrow> inv s"
    and inv_step: "step s t \<Longrightarrow> inv s \<Longrightarrow> inv t"
begin

lemma always: "reach init step s \<Longrightarrow> inv s"
  by (induction rule: reach.induct) (auto intro: inv_init inv_step)

lemma kept_by_run: "step\<^sup>*\<^sup>* s t \<Longrightarrow> inv s \<Longrightarrow> inv t"
  by (induction rule: rtranclp_induct) (auto intro: inv_step)

end

section \<open>Generic facts on lists and options\<close>

lemma take_while_split_id: "takeWhile p xs @ dropWhile p xs = xs"
  by simp

lemma length_filter_update_le:
  assumes "\<And>r. r \<in> set rows \<Longrightarrow> p r \<Longrightarrow> q (f r) \<Longrightarrow> q r"
  shows "length (filter q (update_where p f rows)) \<le> length (filter q rows)"
  using assms by (induction rows) auto

lemma sort_key_hd_in: "xs \<noteq> [] \<Longrightarrow> hd (sort_key k xs) \<in> set xs"
  by (metis length_0_conv length_sort list.set_sel(1) set_sort)

text \<open>\<open>ORDER BY k1, k2\<close>: sorting by \<open>k2\<close> and then, stably, by \<open>k1\<close>.\<close>

definition lex_le :: "('a \<Rightarrow> int) \<Rightarrow> ('a \<Rightarrow> int) \<Rightarrow> 'a \<Rightarrow> 'a \<Rightarrow> bool" where
  "lex_le k1 k2 a b = (k1 a < k1 b \<or> (k1 a = k1 b \<and> k2 a \<le> k2 b))"

lemma insort_lex:
  assumes "sorted_wrt (lex_le k1 k2) ys" "\<forall>y \<in> set ys. k2 x \<le> k2 y"
  shows "sorted_wrt (lex_le k1 k2) (insort_key k1 x ys)"
  using assms
proof (induction ys)
  case (Cons y ys)
  show ?case
  proof (cases "k1 x \<le> k1 y")
    case True
    then have "\<forall>z \<in> set (y # ys). lex_le k1 k2 x z"
      using Cons.prems by (fastforce simp: lex_le_def)
    then show ?thesis using True Cons.prems by simp
  next
    case False
    then have "lex_le k1 k2 y x" by (simp add: lex_le_def)
    then show ?thesis using False Cons by (simp add: set_insort_key)
  qed
qed simp

lemma order_by_two: "sorted_wrt (lex_le k1 k2) (sort_key k1 (sort_key k2 xs))"
proof -
  have "sorted_wrt (lex_le k1 k2) (sort_key k1 zs)" if "sorted (map k2 zs)" for zs
    using that by (induction zs) (auto simp: insort_lex)
  then show ?thesis by simp
qed

end
