(* ===== verification/Py_Text.thy ===== *)
theory Py_Text
  imports Prelude "HOL-Library.Sublist" "HOL-Library.Char_ord"
begin

text \<open>
  What the source uses of Python's \<open>str\<close> methods and of the standard library's \<open>fnmatch\<close>,
  for code points below 256: \<open>isspace\<close>, \<open>strip\<close>, \<open>lower\<close>, \<open>casefold\<close>, \<open>in\<close>, \<open>replace\<close>,
  \<open>split\<close>, \<open>isdigit\<close> and shell globs.
\<close>

section \<open>Characters\<close>

definition code_point :: "char \<Rightarrow> nat" where
  "code_point c = of_char c"

definition is_space :: "char \<Rightarrow> bool" where
  "is_space c = (let n = code_point c in
     (9 \<le> n \<and> n \<le> 13) \<or> (28 \<le> n \<and> n \<le> 32) \<or> n = 133 \<or> n = 160)"

definition is_digit :: "char \<Rightarrow> bool" where
  "is_digit c = (48 \<le> code_point c \<and> code_point c \<le> 57)"

text \<open>
  \<open>isdigit\<close> is also true of the three superscript digits of Latin-1, which \<open>int\<close> refuses.
\<close>

definition py_isdigit_char :: "char \<Rightarrow> bool" where
  "py_isdigit_char c = (is_digit c \<or> code_point c \<in> {178, 179, 185})"

definition is_alnum :: "char \<Rightarrow> bool" where
  "is_alnum c = (let n = code_point c in
     is_digit c \<or> (65 \<le> n \<and> n \<le> 90) \<or> (97 \<le> n \<and> n \<le> 122))"

text \<open>Latin-1 lower case: A-Z and the accented capitals (all but the multiplication sign).\<close>

definition lower_char :: "char \<Rightarrow> char" where
  "lower_char c = (let n = code_point c in
     if (65 \<le> n \<and> n \<le> 90) \<or> (192 \<le> n \<and> n \<le> 222 \<and> n \<noteq> 215) then char_of (n + 32) else c)"

definition py_lower :: "string \<Rightarrow> string" where
  "py_lower s = map lower_char s"

text \<open>
  \<open>casefold\<close> is \<open>lower\<close> but for the sharp s (223), which becomes two letters, and the micro
  sign (181), which becomes the Greek letter: no other character below 256 does, so the micro
  sign stands for it here.
\<close>

definition fold_char :: "char \<Rightarrow> string" where
  "fold_char c = (if code_point c = 223 then ''ss'' else [lower_char c])"

definition py_casefold :: "string \<Rightarrow> string" where
  "py_casefold s = concat (map fold_char s)"

definition ascii :: "char \<Rightarrow> bool" where
  "ascii c = (code_point c < 128)"

lemma casefold_ascii: "list_all ascii s \<Longrightarrow> py_casefold s = py_lower s"
  by (induction s) (auto simp: py_casefold_def py_lower_def fold_char_def ascii_def)

lemma py_lower_length [simp]: "length (py_lower s) = length s"
  by (simp add: py_lower_def)

lemma code_point_lt: "code_point c < 256"
  by (simp add: code_point_def)

lemma code_point_char_of [simp]: "n < 256 \<Longrightarrow> code_point (char_of n) = n"
  by (simp add: code_point_def)

lemma lower_char_idem [simp]: "lower_char (lower_char c) = lower_char c"
  using code_point_lt [of c] by (auto simp: lower_char_def Let_def)

lemma py_lower_idem [simp]: "py_lower (py_lower s) = py_lower s"
  by (simp add: py_lower_def)

section \<open>Stripping\<close>

definition lstrip :: "string \<Rightarrow> string" where
  "lstrip s = dropWhile is_space s"

definition rstrip :: "string \<Rightarrow> string" where
  "rstrip s = rev (dropWhile is_space (rev s))"

definition strip :: "string \<Rightarrow> string" where
  "strip s = lstrip (rstrip s)"

definition stripped :: "string \<Rightarrow> bool" where
  "stripped s = (s = [] \<or> (\<not> is_space (hd s) \<and> \<not> is_space (last s)))"

lemma strip_Nil [simp]: "strip [] = []"
  by (simp add: strip_def lstrip_def rstrip_def)

lemma lstrip_id: "s = [] \<or> \<not> is_space (hd s) \<Longrightarrow> lstrip s = s"
  by (cases s) (auto simp: lstrip_def)

lemma rstrip_id: "s = [] \<or> \<not> is_space (last s) \<Longrightarrow> rstrip s = s"
  by (cases s rule: rev_cases) (auto simp: rstrip_def)

lemma strip_id: "stripped s \<Longrightarrow> strip s = s"
  by (auto simp: stripped_def strip_def lstrip_id rstrip_id)

lemma last_dropWhile: "dropWhile p s \<noteq> [] \<Longrightarrow> last (dropWhile p s) = last s"
  by (induction s) auto

lemma rstrip_last: "rstrip s \<noteq> [] \<Longrightarrow> \<not> is_space (last (rstrip s))"
  using hd_dropWhile [of is_space "rev s"] by (simp add: rstrip_def last_rev)

lemma stripped_strip [simp]: "stripped (strip s)"
proof (cases "strip s = []")
  case False
  then have "\<not> is_space (hd (strip s))"
    using hd_dropWhile [of is_space "rstrip s"] by (simp add: strip_def lstrip_def)
  moreover from False have "rstrip s \<noteq> []" by (auto simp: strip_def lstrip_def)
  with False have "\<not> is_space (last (strip s))"
    using rstrip_last [of s] by (simp add: strip_def lstrip_def last_dropWhile)
  ultimately show ?thesis by (simp add: stripped_def)
qed (simp add: stripped_def)

lemma strip_idem [simp]: "strip (strip s) = strip s"
  by (rule strip_id) (rule stripped_strip)

lemma length_strip_le: "length (strip s) \<le> length s"
proof -
  have "length (rstrip s) \<le> length s"
    unfolding rstrip_def by (metis length_dropWhile_le length_rev)
  then show ?thesis
    unfolding strip_def lstrip_def by (meson length_dropWhile_le order_trans)
qed

lemma set_strip: "set (strip s) \<subseteq> set s"
  unfolding strip_def lstrip_def rstrip_def
  by (metis set_dropWhileD set_rev subsetI)

lemma stripped_lower: "stripped s \<Longrightarrow> (\<And>c. c \<in> set s \<Longrightarrow> is_space (lower_char c) = is_space c)
    \<Longrightarrow> stripped (py_lower s)"
  by (cases s) (auto simp: stripped_def py_lower_def last_map)

lemma is_space_lower [simp]: "is_space (lower_char c) = is_space c"
  using code_point_lt [of c] by (auto simp: lower_char_def is_space_def Let_def)

section \<open>Searching, replacing, splitting\<close>

text \<open>\<open>p in s\<close>.\<close>

fun contains :: "string \<Rightarrow> string \<Rightarrow> bool" where
  "contains p [] = (p = [])"
| "contains p (c # cs) = (prefix p (c # cs) \<or> contains p cs)"

lemma contains_iff: "contains p s \<longleftrightarrow> (\<exists>u v. s = u @ p @ v)"
proof (induction s)
  case (Cons c cs)
  show ?case
  proof
    assume "contains p (c # cs)"
    then consider "prefix p (c # cs)" | "contains p cs" by auto
    then show "\<exists>u v. c # cs = u @ p @ v"
    proof cases
      case 1
      then show ?thesis by (metis append_Nil prefixE)
    next
      case 2
      with Cons.IH obtain u v where "cs = u @ p @ v" by blast
      then have "c # cs = (c # u) @ p @ v" by simp
      then show ?thesis by blast
    qed
  next
    assume "\<exists>u v. c # cs = u @ p @ v"
    then obtain u v where eq: "c # cs = u @ p @ v" by blast
    show "contains p (c # cs)"
    proof (cases u)
      case Nil
      with eq have "prefix p (c # cs)" by simp
      then show ?thesis by simp
    next
      case (Cons a u')
      with eq have "cs = u' @ p @ v" by simp
      with Cons.IH show ?thesis by auto
    qed
  qed
qed auto

text \<open>\<open>s.replace(c, r)\<close> for a one-character \<open>c\<close>.\<close>

definition replace_char :: "char \<Rightarrow> string \<Rightarrow> string \<Rightarrow> string" where
  "replace_char c r s = concat (map (\<lambda>x. if x = c then r else [x]) s)"

lemma replace_char_simps [simp]:
  "replace_char c r [] = []"
  "replace_char c r (x # xs) = (if x = c then r else [x]) @ replace_char c r xs"
  "replace_char c r (xs @ ys) = replace_char c r xs @ replace_char c r ys"
  by (simp_all add: replace_char_def)

text \<open>\<open>s.split(c)\<close> for a one-character \<open>c\<close>: never empty.\<close>

fun split_on :: "char \<Rightarrow> string \<Rightarrow> string list" where
  "split_on c [] = [[]]"
| "split_on c (x # xs) =
     (if x = c then [] # split_on c xs
      else case split_on c xs of [] \<Rightarrow> [[x]] | w # ws \<Rightarrow> (x # w) # ws)"

lemma split_on_nonempty [simp]: "split_on c s \<noteq> []"
  by (induction s) (auto split: list.split)

text \<open>\<open>s.split(c, 1)[0]\<close>: what precedes the first \<open>c\<close>.\<close>

definition before_char :: "char \<Rightarrow> string \<Rightarrow> string" where
  "before_char c s = takeWhile (\<lambda>x. x \<noteq> c) s"

text \<open>\<open>sep.join(parts)\<close>.\<close>

fun join :: "string \<Rightarrow> string list \<Rightarrow> string" where
  "join sep [] = []"
| "join sep [w] = w"
| "join sep (w # ws) = w @ sep @ join sep ws"

text \<open>Decimal text of an integer, as \<open>str\<close> gives it.\<close>

function nat_digits :: "nat \<Rightarrow> string" where
  "nat_digits n = (if n < 10 then [char_of (48 + n)] else nat_digits (n div 10) @ [char_of (48 + n mod 10)])"
  by pat_completeness auto
termination
  by (relation "measure id") auto

declare nat_digits.simps [simp del]

definition int_text :: "int \<Rightarrow> string" where
  "int_text i = (if i < 0 then CHR ''-'' # nat_digits (nat (- i)) else nat_digits (nat i))"

section \<open>fnmatch\<close>

text \<open>
  A pattern of \<open>fnmatch\<close> as tokens: \<open>*\<close>, \<open>?\<close>, one literal character, and a bracket
  expression as a sign and a list of character ranges. An unclosed bracket is a literal.
\<close>

datatype gtok = GStar | GAny | GLit char | GSet bool "(char \<times> char) list"

text \<open>The ranges of a bracket's inside, read left to right: \<open>a-b\<close> or a single character.\<close>

fun ranges :: "string \<Rightarrow> (char \<times> char) list" where
  "ranges (a # h # b # cs) = (if h = CHR ''-'' then (a, b) # ranges cs else (a, a) # ranges (h # b # cs))"
| "ranges (a # cs) = (a, a) # ranges cs"
| "ranges [] = []"

text \<open>
  The text of the bracket that opened just before \<open>s\<close> and what follows it: a first \<open>!\<close>, a
  first \<open>]\<close>, and then everything up to the next \<open>]\<close>.
\<close>

definition bracket_close :: "string \<Rightarrow> (string \<times> string) option" where
  "bracket_close s =
     (let bang = (if prefix ''!'' s then ''!'' else []);
          s1 = drop (length bang) s;
          br = (if prefix '']'' s1 then '']'' else []);
          s2 = drop (length br) s1;
          inside = takeWhile (\<lambda>c. c \<noteq> CHR '']'') s2;
          rest = dropWhile (\<lambda>c. c \<noteq> CHR '']'') s2
      in case rest of [] \<Rightarrow> None | _ # after \<Rightarrow> Some (bang @ br @ inside, after))"

lemma bracket_close_shorter: "bracket_close s = Some (i, after) \<Longrightarrow> length after < length s"
proof -
  assume "bracket_close s = Some (i, after)"
  then obtain k x where "dropWhile (\<lambda>c. c \<noteq> CHR '']'') (drop k s) = x # after"
    by (auto simp: bracket_close_def Let_def split: list.splits if_splits)
  then have "length (x # after) \<le> length (drop k s)"
    by (metis length_dropWhile_le)
  then show "length after < length s" by simp
qed

definition bracket_tok :: "string \<Rightarrow> gtok" where
  "bracket_tok inside = (if prefix ''!'' inside then GSet False (ranges (tl inside))
                         else GSet True (ranges inside))"

function glob_tokens :: "string \<Rightarrow> gtok list" where
  "glob_tokens [] = []"
| "glob_tokens (c # cs) =
     (if c = CHR ''*'' then GStar # glob_tokens cs
      else if c = CHR ''?'' then GAny # glob_tokens cs
      else if c = CHR ''['' then
        (case bracket_close cs of
           None \<Rightarrow> GLit c # glob_tokens cs
         | Some (inside, after) \<Rightarrow> bracket_tok inside # glob_tokens after)
      else GLit c # glob_tokens cs)"
  by pat_completeness auto
termination
  by (relation "measure length") (auto dest: bracket_close_shorter)

fun tok_accepts :: "gtok \<Rightarrow> char \<Rightarrow> bool" where
  "tok_accepts GStar c = True"
| "tok_accepts GAny c = True"
| "tok_accepts (GLit d) c = (d = c)"
| "tok_accepts (GSet pos rs) c =
     (pos = list_ex (\<lambda>(a, b). code_point a \<le> code_point c \<and> code_point c \<le> code_point b) rs)"

fun toks_match :: "gtok list \<Rightarrow> string \<Rightarrow> bool" where
  "toks_match [] s = (s = [])"
| "toks_match (GStar # ts) [] = toks_match ts []"
| "toks_match (GStar # ts) (c # cs) = (toks_match ts (c # cs) \<or> toks_match (GStar # ts) cs)"
| "toks_match (t # ts) [] = False"
| "toks_match (t # ts) (c # cs) = (tok_accepts t c \<and> toks_match ts cs)"

text \<open>\<open>fnmatch.fnmatchcase\<close>; on a POSIX system \<open>fnmatch.fnmatch\<close> is the same function.\<close>

definition fnmatchcase :: "string \<Rightarrow> string \<Rightarrow> bool" where
  "fnmatchcase name pat = toks_match (glob_tokens pat) name"

lemma toks_match_star [simp]: "toks_match [GStar] s"
  by (induction s) auto

lemma fnmatch_star: "fnmatchcase name ''*''"
  by (simp add: fnmatchcase_def)

lemma toks_match_literal: "toks_match (map GLit p) s \<longleftrightarrow> s = p"
proof (induction p arbitrary: s)
  case (Cons c cs)
  then show ?case by (cases s) auto
qed simp

section \<open>Literals\<close>

text \<open>
  The characters beyond Latin-1 in the source's own texts, each held as one control character
  no log text uses: em dash, box line, bullet, the arrow and the two corner quotes.
\<close>

definition em_dash :: string where "em_dash = [CHR 0x97]"
definition box_line :: string where "box_line = [CHR 0x96, CHR 0x96, CHR 0x96]"
definition bullet :: string where "bullet = [CHR 0x95]"
definition again_arrow :: string where "again_arrow = [CHR 0x9B]"
definition open_corner :: string where "open_corner = [CHR 0x9C]"
definition close_corner :: string where "close_corner = [CHR 0x9D]"

definition middle_dot :: string where "middle_dot = [CHR 0xB7]"
definition en_dash :: string where "en_dash = [CHR 0x94]"

end
