(* ===== verification/Py_Value.thy ===== *)
theory Py_Value
  imports Py_Text
begin

text \<open>
  JSON-like Python values (what \<open>json.loads\<close> yields and \<open>jsonb\<close> columns hold) with the
  dictionary operations the source uses, and calendar time: the text of an instant and its
  weekday.
\<close>

section \<open>Values and dictionaries\<close>

text \<open>
  A dictionary is its list of items in insertion order. A float is only ever stored or
  printed by the code modelled here, so it is held as the text \<open>repr\<close> gives.
\<close>

datatype pyval =
    PNone
  | PBool bool
  | PInt int
  | PFloat string
  | PStr string
  | PList "pyval list"
  | PDict "(string \<times> pyval) list"

type_synonym dict = "(string \<times> pyval) list"

text \<open>\<open>d.get(k)\<close>.\<close>

definition dict_get :: "dict \<Rightarrow> string \<Rightarrow> pyval" where
  "dict_get d k = (case map_of d k of None \<Rightarrow> PNone | Some v \<Rightarrow> v)"

text \<open>\<open>d.get(k, v)\<close>.\<close>

definition get_default :: "dict \<Rightarrow> string \<Rightarrow> pyval \<Rightarrow> pyval" where
  "get_default d k v = (case map_of d k of None \<Rightarrow> v | Some x \<Rightarrow> x)"

text \<open>\<open>d[k] = v\<close>: the position of an existing key is kept.\<close>

fun dict_set :: "dict \<Rightarrow> string \<Rightarrow> pyval \<Rightarrow> dict" where
  "dict_set [] k v = [(k, v)]"
| "dict_set ((k', v') # d) k v = (if k' = k then (k, v) # d else (k', v') # dict_set d k v)"

text \<open>\<open>d1 || d2\<close> of \<open>jsonb\<close> and \<open>{**d1, **d2}\<close> of Python.\<close>

definition dict_merge :: "dict \<Rightarrow> dict \<Rightarrow> dict" where
  "dict_merge d1 d2 = fold (\<lambda>(k, v) d. dict_set d k v) d2 d1"

lemma map_of_dict_set: "map_of (dict_set d k v) = (map_of d)(k \<mapsto> v)"
  by (induction d k v rule: dict_set.induct) auto

lemma map_of_dict_merge_notin: "k \<notin> fst ` set d2 \<Longrightarrow> map_of (dict_merge d1 d2) k = map_of d1 k"
  by (induction d2 arbitrary: d1) (auto simp: dict_merge_def map_of_dict_set)

lemma fst_dict_set: "fst ` set (dict_set d k v) = insert k (fst ` set d)"
  by (induction d k v rule: dict_set.induct) auto

lemma distinct_dict_set: "distinct (map fst d) \<Longrightarrow> distinct (map fst (dict_set d k v))"
proof (induction d k v rule: dict_set.induct)
  case (2 k' v' d k v)
  then show ?case
    using fst_dict_set [of d k v] by (auto simp flip: set_map)
qed simp

text \<open>Truth value of a value: \<open>bool(v)\<close>.\<close>

fun truthy :: "pyval \<Rightarrow> bool" where
  "truthy PNone = False"
| "truthy (PBool b) = b"
| "truthy (PInt i) = (i \<noteq> 0)"
| "truthy (PFloat r) = (r \<notin> {''0.0'', ''-0.0''})"
| "truthy (PStr s) = (s \<noteq> [])"
| "truthy (PList xs) = (xs \<noteq> [])"
| "truthy (PDict d) = (d \<noteq> [])"

text \<open>\<open>repr\<close> of a string: which quote it gets, what is escaped.\<close>

definition hex_digit :: "nat \<Rightarrow> char" where
  "hex_digit n = (if n < 10 then char_of (48 + n) else char_of (87 + n))"

definition quote_char :: "string \<Rightarrow> char" where
  "quote_char s = (if CHR 0x27 \<in> set s \<and> CHR 0x22 \<notin> set s then CHR 0x22 else CHR 0x27)"

definition repr_char :: "char \<Rightarrow> char \<Rightarrow> string" where
  "repr_char q c =
     (if c = q \<or> c = CHR 0x5C then [CHR 0x5C, c]
      else if c = CHR 0x0A then [CHR 0x5C, CHR ''n'']
      else if c = CHR 0x0D then [CHR 0x5C, CHR ''r'']
      else if c = CHR 0x09 then [CHR 0x5C, CHR ''t'']
      else if code_point c < 32 \<or> (127 \<le> code_point c \<and> code_point c \<le> 160) \<or> code_point c = 173
      then [CHR 0x5C, CHR ''x'', hex_digit (code_point c div 16), hex_digit (code_point c mod 16)]
      else [c])"

definition repr_str :: "string \<Rightarrow> string" where
  "repr_str s = [quote_char s] @ concat (map (repr_char (quote_char s)) s) @ [quote_char s]"

fun py_repr :: "pyval \<Rightarrow> string" where
  "py_repr PNone = ''None''"
| "py_repr (PBool b) = (if b then ''True'' else ''False'')"
| "py_repr (PInt i) = int_text i"
| "py_repr (PFloat r) = r"
| "py_repr (PStr s) = repr_str s"
| "py_repr (PList xs) = ''['' @ join '', '' (map py_repr xs) @ '']''"
| "py_repr (PDict d) = ''{'' @ join '', '' (map (\<lambda>(k, v). repr_str k @ '': '' @ py_repr v) d) @ ''}''"

text \<open>\<open>str(v)\<close> and \<open>f"{v}"\<close>.\<close>

definition scalar_text :: "pyval \<Rightarrow> string" where
  "scalar_text v = (case v of PStr s \<Rightarrow> s | _ \<Rightarrow> py_repr v)"

lemma scalar_text_simps [simp]:
  "scalar_text PNone = ''None''" "scalar_text (PBool b) = (if b then ''True'' else ''False'')"
  "scalar_text (PInt i) = int_text i" "scalar_text (PFloat r) = r" "scalar_text (PStr s) = s"
  "scalar_text (PList xs) = py_repr (PList xs)" "scalar_text (PDict d) = py_repr (PDict d)"
  by (simp_all add: scalar_text_def)

text \<open>\<open>f"{x}"\<close> of a string or an integer that may be \<open>None\<close>.\<close>

definition show_str :: "string option \<Rightarrow> string" where
  "show_str x = (case x of None \<Rightarrow> ''None'' | Some s \<Rightarrow> s)"

definition show_int :: "int option \<Rightarrow> string" where
  "show_int x = (case x of None \<Rightarrow> ''None'' | Some i \<Rightarrow> int_text i)"

definition opt_str :: "string option \<Rightarrow> pyval" where
  "opt_str x = (case x of None \<Rightarrow> PNone | Some s \<Rightarrow> PStr s)"

definition opt_int :: "int option \<Rightarrow> pyval" where
  "opt_int x = (case x of None \<Rightarrow> PNone | Some i \<Rightarrow> PInt i)"

section \<open>Calendar time\<close>

text \<open>
  \<open>datetime\<close> in UTC, from microseconds since the epoch: the civil date of a day number
  (proleptic Gregorian calendar, era of 400 years counted from March).
\<close>

definition civil :: "int \<Rightarrow> int \<times> int \<times> int" where
  "civil days =
     (let z = days + 719468; era = z div 146097; doe = z mod 146097;
          yoe = (doe - doe div 1460 + doe div 36524 - doe div 146096) div 365;
          doy = doe - (365 * yoe + yoe div 4 - yoe div 100);
          mp = (5 * doy + 2) div 153;
          d = doy - (153 * mp + 2) div 5 + 1;
          m = (if mp < 10 then mp + 3 else mp - 9);
          y = yoe + era * 400 + (if m \<le> 2 then 1 else 0)
      in (y, m, d))"

definition day_of :: "time \<Rightarrow> int" where
  "day_of t = t div (86400 * 1000000)"

definition second_of_day :: "time \<Rightarrow> int" where
  "second_of_day t = (t div 1000000) mod 86400"

text \<open>\<open>datetime.weekday()\<close>: Monday is 0; day 0 was a Thursday.\<close>

definition weekday :: "time \<Rightarrow> int" where
  "weekday t = (day_of t + 3) mod 7"

definition pad :: "nat \<Rightarrow> int \<Rightarrow> string" where
  "pad w i = (let s = int_text i in replicate (w - length s) CHR ''0'' @ s)"

definition date_text :: "time \<Rightarrow> string" where
  "date_text t = (case civil (day_of t) of (y, m, d) \<Rightarrow> pad 4 y @ ''-'' @ pad 2 m @ ''-'' @ pad 2 d)"

definition clock_text :: "time \<Rightarrow> string" where
  "clock_text t = (let s = second_of_day t in
     pad 2 (s div 3600) @ '':'' @ pad 2 (s div 60 mod 60) @ '':'' @ pad 2 (s mod 60))"

text \<open>\<open>strftime("%Y-%m-%dT%H:%M:%SZ")\<close>.\<close>

definition strftime_iso :: "time \<Rightarrow> string" where
  "strftime_iso t = date_text t @ ''T'' @ clock_text t @ ''Z''"

text \<open>\<open>str(datetime)\<close> of an aware UTC instant: the microseconds only when they are not zero.\<close>

definition str_datetime :: "time \<Rightarrow> string" where
  "str_datetime t = date_text t @ '' '' @ clock_text t
     @ (let us = t mod 1000000 in if us = 0 then [] else ''.'' @ pad 6 us) @ ''+00:00''"

lemma civil_epoch: "civil 0 = (1970, 1, 1)"
  by code_simp

lemma strftime_epoch: "strftime_iso 0 = ''1970-01-01T00:00:00Z''"
  by code_simp

end
