(* ===== verification/Store.thy ===== *)
theory Store
  imports Py_Value
begin

text \<open>
  The PostgreSQL tables of \<open>ringdown/schema.sql\<close> and \<open>ringdown/agent_schema.sql\<close> that the
  alerting components share, one record for each row type and one record for the database,
  with the foreign-key actions the schema declares. Statements of the source become list
  operations over these tables in the theories of the components that issue them.
\<close>

section \<open>Rows\<close>

record rule_row =
  r_id :: id
  r_name :: string
  r_kind :: string
  r_pattern :: string
  r_instructions :: "string option"
  r_source_glob :: "string option"
  r_min_severity :: "int option"
  r_window_kind :: string
  r_window_seconds :: int
  r_spike_lines :: "int option"
  r_cooldown_seconds :: int
  r_rule_order :: int
  r_stop_on_match :: bool
  r_enabled :: bool
  r_owner_user :: "string option"
  r_project_id :: "string option"
  r_created_by :: "string option"
  r_created_by_upn :: "string option"
  r_created_by_bot :: "string option"
  r_last_fired :: "time option"
  r_group_by :: string

record target_row =
  t_id :: id
  t_name :: string
  t_type :: string
  t_config :: dict
  t_identity_policy :: string
  t_owner_oid :: "string option"
  t_owner_upn :: "string option"
  t_owner_bot :: "string option"
  t_project_id :: "string option"
  t_project_name :: "string option"

record bind_row =
  b_rule_id :: id
  b_target_id :: id
  b_target_order :: int
  b_stop_on_match :: bool

text \<open>
  The key of an agent group: the JSON array \<open>group_key\<close> builds, kept as its six elements.
  A stateless incident has a textual key.
\<close>

record gkey =
  gk_rule :: "id option"
  gk_target :: "id option"
  gk_grouping :: string
  gk_source :: "string option"
  gk_owner :: string
  gk_project :: string

datatype dedup = Key_Group gkey | Key_Text string

record alert_event_row =
  ae_id :: id
  ae_rule_id :: "id option"
  ae_target_id :: "id option"
  ae_fired_at :: time
  ae_source :: "string option"
  ae_summary :: string
  ae_sample :: dict
  ae_key :: dedup
  ae_notified :: bool
  ae_disposition :: string

record incident_row =
  in_key :: string
  in_rule_id :: "id option"
  in_target_id :: "id option"
  in_source :: "string option"
  in_handle :: "string option"
  in_owner_user :: "string option"
  in_opened_at :: time
  in_last_event_at :: time
  in_last_fed_at :: "time option"
  in_event_count :: int
  in_status :: string

datatype ws_status = Opening | Open | Uncertain | Closed

record ws_row =
  w_handle :: string
  w_rule_id :: "id option"
  w_target_id :: "id option"
  w_target_type :: string
  w_source :: "string option"
  w_group_source :: "string option"
  w_key :: gkey
  w_owner_user :: string
  w_project_id :: string
  w_created_by_upn :: string
  w_status :: ws_status
  w_opened_at :: time
  w_closed_at :: "time option"
  w_checked_at :: "time option"
  w_last_sent_at :: "time option"
  w_last_state :: "string option"
  w_last_detail :: string
  w_seeded :: bool
  w_attempted :: bool

record audit_row =
  a_actor :: string
  a_action :: string
  a_detail :: dict
  a_ok :: bool

section \<open>The event and the firing context a row can carry\<close>

text \<open>
  A normalized event. The \<open>ts\<close> of an event is an instant, or its text after \<open>pack\<close>;
  \<open>None\<close> stands for a key that is absent or \<open>None\<close>.
\<close>

datatype ev_time = No_Ts | Ts_Time time | Ts_Text string

record event =
  ev_ts :: ev_time
  ev_source :: "string option"
  ev_facility :: "string option"
  ev_severity :: "int option"
  ev_severity_text :: "string option"
  ev_program :: "string option"
  ev_body :: "string option"
  ev_attributes :: pyval
  ev_raw :: "string option"

definition no_event :: event where
  "no_event = \<lparr>ev_ts = No_Ts, ev_source = None, ev_facility = None, ev_severity = None,
     ev_severity_text = None, ev_program = None, ev_body = None, ev_attributes = PNone,
     ev_raw = None\<rparr>"

text \<open>The keys of \<open>FireContext.rule\<close> that the dispatch layer reads.\<close>

record rule_info =
  ri_id :: "id option"
  ri_name :: "string option"
  ri_kind :: "string option"
  ri_group_by :: "string option"
  ri_project_id :: "string option"
  ri_created_by_upn :: "string option"

definition rule_of_row :: "rule_row \<Rightarrow> rule_info" where
  "rule_of_row r = \<lparr>ri_id = Some (r_id r), ri_name = Some (r_name r), ri_kind = Some (r_kind r),
     ri_group_by = Some (r_group_by r), ri_project_id = r_project_id r,
     ri_created_by_upn = r_created_by_upn r\<rparr>"

text \<open>\<open>FireContext\<close>: everything a dispatcher needs about one firing.\<close>

record fire_context =
  fc_rule :: rule_info
  fc_event :: event
  fc_owner_user :: string
  fc_seed :: string
  fc_safe_summary :: string
  fc_follow_up :: string
  fc_is_repeat :: bool
  fc_request_id :: string
  fc_delivery_id :: string

definition fire_context_init :: "rule_info \<Rightarrow> event \<Rightarrow> fire_context" where
  "fire_context_init rule ev = \<lparr>fc_rule = rule, fc_event = ev, fc_owner_user = [], fc_seed = [],
     fc_safe_summary = [], fc_follow_up = [], fc_is_repeat = False, fc_request_id = [],
     fc_delivery_id = []\<rparr>"

record pending_row =
  p_id :: id
  p_event_id :: id
  p_rule_id :: id
  p_target_id :: id
  p_key :: gkey
  p_assigned :: "string option"
  p_payload :: fire_context
  p_created_at :: time
  p_available_at :: time
  p_attempts :: nat
  p_last_detail :: string

section \<open>The database\<close>

record db =
  alert_rules :: "rule_row list"
  targets :: "target_row list"
  rule_targets :: "bind_row list"
  alert_events :: "alert_event_row list"
  alert_incidents :: "incident_row list"
  agent_workstreams :: "ws_row list"
  agent_pending :: "pending_row list"
  audit :: "audit_row list"
  next_rule :: id
  next_target :: id
  next_alert_event :: id
  next_pending :: id

definition empty_db :: db where
  "empty_db = \<lparr>alert_rules = [], targets = [], rule_targets = [], alert_events = [],
     alert_incidents = [], agent_workstreams = [], agent_pending = [], audit = [],
     next_rule = 1, next_target = 1, next_alert_event = 1, next_pending = 1\<rparr>"

definition find_rule :: "db \<Rightarrow> id \<Rightarrow> rule_row option" where
  "find_rule d rid = find_row (\<lambda>r. r_id r = rid) (alert_rules d)"

definition find_target :: "db \<Rightarrow> id \<Rightarrow> target_row option" where
  "find_target d tid = find_row (\<lambda>t. t_id t = tid) (targets d)"

definition find_ws :: "db \<Rightarrow> string \<Rightarrow> ws_row option" where
  "find_ws d h = find_row (\<lambda>w. w_handle w = h) (agent_workstreams d)"

text \<open>
  \<open>DELETE FROM alert_rules\<close> and \<open>DELETE FROM targets\<close> with the declared actions: bindings,
  incidents and pending rows go with either; firing history goes with the rule but only loses
  the target's id; workstreams lose the id and stay.
\<close>

definition delete_rule :: "id \<Rightarrow> db \<Rightarrow> db" where
  "delete_rule rid d =
     (let gone = {e. e \<in> set (alert_events d) \<and> ae_rule_id e = Some rid} in d\<lparr>
       alert_rules := delete_where (\<lambda>r. r_id r = rid) (alert_rules d),
       rule_targets := delete_where (\<lambda>b. b_rule_id b = rid) (rule_targets d),
       alert_incidents := delete_where (\<lambda>i. in_rule_id i = Some rid) (alert_incidents d),
       alert_events := delete_where (\<lambda>e. ae_rule_id e = Some rid) (alert_events d),
       agent_workstreams := update_where (\<lambda>w. w_rule_id w = Some rid) (\<lambda>w. w\<lparr>w_rule_id := None\<rparr>)
         (agent_workstreams d),
       agent_pending := delete_where (\<lambda>p. p_rule_id p = rid \<or> p_event_id p \<in> ae_id ` gone)
         (agent_pending d)\<rparr>)"

definition delete_target :: "id \<Rightarrow> db \<Rightarrow> db" where
  "delete_target tid d = d\<lparr>
     targets := delete_where (\<lambda>t. t_id t = tid) (targets d),
     rule_targets := delete_where (\<lambda>b. b_target_id b = tid) (rule_targets d),
     alert_incidents := delete_where (\<lambda>i. in_target_id i = Some tid) (alert_incidents d),
     alert_events := update_where (\<lambda>e. ae_target_id e = Some tid) (\<lambda>e. e\<lparr>ae_target_id := None\<rparr>)
       (alert_events d),
     agent_workstreams := update_where (\<lambda>w. w_target_id w = Some tid) (\<lambda>w. w\<lparr>w_target_id := None\<rparr>)
       (agent_workstreams d),
     agent_pending := delete_where (\<lambda>p. p_target_id p = tid) (agent_pending d)\<rparr>"

definition add_audit :: "string \<Rightarrow> string \<Rightarrow> dict \<Rightarrow> bool \<Rightarrow> db \<Rightarrow> db" where
  "add_audit actor action detail ok d =
     d\<lparr>audit := audit d @ [\<lparr>a_actor = actor, a_action = action, a_detail = detail, a_ok = ok\<rparr>]\<rparr>"

lemma find_rule_SomeD: "find_rule d rid = Some r \<Longrightarrow> r \<in> set (alert_rules d) \<and> r_id r = rid"
  unfolding find_rule_def by (drule find_row_SomeD) simp

lemma find_target_SomeD: "find_target d tid = Some t \<Longrightarrow> t \<in> set (targets d) \<and> t_id t = tid"
  unfolding find_target_def by (drule find_row_SomeD) simp

lemma find_ws_SomeD: "find_ws d h = Some w \<Longrightarrow> w \<in> set (agent_workstreams d) \<and> w_handle w = h"
  unfolding find_ws_def by (drule find_row_SomeD) simp

lemma add_audit_frame [simp]:
  "alert_rules (add_audit a x y z d) = alert_rules d"
  "targets (add_audit a x y z d) = targets d"
  "rule_targets (add_audit a x y z d) = rule_targets d"
  "alert_events (add_audit a x y z d) = alert_events d"
  "alert_incidents (add_audit a x y z d) = alert_incidents d"
  "agent_workstreams (add_audit a x y z d) = agent_workstreams d"
  "agent_pending (add_audit a x y z d) = agent_pending d"
  "next_rule (add_audit a x y z d) = next_rule d"
  "next_target (add_audit a x y z d) = next_target d"
  "next_alert_event (add_audit a x y z d) = next_alert_event d"
  "next_pending (add_audit a x y z d) = next_pending d"
  "audit (add_audit a x y z d) = audit d @ [\<lparr>a_actor = a, a_action = x, a_detail = y, a_ok = z\<rparr>]"
  by (simp_all add: add_audit_def)

end
