(* ===== verification/Dispatch.thy ===== *)
theory Dispatch
  imports Store
begin

text \<open>
  \<open>ringdown/dispatch/base.py\<close>: the result of a dispatcher call and the plugin contract. A
  dispatcher's methods read and change a world \<open>'w\<close> (its own caches and whatever is on the
  other end of its HTTP client), may raise, and are looked up by a target's type.
\<close>

section \<open>Results\<close>

text \<open>\<open>DispatchResult.meta\<close>: the keys the code writes and reads, \<open>None\<close> for an absent key.\<close>

record meta =
  m_retry_create :: bool
  m_ambiguous :: bool
  m_state :: "string option"
  m_live :: bool
  m_project_id :: "string option"
  m_closed_at :: "string option"
  m_send_status :: "string option"

definition no_meta :: meta where
  "no_meta = \<lparr>m_retry_create = False, m_ambiguous = False, m_state = None, m_live = False,
     m_project_id = None, m_closed_at = None, m_send_status = None\<rparr>"

record dispatch_result =
  dr_ok :: bool
  dr_handle :: string
  dr_detail :: string
  dr_gone :: bool
  dr_meta :: meta

definition result_init :: "bool \<Rightarrow> dispatch_result" where
  "result_init ok = \<lparr>dr_ok = ok, dr_handle = [], dr_detail = [], dr_gone = False, dr_meta = no_meta\<rparr>"

lemma result_init_simps [simp]:
  "dr_ok (result_init ok) = ok" "dr_handle (result_init ok) = []" "dr_detail (result_init ok) = []"
  "dr_gone (result_init ok) = False" "dr_meta (result_init ok) = no_meta"
  by (simp_all add: result_init_def)

section \<open>Targets as dispatchers see them\<close>

record target_info =
  ti_id :: "id option"
  ti_type :: string
  ti_config :: dict
  ti_project_id :: "string option"

definition target_of_row :: "target_row \<Rightarrow> target_info" where
  "target_of_row t = \<lparr>ti_id = Some (t_id t), ti_type = t_type t, ti_config = t_config t,
     ti_project_id = t_project_id t\<rparr>"

definition bare_target :: "id option \<Rightarrow> target_info" where
  "bare_target tid = \<lparr>ti_id = tid, ti_type = [], ti_config = [], ti_project_id = None\<rparr>"

section \<open>The plugin contract\<close>

type_synonym ('w, 'a) call = "'w \<Rightarrow> (exn + 'a) \<times> 'w"

record 'w dispatcher =
  d_stateful :: bool
  d_open :: "fire_context \<Rightarrow> target_info \<Rightarrow> ('w, dispatch_result) call"
  d_feed :: "fire_context \<Rightarrow> target_info \<Rightarrow> string \<Rightarrow> ('w, dispatch_result) call"
  d_prepare :: "fire_context \<Rightarrow> target_info \<Rightarrow> ('w, fire_context) call"
  d_inspect :: "fire_context \<Rightarrow> target_info \<Rightarrow> string \<Rightarrow> ('w, dispatch_result) call"

type_synonym 'w registry = "string \<Rightarrow> 'w dispatcher option"

text \<open>The base class's methods, which a plugin inherits unless it overrides them.\<close>

definition base_feed ::
    "(fire_context \<Rightarrow> target_info \<Rightarrow> ('w, dispatch_result) call)
     \<Rightarrow> fire_context \<Rightarrow> target_info \<Rightarrow> string \<Rightarrow> ('w, dispatch_result) call" where
  "base_feed opn ctx target handle w = opn ctx target w"

definition base_prepare :: "fire_context \<Rightarrow> target_info \<Rightarrow> ('w, fire_context) call" where
  "base_prepare ctx target w = (Inr ctx, w)"

definition base_inspect :: "fire_context \<Rightarrow> target_info \<Rightarrow> string \<Rightarrow> ('w, dispatch_result) call" where
  "base_inspect ctx target handle w =
     (Inr ((result_init False)\<lparr>dr_handle := handle, dr_detail := ''lifecycle inspection unavailable''\<rparr>), w)"

text \<open>
  What the delivery code relies on of any dispatcher's \<open>prepare\<close> and \<open>inspect\<close>: the first
  resolves the identity and the project and leaves the rest of the firing alone; the second,
  when it cannot tell, says so, and never that the workstream is gone.
\<close>

locale dispatch_contract =
  fixes prepare :: "fire_context \<Rightarrow> target_info \<Rightarrow> ('w, fire_context) call"
    and inspect :: "fire_context \<Rightarrow> target_info \<Rightarrow> string \<Rightarrow> ('w, dispatch_result) call"
  assumes prepare_event: "prepare ctx t w = (Inr ctx', w') \<Longrightarrow> fc_event ctx' = fc_event ctx"
    and prepare_texts: "prepare ctx t w = (Inr ctx', w') \<Longrightarrow>
      fc_seed ctx' = fc_seed ctx \<and> fc_follow_up ctx' = fc_follow_up ctx
      \<and> fc_safe_summary ctx' = fc_safe_summary ctx"
    and prepare_rule: "prepare ctx t w = (Inr ctx', w') \<Longrightarrow>
      ri_id (fc_rule ctx') = ri_id (fc_rule ctx) \<and> ri_group_by (fc_rule ctx') = ri_group_by (fc_rule ctx)"
    and inspect_unknown: "inspect ctx t h w = (Inr r, w') \<Longrightarrow> \<not> dr_ok r \<Longrightarrow> \<not> dr_gone r"
begin

lemma gone_means_ok: "inspect ctx t h w = (Inr r, w') \<Longrightarrow> dr_gone r \<Longrightarrow> dr_ok r"
  using inspect_unknown by blast

lemma prepare_payload:
  "prepare ctx t w = (Inr ctx', w') \<Longrightarrow>
     (fc_event ctx', fc_seed ctx', fc_follow_up ctx') = (fc_event ctx, fc_seed ctx, fc_follow_up ctx)"
  using prepare_event prepare_texts by simp

end

interpretation base: dispatch_contract base_prepare base_inspect
  by unfold_locales (auto simp: base_prepare_def base_inspect_def)

end
