(* ===== verification/Agent_Queue.thy ===== *)
theory Agent_Queue
  imports Dispatch
begin

text \<open>
  \<open>ringdown/agent_queue.py\<close>: the durable queue of agent deliveries. \<open>enqueue\<close> records a
  firing and its outbox row in one transaction; the scheduler's \<open>tick\<close>, serialized by an
  advisory lock, polls lifecycles, cancels unbound work and delivers each group's oldest rows,
  reserving a workstream before it calls the dispatcher.

  The state is the database, the world the dispatchers talk to, and the calls made so far, each
  with the database as it was committed when the call was made. Every clock reading comes from
  the world, so time may pass with any call. Statements of the scheduler's own connection do not
  fail, other than a duplicate workstream handle, which the primary key refuses.
\<close>

section \<open>Configuration and state\<close>

record queue_config =
  max_active :: int
  feed_interval :: time
  poll_interval :: time
  rate_ceiling :: int
  batch_size :: int

text \<open>The constructor: \<open>max_active\<close> is checked, the other three bounds are clamped.\<close>

definition make_queue :: "int \<Rightarrow> time \<Rightarrow> time \<Rightarrow> int \<Rightarrow> int \<Rightarrow> exn + queue_config" where
  "make_queue active feed poll ceiling batch =
     (if \<not> (1 \<le> active \<and> active \<le> 4)
      then Inl (Exn ''ValueError'' ''max_active must be between 1 and 4'')
      else Inr \<lparr>max_active = active, feed_interval = max 0 feed, poll_interval = max (seconds 1) poll,
                rate_ceiling = ceiling, batch_size = max 1 (min batch 100)\<rparr>)"

datatype qcall =
    Call_Open string "exn + dispatch_result"
  | Call_Inspect string "exn + dispatch_result"
  | Call_Feed string "id list" "exn + dispatch_result"

record 'w qstate =
  q_db :: db
  q_world :: 'w
  q_calls :: "(qcall \<times> db) list"

text \<open>
  What the scheduler takes from outside: the dispatcher registry, the clock, the handle
  \<open>secrets.token_hex(16)\<close> draws, and \<open>datetime.fromisoformat\<close> with a naive result read as UTC.
\<close>

record 'w env =
  e_registry :: "'w registry"
  e_clock :: "'w \<Rightarrow> time"
  e_token :: "'w \<Rightarrow> string \<times> 'w"
  e_fromiso :: "string \<Rightarrow> time option"

definition now :: "'w env \<Rightarrow> 'w qstate \<Rightarrow> time" where
  "now E s = e_clock E (q_world s)"

definition on_db :: "(db \<Rightarrow> db) \<Rightarrow> 'w qstate \<Rightarrow> 'w qstate" where
  "on_db f s = s\<lparr>q_db := f (q_db s)\<rparr>"

text \<open>
  One dispatcher call: the world moves; the call, its outcome and the database committed when
  it was made are noted.
\<close>

definition perform ::
    "((exn + 'a) \<Rightarrow> qcall) \<Rightarrow> ('w, 'a) call \<Rightarrow> 'w qstate \<Rightarrow> (exn + 'a) \<times> 'w qstate" where
  "perform c f s =
     (case f (q_world s) of (r, w') \<Rightarrow>
        (r, s\<lparr>q_world := w', q_calls := q_calls s @ [(c r, q_db s)]\<rparr>))"

text \<open>\<open>prepare\<close> is local to Ringdown and the identity provider: no call on a workstream.\<close>

definition quietly :: "('w, 'a) call \<Rightarrow> 'w qstate \<Rightarrow> (exn + 'a) \<times> 'w qstate" where
  "quietly f s = (case f (q_world s) of (r, w') \<Rightarrow> (r, s\<lparr>q_world := w'\<rparr>))"

section \<open>Group keys and payloads\<close>

definition group_key :: "fire_context \<Rightarrow> id option \<Rightarrow> string option \<Rightarrow> exn + gkey" where
  "group_key ctx tid source =
     (let grouping = (case ri_group_by (fc_rule ctx) of None \<Rightarrow> ''host'' | Some g \<Rightarrow> g)
      in if grouping \<noteq> ''host'' \<and> grouping \<noteq> ''rule''
         then Inl (Exn ''ValueError'' ''group_by must be host or rule'')
         else Inr \<lparr>gk_rule = ri_id (fc_rule ctx), gk_target = tid, gk_grouping = grouping,
                   gk_source = (if grouping = ''host''
                                then (if or_else source [] \<noteq> [] then source else ev_source (fc_event ctx))
                                else None),
                   gk_owner = fc_owner_user ctx,
                   gk_project = or_else (ri_project_id (fc_rule ctx)) []\<rparr>)"

definition ts_text :: "ev_time \<Rightarrow> string" where
  "ts_text t = (case t of No_Ts \<Rightarrow> [] | Ts_Time i \<Rightarrow> str_datetime i | Ts_Text s \<Rightarrow> s)"

text \<open>
  \<open>pack\<close>, read back with \<open>FireContext(**payload)\<close>: six keys of the rule, five texts of the
  event, the owner and the three prepared messages; nothing else is stored.
\<close>

definition pack :: "fire_context \<Rightarrow> fire_context" where
  "pack ctx =
     (let ev = fc_event ctx in
      (fire_context_init (fc_rule ctx)
         (no_event\<lparr>ev_source := Some (or_else (ev_source ev) []),
                   ev_severity_text := Some (or_else (ev_severity_text ev) []),
                   ev_ts := Ts_Text (ts_text (ev_ts ev)),
                   ev_body := Some (or_else (ev_body ev) []),
                   ev_raw := Some (or_else (ev_raw ev) [])\<rparr>))
      \<lparr>fc_owner_user := fc_owner_user ctx, fc_seed := fc_seed ctx,
       fc_follow_up := fc_follow_up ctx, fc_safe_summary := fc_safe_summary ctx\<rparr>)"

section \<open>Finding a workstream\<close>

text \<open>
  \<open>_find_workstream\<close>: the most recently opened unclosed row of this rule, target, owner and
  project; under \<open>host\<close> grouping also of this source, where a null source matches nothing.
\<close>

definition ws_serves :: "fire_context \<Rightarrow> id option \<Rightarrow> string \<Rightarrow> string option \<Rightarrow> ws_row \<Rightarrow> bool" where
  "ws_serves ctx tid grouping source w =
     (w_rule_id w \<noteq> None \<and> w_rule_id w = ri_id (fc_rule ctx)
      \<and> w_target_id w \<noteq> None \<and> w_target_id w = tid
      \<and> w_status w \<noteq> Closed
      \<and> w_owner_user w = fc_owner_user ctx
      \<and> w_project_id w = or_else (ri_project_id (fc_rule ctx)) []
      \<and> (grouping = ''rule''
         \<or> (source \<noteq> None
            \<and> (case w_group_source w of None \<Rightarrow> w_source w | Some g \<Rightarrow> Some g) = source)))"

definition find_workstream ::
    "db \<Rightarrow> fire_context \<Rightarrow> id option \<Rightarrow> string \<Rightarrow> string option \<Rightarrow> ws_row option" where
  "find_workstream d ctx tid grouping source =
     (case sort_key (\<lambda>w. - w_opened_at w) (filter (ws_serves ctx tid grouping source) (agent_workstreams d)) of
        [] \<Rightarrow> None | w # _ \<Rightarrow> Some w)"

section \<open>Enqueueing\<close>

definition firing_summary :: "fire_context \<Rightarrow> string" where
  "firing_summary ctx =
     take 500 (show_str (ri_name (fc_rule ctx)) @ '': '' @ show_str (ev_body (fc_event ctx)))"

text \<open>The history row and the outbox row of a firing, with the ids the sequences give them.\<close>

definition firing_row :: "time \<Rightarrow> fire_context \<Rightarrow> id \<Rightarrow> id \<Rightarrow> gkey \<Rightarrow> id \<Rightarrow> alert_event_row" where
  "firing_row t ctx rid tid key n =
     \<lparr>ae_id = n, ae_rule_id = Some rid, ae_target_id = Some tid, ae_fired_at = t,
      ae_source = ev_source (fc_event ctx), ae_summary = firing_summary ctx,
      ae_sample = [(''disposition'', PStr ''queued'')], ae_key = Key_Group key, ae_notified = False,
      ae_disposition = ''queued''\<rparr>"

definition outbox_row ::
    "time \<Rightarrow> fire_context \<Rightarrow> id \<Rightarrow> id \<Rightarrow> gkey \<Rightarrow> ws_row option \<Rightarrow> id \<Rightarrow> id \<Rightarrow> pending_row" where
  "outbox_row t ctx rid tid key current n ev =
     \<lparr>p_id = n, p_event_id = ev, p_rule_id = rid, p_target_id = tid, p_key = key,
      p_assigned = map_option w_handle current, p_payload = pack ctx, p_created_at = t,
      p_available_at = t, p_attempts = 0, p_last_detail = ''waiting for dispatch''\<rparr>"

definition insert_firing :: "time \<Rightarrow> fire_context \<Rightarrow> target_info \<Rightarrow> gkey \<Rightarrow> ws_row option \<Rightarrow> db \<Rightarrow> exn + db" where
  "insert_firing t ctx target key current d =
     (case (ri_id (fc_rule ctx), ti_id target) of
        (Some rid, Some tid) \<Rightarrow>
          if find_rule d rid = None \<or> find_target d tid = None
          then Inl (Exn ''ForeignKeyViolation'' [])
          else Inr (d\<lparr>
            alert_events := alert_events d @ [firing_row t ctx rid tid key (next_alert_event d)],
            agent_pending := agent_pending d
              @ [outbox_row t ctx rid tid key current (next_pending d) (next_alert_event d)],
            next_alert_event := next_alert_event d + 1,
            next_pending := next_pending d + 1\<rparr>)
      | _ \<Rightarrow> Inl (Exn ''NotNullViolation'' []))"

definition enqueue ::
    "'w env \<Rightarrow> fire_context \<Rightarrow> target_info \<Rightarrow> string option \<Rightarrow> 'w qstate \<Rightarrow> (exn + string) \<times> 'w qstate" where
  "enqueue E ctx0 target dedup_source s =
     (case e_registry E (ti_type target) of
        None \<Rightarrow> (Inl (Exn ''KeyError'' (ti_type target)), s)
      | Some disp \<Rightarrow>
        (case quietly (d_prepare disp ctx0 target) s of
           (Inl e, s1) \<Rightarrow> (Inl e, s1)
         | (Inr ctx, s1) \<Rightarrow>
           (case group_key ctx (ti_id target) dedup_source of
              Inl e \<Rightarrow> (Inl e, s1)
            | Inr key \<Rightarrow>
              (let grouping = (case ri_group_by (fc_rule ctx) of None \<Rightarrow> ''host'' | Some g \<Rightarrow> g);
                   current = find_workstream (q_db s1) ctx (ti_id target) grouping (gk_source key)
               in case insert_firing (now E s1) ctx target key current (q_db s1) of
                    Inl e \<Rightarrow> (Inl e, s1)
                  | Inr d \<Rightarrow> (Inr ''queued'', s1\<lparr>q_db := d\<rparr>)))))"

section \<open>Lifecycle checks\<close>

text \<open>\<open>UPDATE agent_workstreams SET ... WHERE handle = h\<close>.\<close>

definition set_ws :: "string \<Rightarrow> (ws_row \<Rightarrow> ws_row) \<Rightarrow> db \<Rightarrow> db" where
  "set_ws handle f d = d\<lparr>agent_workstreams := update_where (\<lambda>w. w_handle w = handle) f (agent_workstreams d)\<rparr>"

text \<open>\<open>_ws_context\<close> and the database half of \<open>_inspect\<close>.\<close>

definition ws_context :: "ws_row \<Rightarrow> fire_context" where
  "ws_context ws = (fire_context_init
     \<lparr>ri_id = w_rule_id ws, ri_name = None, ri_kind = None, ri_group_by = None,
      ri_project_id = Some (w_project_id ws), ri_created_by_upn = Some (w_created_by_upn ws)\<rparr>
     no_event)\<lparr>fc_owner_user := w_owner_user ws\<rparr>"

definition next_status :: "ws_status \<Rightarrow> dispatch_result \<Rightarrow> ws_status" where
  "next_status st res =
     (let st1 = (if dr_ok res \<and> dr_gone res then Closed else st)
      in if dr_ok res \<and> \<not> dr_gone res \<and> (st1 = Opening \<or> st1 = Uncertain) then Open else st1)"

definition mark_events :: "id list \<Rightarrow> string \<Rightarrow> db \<Rightarrow> db" where
  "mark_events ids disposition d = d\<lparr>alert_events :=
     update_where (\<lambda>e. ae_id e \<in> set ids) (\<lambda>e. e\<lparr>ae_disposition := disposition\<rparr>) (alert_events d)\<rparr>"

text \<open>Waiting rows assigned to a closed workstream, created no later than its closure.\<close>

definition resolved_by :: "string \<Rightarrow> time \<Rightarrow> pending_row \<Rightarrow> bool" where
  "resolved_by handle closed_at p = (p_assigned p = Some handle \<and> p_created_at p \<le> closed_at)"

definition close_ws :: "string \<Rightarrow> time \<Rightarrow> db \<Rightarrow> db" where
  "close_ws handle closed_at d =
     (let resolved = filter (resolved_by handle closed_at) (agent_pending d)
      in mark_events (map p_event_id resolved) ''resolved''
         ((set_ws handle (\<lambda>w. w\<lparr>w_closed_at := Some closed_at\<rparr>) d)
          \<lparr>alert_incidents := update_where (\<lambda>i. in_handle i = Some handle)
              (\<lambda>i. i\<lparr>in_status := ''closed''\<rparr>) (alert_incidents d),
            agent_pending := delete_where (resolved_by handle closed_at) (agent_pending d)\<rparr>))"

definition record_lifecycle ::
    "'w env \<Rightarrow> time \<Rightarrow> ws_row \<Rightarrow> string \<Rightarrow> dispatch_result \<Rightarrow> db \<Rightarrow> db" where
  "record_lifecycle E t ws owner res d =
     (let m = dr_meta res; st = next_status (w_status ws) res;
          d1 = set_ws (w_handle ws)
                 (\<lambda>w. w\<lparr>w_status := st, w_checked_at := Some t,
                        w_last_state := (if dr_ok res then m_state m else Some ''unknown''),
                        w_last_detail := take 300 (dr_detail res), w_owner_user := owner,
                        w_project_id := (case m_project_id m of None \<Rightarrow> w_project_id ws | Some p \<Rightarrow> p)\<rparr>) d
      in if st = Closed
         then close_ws (w_handle ws)
                (case Option.bind (m_closed_at m) (e_fromiso E) of None \<Rightarrow> t | Some c \<Rightarrow> c) d1
         else d1)"

text \<open>\<open>_inspect\<close>: \<open>None\<close> when the workstream's target type has no dispatcher.\<close>

definition inspect_ws ::
    "'w env \<Rightarrow> ws_row \<Rightarrow> 'w qstate \<Rightarrow> (exn + dispatch_result option) \<times> 'w qstate" where
  "inspect_ws E ws s =
     (case e_registry E (w_target_type ws) of
        None \<Rightarrow> (Inr None, s)
      | Some disp \<Rightarrow>
        (case quietly (d_prepare disp (ws_context ws) (bare_target (w_target_id ws))) s of
           (Inl e, s1) \<Rightarrow> (Inl e, s1)
         | (Inr ctx, s1) \<Rightarrow>
           (case perform (Call_Inspect (w_handle ws))
                   (d_inspect disp ctx (bare_target None) (w_handle ws)) s1 of
              (Inl e, s2) \<Rightarrow> (Inl e, s2)
            | (Inr res, s2) \<Rightarrow>
                (Inr (Some res),
                 on_db (record_lifecycle E (now E s2) ws (fc_owner_user ctx) res) s2))))"

definition due_for_check :: "time \<Rightarrow> db \<Rightarrow> ws_row list" where
  "due_for_check t d =
     (let active = filter (\<lambda>w. w_status w \<noteq> Closed) (agent_workstreams d);
          never = filter (\<lambda>w. w_checked_at w = None) active;
          stale = filter (\<lambda>w. case w_checked_at w of None \<Rightarrow> False | Some c \<Rightarrow> c < t - seconds 30) active
      in take 64 (never @ sort_key (\<lambda>w. case w_checked_at w of None \<Rightarrow> 0 | Some c \<Rightarrow> c) stale))"

definition mark_unknown :: "time \<Rightarrow> string \<Rightarrow> string \<Rightarrow> db \<Rightarrow> db" where
  "mark_unknown t handle err = set_ws handle
     (\<lambda>w. w\<lparr>w_checked_at := Some t, w_last_state := Some ''unknown'',
            w_last_detail := ''inspection failed ('' @ err @ '')''\<rparr>)"

definition check_one :: "'w env \<Rightarrow> ws_row \<Rightarrow> 'w qstate \<Rightarrow> 'w qstate" where
  "check_one E ws s =
     (if w_status ws \<noteq> Opening \<or> w_attempted ws
      then (case inspect_ws E ws s of
              (Inr _, s1) \<Rightarrow> s1
            | (Inl e, s1) \<Rightarrow>
                on_db (mark_unknown (now E s1) (w_handle ws) (exn_type e)) s1)
      else s)"

section \<open>Cancelling unbound work\<close>

definition still_bound :: "db \<Rightarrow> pending_row \<Rightarrow> bool" where
  "still_bound d p =
     (list_ex (\<lambda>r. r_id r = p_rule_id p \<and> r_enabled r) (alert_rules d)
      \<and> list_ex (\<lambda>b. b_rule_id b = p_rule_id p \<and> b_target_id b = p_target_id p) (rule_targets d))"

definition cancel_unbound :: "db \<Rightarrow> db" where
  "cancel_unbound d =
     (let cancelled = filter (\<lambda>p. \<not> still_bound d p) (agent_pending d)
      in mark_events (map p_event_id cancelled) ''cancelled''
           (d\<lparr>agent_pending := delete_where (\<lambda>p. \<not> still_bound d p) (agent_pending d)\<rparr>))"

section \<open>Groups due for delivery\<close>

definition first_seen :: "'a list \<Rightarrow> 'a list" where
  "first_seen xs = rev (remdups (rev xs))"

definition due_groups :: "time \<Rightarrow> db \<Rightarrow> gkey list" where
  "due_groups t d =
     take 256 (filter (\<lambda>k. list_ex (\<lambda>p. p_key p = k \<and> p_available_at p \<le> t) (agent_pending d))
                      (first_seen (map p_key (sort_key p_id (agent_pending d)))))"

definition group_rows :: "queue_config \<Rightarrow> gkey \<Rightarrow> db \<Rightarrow> pending_row list" where
  "group_rows Q k d =
     take (nat (batch_size Q)) (filter (\<lambda>p. p_key p = k) (sort_key p_id (agent_pending d)))"

text \<open>\<open>_defer\<close>.\<close>

definition defer_rows :: "time \<Rightarrow> pending_row list \<Rightarrow> string \<Rightarrow> time \<Rightarrow> db \<Rightarrow> db" where
  "defer_rows t rows detail wait d = d\<lparr>agent_pending :=
     update_where (\<lambda>p. p_id p \<in> p_id ` set rows)
       (\<lambda>p. p\<lparr>p_available_at := t + wait, p_attempts := p_attempts p + 1,
              p_last_detail := take 300 detail\<rparr>) (agent_pending d)\<rparr>"

definition postpone :: "'w env \<Rightarrow> pending_row list \<Rightarrow> string \<Rightarrow> time \<Rightarrow> 'w qstate \<Rightarrow> 'w qstate" where
  "postpone E rows detail wait s = on_db (defer_rows (now E s) rows detail wait) s"

section \<open>Delivering a group\<close>

text \<open>
  The admission: reuse the group's workstream, or reserve a fresh handle when fewer than
  \<open>max_active\<close> are unclosed and fewer than \<open>rate_ceiling\<close> were opened in the last minute.
  \<open>Inr None\<close> is the refusal; a handle that exists already breaks the primary key.
\<close>

definition active_count :: "db \<Rightarrow> int" where
  "active_count d = int (length (filter (\<lambda>w. w_status w \<noteq> Closed) (agent_workstreams d)))"

definition recent_count :: "time \<Rightarrow> db \<Rightarrow> int" where
  "recent_count t d = int (length (filter (\<lambda>w. w_opened_at w > t - seconds 60) (agent_workstreams d)))"

definition new_ws :: "time \<Rightarrow> string \<Rightarrow> rule_row \<Rightarrow> target_row \<Rightarrow> fire_context \<Rightarrow> gkey \<Rightarrow> ws_row" where
  "new_ws t handle rule target ctx key =
     \<lparr>w_handle = handle, w_rule_id = Some (r_id rule), w_target_id = Some (t_id target),
      w_target_type = t_type target, w_source = ev_source (fc_event ctx),
      w_group_source = (case gk_source key of None \<Rightarrow> ev_source (fc_event ctx) | Some x \<Rightarrow> Some x),
      w_key = key, w_owner_user = fc_owner_user ctx,
      w_project_id = or_else (ri_project_id (fc_rule ctx)) [],
      w_created_by_upn = or_else (ri_created_by_upn (fc_rule ctx)) [],
      w_status = Opening, w_opened_at = t, w_closed_at = None, w_checked_at = None,
      w_last_sent_at = None, w_last_state = None, w_last_detail = [],
      w_seeded = False, w_attempted = False\<rparr>"

definition reserve ::
    "'w env \<Rightarrow> queue_config \<Rightarrow> rule_row \<Rightarrow> target_row \<Rightarrow> fire_context \<Rightarrow> gkey \<Rightarrow> 'w qstate
     \<Rightarrow> (exn + ws_row option) \<times> 'w qstate" where
  "reserve E Q rule target ctx key s =
     (case find_workstream (q_db s) ctx (Some (t_id target)) (r_group_by rule) (gk_source key) of
        Some ws \<Rightarrow> (Inr (Some ws), s)
      | None \<Rightarrow>
        if active_count (q_db s) \<ge> max_active Q \<or> recent_count (now E s) (q_db s) \<ge> rate_ceiling Q
        then (Inr None, s)
        else (case e_token E (q_world s) of (handle, w') \<Rightarrow>
          let s1 = s\<lparr>q_world := w'\<rparr>; ws = new_ws (now E s1) handle rule target ctx key
          in if find_ws (q_db s1) handle \<noteq> None then (Inl (Exn ''UniqueViolation'' []), s1)
             else (Inr (Some ws),
                   on_db (\<lambda>d. d\<lparr>agent_workstreams := agent_workstreams d @ [ws]\<rparr>) s1)))"

definition assign_rows :: "pending_row list \<Rightarrow> string \<Rightarrow> db \<Rightarrow> db" where
  "assign_rows rows handle d = d\<lparr>agent_pending :=
     update_where (\<lambda>p. p_id p \<in> p_id ` set rows) (\<lambda>p. p\<lparr>p_assigned := Some handle\<rparr>) (agent_pending d)\<rparr>"

text \<open>
  The creation, for a reservation that was never attempted. The reservation is marked
  attempted and uncertain before the call; only a confirmed refusal unmarks it.
  \<open>Inr None\<close>: the rows were deferred and the delivery is over.
\<close>

definition create_ws ::
    "'w env \<Rightarrow> 'w dispatcher \<Rightarrow> rule_row \<Rightarrow> target_row \<Rightarrow> fire_context \<Rightarrow> pending_row list \<Rightarrow> ws_row
     \<Rightarrow> 'w qstate \<Rightarrow> (exn + ws_row option) \<times> 'w qstate" where
  "create_ws E disp rule target ctx rows ws s =
     (if w_status ws = Opening \<and> \<not> w_attempted ws
      then
        (let h = w_handle ws;
             s1 = on_db (set_ws h (\<lambda>w. w\<lparr>w_attempted := True, w_status := Uncertain\<rparr>)) s
         in case perform (Call_Open h) (d_open disp (ctx\<lparr>fc_request_id := h\<rparr>) (target_of_row target)) s1 of
              (Inl e, s2) \<Rightarrow> (Inl e, s2)
            | (Inr res, s2) \<Rightarrow>
              (let s3 = on_db (add_audit ''collector'' ''agent_create''
                     [(''rule_id'', PInt (r_id rule)), (''target_id'', PInt (t_id target)),
                      (''reserved_handle'', PStr h), (''returned_handle'', PStr (dr_handle res)),
                      (''ok'', PBool (dr_ok res)), (''detail'', PStr (take 300 (dr_detail res)))] True) s2
               in if \<not> dr_ok res
                  then (Inr None,
                        postpone E rows (dr_detail res) (seconds 30)
                          (if m_retry_create (dr_meta res)
                           then on_db (set_ws h (\<lambda>w. w\<lparr>w_attempted := False, w_status := Opening\<rparr>)) s3
                           else s3))
                  else if dr_handle res \<noteq> h
                  then (Inr None, postpone E rows
                          ''create returned unexpected handle; reconcile manually'' (seconds 300) s3)
                  else (Inr (Some (ws\<lparr>w_status := Open\<rparr>)),
                        on_db (set_ws h (\<lambda>w. w\<lparr>w_status := Open\<rparr>)) s3)))
      else (Inr (Some ws), s))"

text \<open>The batch: whole rows in order, cut before the text would pass 12000 characters.\<close>

definition row_text :: "pending_row \<Rightarrow> string" where
  "row_text p = (if fc_follow_up (p_payload p) \<noteq> [] then fc_follow_up (p_payload p) else fc_seed (p_payload p))"

fun cut_batch :: "nat \<Rightarrow> bool \<Rightarrow> pending_row list \<Rightarrow> pending_row list" where
  "cut_batch n started [] = []"
| "cut_batch n started (r # rs) =
     (if started \<and> n + length (row_text r) > 12000 then []
      else r # cut_batch (n + length (row_text r)) True rs)"

definition newline :: string where
  "newline = [CHR 0x0A]"

definition row_part :: "pending_row \<Rightarrow> string" where
  "row_part p = ''[Ringdown event '' @ int_text (p_event_id p) @ '']'' @ newline @ row_text p"

definition batch_message :: "bool \<Rightarrow> string \<Rightarrow> pending_row list \<Rightarrow> string" where
  "batch_message seeded seed batch =
     (let m = join (newline @ newline) (map row_part batch)
      in if seeded then m else seed @ newline @ newline @ m)"

definition delivery_id :: "pending_row list \<Rightarrow> string" where
  "delivery_id batch = ''ringdown_'' @ int_text (p_event_id (hd batch)) @ ''_'' @ int_text (p_event_id (last batch))"

text \<open>The transaction that follows an accepted send.\<close>

definition record_delivery ::
    "time \<Rightarrow> rule_row \<Rightarrow> target_row \<Rightarrow> ws_row \<Rightarrow> pending_row list \<Rightarrow> dispatch_result \<Rightarrow> db \<Rightarrow> db" where
  "record_delivery t rule target ws batch res d =
     (let disposition = (if w_seeded ws then ''fed'' else ''opened'');
          did = delivery_id batch; ids = map p_event_id batch
      in add_audit ''collector'' ''agent_delivery''
           [(''handle'', PStr (w_handle ws)), (''rule_id'', PInt (r_id rule)),
            (''target_id'', PInt (t_id target)), (''disposition'', PStr disposition),
            (''event_count'', PInt (int (length batch))), (''delivery_id'', PStr did)] True
         (d\<lparr>agent_workstreams := update_where (\<lambda>w. w_handle w = w_handle ws)
              (\<lambda>w. w\<lparr>w_seeded := True, w_last_sent_at := Some t, w_last_detail := take 300 (dr_detail res)\<rparr>)
              (agent_workstreams d),
            alert_events := update_where (\<lambda>e. ae_id e \<in> set ids)
              (\<lambda>e. e\<lparr>ae_notified := True, ae_disposition := disposition,
                     ae_sample := dict_merge (ae_sample e)
                       [(''handle'', PStr (w_handle ws)), (''disposition'', PStr disposition),
                        (''send_status'', opt_str (m_send_status (dr_meta res))), (''delivery_id'', PStr did)]\<rparr>)
              (alert_events d),
            agent_pending := delete_where (\<lambda>p. p_id p \<in> p_id ` set batch) (agent_pending d),
            alert_rules := update_where (\<lambda>r. r_id r = r_id rule) (\<lambda>r. r\<lparr>r_last_fired := Some t\<rparr>)
              (alert_rules d)\<rparr>))"

definition send_batch ::
    "'w env \<Rightarrow> 'w dispatcher \<Rightarrow> rule_row \<Rightarrow> target_row \<Rightarrow> fire_context \<Rightarrow> pending_row list \<Rightarrow> ws_row
     \<Rightarrow> 'w qstate \<Rightarrow> (exn + unit) \<times> 'w qstate" where
  "send_batch E disp rule target ctx rows ws s =
     (let batch = cut_batch 0 False rows;
          ctx1 = ctx\<lparr>fc_follow_up := batch_message (w_seeded ws) (fc_seed ctx) batch,
                      fc_delivery_id := delivery_id batch\<rparr>
      in case perform (Call_Feed (w_handle ws) (map p_event_id batch))
                (d_feed disp ctx1 (target_of_row target) (w_handle ws)) s of
           (Inl e, s1) \<Rightarrow> (Inl e, s1)
         | (Inr res, s1) \<Rightarrow>
             if \<not> dr_ok res then (Inr (), postpone E batch (dr_detail res) (seconds 30) s1)
             else (Inr (), on_db (record_delivery (now E s1) rule target ws batch res) s1))"

text \<open>After the reservation and the creation: the lifecycle check, the two refusals, the send.\<close>

definition feed_ws ::
    "'w env \<Rightarrow> queue_config \<Rightarrow> 'w dispatcher \<Rightarrow> rule_row \<Rightarrow> target_row \<Rightarrow> fire_context \<Rightarrow> pending_row list
     \<Rightarrow> ws_row \<Rightarrow> 'w qstate \<Rightarrow> (exn + unit) \<times> 'w qstate" where
  "feed_ws E Q disp rule target ctx rows ws s =
     (case inspect_ws E ws s of
        (Inl e, s1) \<Rightarrow> (Inl e, s1)
      | (Inr None, s1) \<Rightarrow> (Inr (), postpone E rows ''lifecycle unavailable'' (seconds 30) s1)
      | (Inr (Some res), s1) \<Rightarrow>
        if \<not> dr_ok res \<or> dr_gone res \<or> \<not> m_live (dr_meta res)
        then (Inr (), postpone E rows (dr_detail res) (seconds 30) s1)
        else if Some (case m_project_id (dr_meta res) of None \<Rightarrow> [] | Some p \<Rightarrow> p) \<noteq> ri_project_id (fc_rule ctx)
        then (Inr (), postpone E rows ''workstream project mismatch; refusing delivery'' (seconds 300) s1)
        else
          (let remaining = (case w_last_sent_at ws of None \<Rightarrow> 0
                            | Some t \<Rightarrow> feed_interval Q - (now E s1 - t))
           in if remaining > 0
              then (Inr (), postpone E rows ''batching follow-up events'' remaining s1)
              else send_batch E disp rule target ctx rows ws s1))"

text \<open>\<open>_deliver\<close>.\<close>

definition deliver ::
    "'w env \<Rightarrow> queue_config \<Rightarrow> pending_row \<Rightarrow> pending_row list \<Rightarrow> 'w qstate \<Rightarrow> (exn + unit) \<times> 'w qstate" where
  "deliver E Q first rows s =
     (let ctx = p_payload first in
      case (find_target (q_db s) (p_target_id first), find_rule (q_db s) (p_rule_id first)) of
        (Some target, Some rule) \<Rightarrow>
          (case e_registry E (t_type target) of
             None \<Rightarrow> (Inr (), postpone E rows ''dispatcher unavailable'' (seconds 30) s)
           | Some disp \<Rightarrow>
             if \<not> d_stateful disp
             then (Inr (), postpone E rows ''dispatcher unavailable'' (seconds 30) s)
             else
               (case quietly (d_prepare disp
                        (ctx\<lparr>fc_rule := rule_of_row rule, fc_owner_user := or_else (r_owner_user rule) []\<rparr>)
                        (target_of_row target)) s of
                  (Inl e, s1) \<Rightarrow> (Inl e, s1)
                | (Inr current, s1) \<Rightarrow>
                    if fc_owner_user current \<noteq> fc_owner_user ctx
                       \<or> ri_project_id (fc_rule current) \<noteq> ri_project_id (fc_rule ctx)
                    then (Inr (), postpone E rows
                            ''owner/project changed; operator reconciliation required'' (seconds 300) s1)
                    else
                      (case reserve E Q rule target ctx (p_key first) s1 of
                         (Inl e, s2) \<Rightarrow> (Inl e, s2)
                       | (Inr None, s2) \<Rightarrow>
                           (Inr (), postpone E rows ''waiting for active-workstream capacity'' (poll_interval Q) s2)
                       | (Inr (Some ws), s2) \<Rightarrow>
                           (case create_ws E disp rule target ctx rows ws
                                   (on_db (assign_rows rows (w_handle ws)) s2) of
                              (Inl e, s3) \<Rightarrow> (Inl e, s3)
                            | (Inr None, s3) \<Rightarrow> (Inr (), s3)
                            | (Inr (Some ws1), s3) \<Rightarrow> feed_ws E Q disp rule target ctx rows ws1 s3))))
      | _ \<Rightarrow> (Inr (), s))"

section \<open>The scheduler\<close>

text \<open>One group of \<open>_tick_locked\<close>: an exception defers the group's rows.\<close>

definition deliver_group :: "'w env \<Rightarrow> queue_config \<Rightarrow> gkey \<Rightarrow> 'w qstate \<Rightarrow> 'w qstate" where
  "deliver_group E Q k s =
     (case group_rows Q k (q_db s) of
        [] \<Rightarrow> s
      | first # rest \<Rightarrow>
        if p_available_at first > now E s then s
        else (case deliver E Q first (first # rest) s of
                (Inr _, s1) \<Rightarrow> s1
              | (Inl e, s1) \<Rightarrow> postpone E (first # rest)
                  (''delivery failed ('' @ exn_type e @ ''); events retained'') (seconds 30) s1))"

definition tick_locked :: "'w env \<Rightarrow> queue_config \<Rightarrow> 'w qstate \<Rightarrow> 'w qstate" where
  "tick_locked E Q s =
     (let s1 = fold (check_one E) (due_for_check (now E s) (q_db s)) s;
          s2 = on_db cancel_unbound s1
      in fold (deliver_group E Q) (due_groups (now E s2) (q_db s2)) s2)"

text \<open>\<open>tick\<close>: nothing happens in a replica that does not get the advisory lock.\<close>

definition tick :: "'w env \<Rightarrow> queue_config \<Rightarrow> bool \<Rightarrow> 'w qstate \<Rightarrow> 'w qstate" where
  "tick E Q locked s = (if locked then tick_locked E Q s else s)"

end
