(* ===== verification/Agent_Queue_Inv.thy ===== *)
theory Agent_Queue_Inv
  imports Agent_Queue
begin

text \<open>
  Invariants of the scheduler. A locale states what it takes for a predicate of the queue's
  state to be kept by the few primitive changes the scheduler makes; that a whole \<open>tick\<close> keeps
  it is proved once there, and each invariant of the queue is an interpretation.
\<close>

section \<open>Frames of the primitive operations\<close>

lemma on_db_sel [simp]:
  "q_db (on_db f s) = f (q_db s)" "q_world (on_db f s) = q_world s" "q_calls (on_db f s) = q_calls s"
  by (simp_all add: on_db_def)

lemma set_ws_frame [simp]:
  "alert_rules (set_ws h f d) = alert_rules d" "targets (set_ws h f d) = targets d"
  "rule_targets (set_ws h f d) = rule_targets d" "alert_events (set_ws h f d) = alert_events d"
  "alert_incidents (set_ws h f d) = alert_incidents d" "agent_pending (set_ws h f d) = agent_pending d"
  "next_pending (set_ws h f d) = next_pending d" "next_alert_event (set_ws h f d) = next_alert_event d"
  "agent_workstreams (set_ws h f d) = update_where (\<lambda>w. w_handle w = h) f (agent_workstreams d)"
  by (simp_all add: set_ws_def)

lemma mark_events_frame [simp]:
  "alert_rules (mark_events ids x d) = alert_rules d" "targets (mark_events ids x d) = targets d"
  "rule_targets (mark_events ids x d) = rule_targets d"
  "agent_workstreams (mark_events ids x d) = agent_workstreams d"
  "agent_pending (mark_events ids x d) = agent_pending d"
  "alert_incidents (mark_events ids x d) = alert_incidents d"
  "next_pending (mark_events ids x d) = next_pending d"
  "next_alert_event (mark_events ids x d) = next_alert_event d"
  "alert_events (mark_events ids x d) =
     update_where (\<lambda>e. ae_id e \<in> set ids) (\<lambda>e. e\<lparr>ae_disposition := x\<rparr>) (alert_events d)"
  by (simp_all add: mark_events_def)

lemma defer_rows_frame [simp]:
  "alert_rules (defer_rows t rows x w d) = alert_rules d"
  "alert_events (defer_rows t rows x w d) = alert_events d"
  "agent_workstreams (defer_rows t rows x w d) = agent_workstreams d"
  "next_pending (defer_rows t rows x w d) = next_pending d"
  "next_alert_event (defer_rows t rows x w d) = next_alert_event d"
  by (simp_all add: defer_rows_def)

lemma assign_rows_frame [simp]:
  "alert_rules (assign_rows rows h d) = alert_rules d"
  "alert_events (assign_rows rows h d) = alert_events d"
  "agent_workstreams (assign_rows rows h d) = agent_workstreams d"
  "next_pending (assign_rows rows h d) = next_pending d"
  "next_alert_event (assign_rows rows h d) = next_alert_event d"
  by (simp_all add: assign_rows_def)

text \<open>Updates that keep the rows' identities.\<close>

interpretation deferred: keyed_update "\<lambda>p. (p_id p, p_event_id p)"
    "\<lambda>p. p\<lparr>p_available_at := a, p_attempts := p_attempts p + 1, p_last_detail := x\<rparr>" for a x
  by unfold_locales simp

interpretation assigned: keyed_update "\<lambda>p. (p_id p, p_event_id p)" "\<lambda>p. p\<lparr>p_assigned := a\<rparr>" for a
  by unfold_locales simp

lemma defer_rows_ids [simp]:
  "map (\<lambda>p. (p_id p, p_event_id p)) (agent_pending (defer_rows t rows x w d))
     = map (\<lambda>p. (p_id p, p_event_id p)) (agent_pending d)"
  unfolding defer_rows_def by (simp del: One_nat_def add: map_update_where_id)

lemma assign_rows_ids [simp]:
  "map (\<lambda>p. (p_id p, p_event_id p)) (agent_pending (assign_rows rows h d))
     = map (\<lambda>p. (p_id p, p_event_id p)) (agent_pending d)"
  unfolding assign_rows_def by (simp add: map_update_where_id)

definition handles :: "db \<Rightarrow> string list" where
  "handles d = map w_handle (agent_workstreams d)"

definition unclosed :: "db \<Rightarrow> string \<Rightarrow> bool" where
  "unclosed d h = (\<forall>w \<in> set (agent_workstreams d). w_handle w = h \<longrightarrow> w_status w \<noteq> Closed)"

definition rows_live :: "pending_row list \<Rightarrow> db \<Rightarrow> bool" where
  "rows_live rows d =
     ((\<lambda>p. (p_id p, p_event_id p)) ` set rows \<subseteq> (\<lambda>p. (p_id p, p_event_id p)) ` set (agent_pending d))"

lemma unclosedI:
  assumes "distinct (handles d)" "w \<in> set (agent_workstreams d)" "w_status w \<noteq> Closed"
  shows "unclosed d (w_handle w)"
  unfolding unclosed_def
proof (intro ballI impI)
  fix v assume "v \<in> set (agent_workstreams d)" "w_handle v = w_handle w"
  then have "v = w" using assms(1,2) by (auto simp: handles_def distinct_map dest: inj_onD)
  then show "w_status v \<noteq> Closed" using assms(3) by simp
qed

lemma rows_live_ids:
  "map (\<lambda>p. (p_id p, p_event_id p)) (agent_pending d') = map (\<lambda>p. (p_id p, p_event_id p)) (agent_pending d)
   \<Longrightarrow> rows_live rows d' = rows_live rows d"
  by (drule arg_cong[where f = set]) (simp only: set_map rows_live_def)

lemma unclosed_agent_workstreams: "agent_workstreams d' = agent_workstreams d \<Longrightarrow> unclosed d' h = unclosed d h"
  by (simp add: unclosed_def)

lemma unclosed_set_ws:
  "(\<And>w. w_handle (f w) = w_handle w) \<Longrightarrow> (\<And>w. w_status (f w) \<noteq> Closed) \<Longrightarrow> unclosed (set_ws h f d) h"
  by (auto simp: unclosed_def elim!: in_update_whereE)

lemma unclosed_set_ws_other:
  "h' \<noteq> h \<Longrightarrow> (\<And>w. w_handle (f w) = w_handle w) \<Longrightarrow> unclosed d h' \<Longrightarrow> unclosed (set_ws h f d) h'"
  by (auto simp: unclosed_def elim!: in_update_whereE)

lemma close_ws_workstreams [simp]:
  "agent_workstreams (close_ws h c d)
     = update_where (\<lambda>w. w_handle w = h) (\<lambda>w. w\<lparr>w_closed_at := Some c\<rparr>) (agent_workstreams d)"
  by (simp add: close_ws_def Let_def)

lemma unclosed_lifecycle_other:
  assumes "h \<noteq> w_handle ws" "unclosed d h"
  shows "unclosed (record_lifecycle E t ws owner res d) h"
  using assms by (auto simp: record_lifecycle_def Let_def unclosed_def elim!: in_update_whereE)

lemma lifecycle_pending:
  "next_status (w_status ws) res \<noteq> Closed \<Longrightarrow>
     agent_pending (record_lifecycle E t ws owner res d) = agent_pending d"
  by (simp add: record_lifecycle_def Let_def)

lemma next_status_not_gone: "st \<noteq> Closed \<Longrightarrow> \<not> dr_gone res \<Longrightarrow> next_status st res \<noteq> Closed"
  by (simp add: next_status_def)

lemma performE:
  assumes "perform c f s = (r, s')"
  obtains w' where "s' = s\<lparr>q_world := w', q_calls := q_calls s @ [(c r, q_db s)]\<rparr>" "q_db s' = q_db s"
  using assms by (auto simp: perform_def split: prod.splits)

lemma quietlyE:
  assumes "quietly f s = (r, s')"
  obtains w' where "s' = s\<lparr>q_world := w'\<rparr>" "q_db s' = q_db s" "q_calls s' = q_calls s"
  using assms by (auto simp: quietly_def split: prod.splits)

text \<open>What an inspection did: nothing to the database, or one \<open>record_lifecycle\<close>.\<close>

lemma inspect_wsE:
  assumes "inspect_ws E ws s = (r, s')"
  obtains (none) "r = Inr None" "s' = s"
  | (unprepared) e w' where "r = Inl e" "s' = s\<lparr>q_world := w'\<rparr>"
  | (raised) e w' where "r = Inl e"
      "s' = s\<lparr>q_world := w', q_calls := q_calls s @ [(Call_Inspect (w_handle ws) (Inl e), q_db s)]\<rparr>"
  | (seen) res owner t w' where "r = Inr (Some res)"
      "s' = on_db (record_lifecycle E t ws owner res)
              (s\<lparr>q_world := w', q_calls := q_calls s @ [(Call_Inspect (w_handle ws) (Inr res), q_db s)]\<rparr>)"
  using assms
  by (auto simp: inspect_ws_def perform_def quietly_def split: option.splits sum.splits prod.splits)

lemma due_for_check_unclosed: "ws \<in> set (due_for_check t d) \<Longrightarrow> ws \<in> set (agent_workstreams d) \<and> w_status ws \<noteq> Closed"
  unfolding due_for_check_def Let_def by (auto dest!: in_set_takeD)

lemma due_for_check_distinct:
  assumes "distinct (handles d)"
  shows "distinct (map w_handle (due_for_check t d))"
proof -
  have inj: "inj_on w_handle (set (agent_workstreams d))" and "distinct (agent_workstreams d)"
    using assms by (auto simp: handles_def distinct_map)
  then have "distinct (due_for_check t d)"
    unfolding due_for_check_def Let_def by (auto dest!: in_set_takeD split: option.splits)
  moreover have "inj_on w_handle (set (due_for_check t d))"
    using inj by (rule inj_on_subset) (auto dest: due_for_check_unclosed)
  ultimately show ?thesis by (simp add: distinct_map)
qed

lemma cut_batch_subset: "set (cut_batch n b rows) \<subseteq> set rows"
  by (induction rows arbitrary: n b) auto

lemma rows_live_mono: "set rows' \<subseteq> set rows \<Longrightarrow> rows_live rows d \<Longrightarrow> rows_live rows' d"
  by (auto simp: rows_live_def)

lemma rows_live_pending: "agent_pending d' = agent_pending d \<Longrightarrow> rows_live rows d' = rows_live rows d"
  by (simp add: rows_live_def)

lemma group_rows_live: "rows_live (group_rows Q k d) d"
  unfolding rows_live_def group_rows_def by (auto dest!: in_set_takeD)

text \<open>What a reservation yields: an unclosed workstream of the table.\<close>

lemma find_workstream_Some:
  assumes "find_workstream d ctx tid g src = Some w"
  shows "w \<in> set (agent_workstreams d) \<and> w_status w \<noteq> Closed"
proof -
  let ?rows = "filter (ws_serves ctx tid g src) (agent_workstreams d)"
  obtain xs where "sort_key (\<lambda>w. - w_opened_at w) ?rows = w # xs"
    using assms by (auto simp: find_workstream_def split: list.splits)
  then have "set (w # xs) = set ?rows" by (metis set_sort)
  then have "w \<in> set ?rows" by auto
  then show ?thesis by (auto simp: ws_serves_def)
qed

lemma reserveE:
  assumes "reserve E Q rule target ctx key s = (r, s')"
  obtains (failed) e w' where "r = Inl e" "s' = s\<lparr>q_world := w'\<rparr>"
  | (full) "r = Inr None" "s' = s"
  | (found) ws where "r = Inr (Some ws)" "s' = s"
      "find_workstream (q_db s) ctx (Some (t_id target)) (r_group_by rule) (gk_source key) = Some ws"
  | (fresh) w' ws where "r = Inr (Some ws)"
      "s' = on_db (\<lambda>d. d\<lparr>agent_workstreams := agent_workstreams d @ [ws]\<rparr>) (s\<lparr>q_world := w'\<rparr>)"
      "active_count (q_db s) < max_active Q" "find_ws (q_db s) (w_handle ws) = None"
      "w_status ws = Opening" "\<not> w_attempted ws"
  using assms
  by (auto simp: reserve_def new_ws_def Let_def split: option.splits if_splits prod.splits)

lemma feed_wsE:
  assumes "feed_ws E Q disp rule target ctx rows ws s = (r, s')"
  obtains (raised) e where "inspect_ws E ws s = (Inl e, s')" "r = Inl e"
  | (postponed) ro s1 x wait where "inspect_ws E ws s = (Inr ro, s1)" "r = Inr ()"
      "s' = postpone E rows x wait s1"
  | (sent) res s1 where "inspect_ws E ws s = (Inr (Some res), s1)" "dr_ok res" "\<not> dr_gone res"
      "m_live (dr_meta res)" "send_batch E disp rule target ctx rows ws s1 = (r, s')"
proof -
  obtain r1 s1 where i: "inspect_ws E ws s = (r1, s1)" by fastforce
  note c = assms[unfolded feed_ws_def i Let_def prod.case]
  show ?thesis
  proof (cases r1)
    case (Inl e) then show ?thesis using c i by (intro raised) auto
  next
    case (Inr ro)
    show ?thesis
    proof (cases ro)
      case None then show ?thesis using c i Inr by (intro postponed) auto
    next
      case (Some res)
      note c' = c[unfolded Inr Some sum.case option.case]
      show ?thesis using c' i[unfolded Inr Some] by (auto split: if_splits intro: postponed sent)
    qed
  qed
qed

lemma deliverE:
  assumes "deliver E Q first rows s = (r, s')"
  obtains (skip) "s' = s" "r = Inr ()"
  | (postponed) w' x wait where "r = Inr ()" "s' = postpone E rows x wait (s\<lparr>q_world := w'\<rparr>)"
  | (raised) w' e where "r = Inl e" "s' = s\<lparr>q_world := w'\<rparr>"
  | (admitted) w' disp rule target r1 s2 where
      "find_target (q_db s) (p_target_id first) = Some target"
      "find_rule (q_db s) (p_rule_id first) = Some rule"
      "reserve E Q rule target (p_payload first) (p_key first) (s\<lparr>q_world := w'\<rparr>) = (r1, s2)"
      "case r1 of Inl e \<Rightarrow> r = Inl e \<and> s' = s2
       | Inr None \<Rightarrow> r = Inr () \<and> s' = postpone E rows ''waiting for active-workstream capacity'' (poll_interval Q) s2
       | Inr (Some ws) \<Rightarrow>
           (case create_ws E disp rule target (p_payload first) rows ws
                   (on_db (assign_rows rows (w_handle ws)) s2) of
              (Inl e, s3) \<Rightarrow> r = Inl e \<and> s' = s3
            | (Inr None, s3) \<Rightarrow> r = Inr () \<and> s' = s3
            | (Inr (Some ws1), s3) \<Rightarrow>
                feed_ws E Q disp rule target (p_payload first) rows ws1 s3 = (r, s'))"
proof (cases "find_target (q_db s) (p_target_id first)")
  case None then show ?thesis using assms by (intro skip) (auto simp: deliver_def Let_def)
next
  case t: (Some target)
  show ?thesis
  proof (cases "find_rule (q_db s) (p_rule_id first)")
    case None then show ?thesis using assms t by (intro skip) (auto simp: deliver_def Let_def)
  next
    case u: (Some rule)
    let ?ctx = "p_payload first"
    note c = assms[unfolded deliver_def Let_def t u prod.case option.case]
    have same: "s = s\<lparr>q_world := q_world s\<rparr>" by simp
    show ?thesis
    proof (cases "e_registry E (t_type target)")
      case None then show ?thesis using c postponed[of "''dispatcher unavailable''" "seconds 30" "q_world s"] by simp
    next
      case (Some disp)
      show ?thesis
      proof (cases "d_stateful disp")
        case False
        then show ?thesis using c Some postponed[of "''dispatcher unavailable''" "seconds 30" "q_world s"] by simp
      next
        case True
        obtain rp s1 where p: "quietly (d_prepare disp
              (?ctx\<lparr>fc_rule := rule_of_row rule, fc_owner_user := or_else (r_owner_user rule) []\<rparr>)
              (target_of_row target)) s = (rp, s1)" by fastforce
        then obtain w' where s1: "s1 = s\<lparr>q_world := w'\<rparr>" by (rule quietlyE)
        note c1 = c[unfolded Some p option.case prod.case]
        show ?thesis
        proof (cases rp)
          case (Inl e) then show ?thesis using c1 True s1 by (intro raised) auto
        next
          case (Inr current)
          obtain r1 s2 where r: "reserve E Q rule target ?ctx (p_key first) s1 = (r1, s2)" by fastforce
          note c2 = c1[unfolded Inr r sum.case prod.case]
          show ?thesis
          proof (cases "fc_owner_user current \<noteq> fc_owner_user ?ctx
                       \<or> ri_project_id (fc_rule current) \<noteq> ri_project_id (fc_rule ?ctx)")
            case stop: True
            then show ?thesis using c2 True s1 by (intro postponed) auto
          next
            case go: False
            have "case r1 of Inl e \<Rightarrow> r = Inl e \<and> s' = s2
              | Inr None \<Rightarrow> r = Inr () \<and> s' = postpone E rows ''waiting for active-workstream capacity'' (poll_interval Q) s2
              | Inr (Some ws) \<Rightarrow>
                (case create_ws E disp rule target ?ctx rows ws
                   (on_db (assign_rows rows (w_handle ws)) s2) of
                  (Inl e, s3) \<Rightarrow> r = Inl e \<and> s' = s3
                | (Inr None, s3) \<Rightarrow> r = Inr () \<and> s' = s3
                | (Inr (Some ws1), s3) \<Rightarrow> feed_ws E Q disp rule target ?ctx rows ws1 s3 = (r, s'))"
              using c2 True go by (auto split: sum.splits option.splits prod.splits)
            with t u r[unfolded s1] show ?thesis by (rule admitted)
          qed
        qed
      qed
    qed
  qed
qed

section \<open>What an invariant has to survive\<close>

locale queue_invariant =
  fixes Q :: queue_config and I :: "'w qstate \<Rightarrow> bool"
  assumes distinct_handles: "I s \<Longrightarrow> distinct (handles (q_db s))"
    and world: "I s \<Longrightarrow> I (s\<lparr>q_world := w\<rparr>)"
    and looked: "I s \<Longrightarrow> I (s\<lparr>q_world := w, q_calls := q_calls s @ [(Call_Inspect h r, q_db s)]\<rparr>)"
    and fed: "I s \<Longrightarrow> I (s\<lparr>q_world := w, q_calls := q_calls s @ [(Call_Feed h ids r, q_db s)]\<rparr>)"
    and lifecycle: "I s \<Longrightarrow> unclosed (q_db s) (w_handle ws) \<Longrightarrow> w_status ws \<noteq> Closed \<Longrightarrow> q_calls s \<noteq> []
      \<Longrightarrow> last (q_calls s) = (Call_Inspect (w_handle ws) (Inr res), q_db s) \<Longrightarrow>
      I (on_db (record_lifecycle (E :: 'w env) t ws owner res) s)"
    and unknown: "I s \<Longrightarrow> I (on_db (mark_unknown t h err) s)"
    and cancelled: "I s \<Longrightarrow> I (on_db cancel_unbound s)"
    and postponed: "I s \<Longrightarrow> I (on_db (defer_rows t rows x wait) s)"
    and reserved: "I s \<Longrightarrow> active_count (q_db s) < max_active Q \<Longrightarrow> find_ws (q_db s) (w_handle ws) = None
      \<Longrightarrow> w_status ws = Opening \<Longrightarrow> \<not> w_attempted ws \<Longrightarrow>
      I (on_db (\<lambda>d. d\<lparr>agent_workstreams := agent_workstreams d @ [ws]\<rparr>) s)"
    and assigned: "I s \<Longrightarrow> I (on_db (assign_rows rows h) s)"
    and opened: "I s \<Longrightarrow> ws \<in> set (agent_workstreams (q_db s)) \<Longrightarrow> w_status ws = Opening \<Longrightarrow> \<not> w_attempted ws
      \<Longrightarrow> s1 = on_db (set_ws (w_handle ws) (\<lambda>w. w\<lparr>w_attempted := True, w_status := Uncertain\<rparr>)) s
      \<Longrightarrow> I (s1\<lparr>q_world := w, q_calls := q_calls s1 @ [(Call_Open (w_handle ws) r, q_db s1)]\<rparr>)"
    and audited: "I s \<Longrightarrow> I (on_db (add_audit a x y z) s)"
    and refused: "I s \<Longrightarrow> unclosed (q_db s) h \<Longrightarrow> q_calls s \<noteq> []
      \<Longrightarrow> fst (last (q_calls s)) = Call_Open h (Inr res) \<Longrightarrow> \<not> dr_ok res \<Longrightarrow> m_retry_create (dr_meta res)
      \<Longrightarrow> I (on_db (set_ws h (\<lambda>w. w\<lparr>w_attempted := False, w_status := Opening\<rparr>)) s)"
    and confirmed: "I s \<Longrightarrow> unclosed (q_db s) h \<Longrightarrow> I (on_db (set_ws h (\<lambda>w. w\<lparr>w_status := Open\<rparr>)) s)"
    and delivered: "I s \<Longrightarrow> rows_live batch (q_db s) \<Longrightarrow> q_calls s \<noteq> []
      \<Longrightarrow> last (q_calls s) = (Call_Feed (w_handle ws) (map p_event_id batch) (Inr res), q_db s) \<Longrightarrow> dr_ok res \<Longrightarrow>
      I (on_db (record_delivery t rule target ws batch res) s)"
begin

lemma quietly_kept: "I s \<Longrightarrow> quietly f s = (r, s') \<Longrightarrow> I s'"
  by (auto simp: quietly_def world split: prod.splits)

lemma postpone_kept: "I s \<Longrightarrow> I (postpone E rows x wait s)"
  by (simp add: postpone_def postponed)

lemma inspect_kept:
  assumes I: "I s" and un: "unclosed (q_db s) (w_handle ws)" and st: "w_status ws \<noteq> Closed"
    and "inspect_ws E ws s = (r, s')"
  shows "I s'"
  using assms(4)
proof (cases rule: inspect_wsE)
  case (seen res owner t w')
  let ?s = "s\<lparr>q_world := w', q_calls := q_calls s @ [(Call_Inspect (w_handle ws) (Inr res), q_db s)]\<rparr>"
  have "I ?s" using I by (rule looked)
  then show ?thesis unfolding seen(2) by (rule lifecycle) (use un st in simp_all)
next
  case (raised e w')
  show ?thesis unfolding raised(2) using I by (rule looked)
qed (use I in \<open>auto intro: world\<close>)

lemma check_one_kept:
  assumes "I s" "unclosed (q_db s) (w_handle ws)" "w_status ws \<noteq> Closed"
  shows "I (check_one E ws s)"
proof -
  obtain r s1 where e: "inspect_ws E ws s = (r, s1)" by fastforce
  then have "I s1" using assms inspect_kept by blast
  then show ?thesis using e assms(1) by (cases r) (auto simp: check_one_def unknown)
qed

lemma check_one_other:
  assumes "h \<noteq> w_handle ws" "unclosed (q_db s) h"
  shows "unclosed (q_db (check_one E ws s)) h"
proof -
  obtain r s1 where e: "inspect_ws E ws s = (r, s1)" by fastforce
  then have un: "unclosed (q_db s1) h"
  proof (cases rule: inspect_wsE)
    case seen then show ?thesis using assms by (simp add: unclosed_lifecycle_other)
  qed (use assms in auto)
  then show ?thesis using e assms
    by (cases r) (auto simp: check_one_def mark_unknown_def intro!: unclosed_set_ws_other)
qed

lemma checks_kept:
  assumes "I s" "distinct (map w_handle wss)" "\<forall>ws \<in> set wss. w_status ws \<noteq> Closed"
    "\<forall>ws \<in> set wss. unclosed (q_db s) (w_handle ws)"
  shows "I (fold (check_one E) wss s)"
  using assms
proof (induction wss arbitrary: s)
  case (Cons ws wss)
  have "\<forall>v \<in> set wss. unclosed (q_db (check_one E ws s)) (w_handle v)"
  proof
    fix v assume v: "v \<in> set wss"
    have "w_handle v \<noteq> w_handle ws" using v Cons.prems(2) by (metis distinct.simps(2) image_eqI list.simps(9) set_map)
    then show "unclosed (q_db (check_one E ws s)) (w_handle v)"
      using v Cons.prems(4) by (intro check_one_other) auto
  qed
  then show ?case using Cons by (auto intro: check_one_kept)
qed simp

text \<open>After a reservation the workstream is a live row of the table.\<close>

definition holds_ws :: "'w qstate \<Rightarrow> ws_row \<Rightarrow> bool" where
  "holds_ws s ws = (ws \<in> set (agent_workstreams (q_db s)) \<and> w_status ws \<noteq> Closed)"

lemma reserve_kept:
  assumes I: "I s" and "reserve E Q rule target ctx key s = (r, s')"
  shows "I s' \<and> agent_pending (q_db s') = agent_pending (q_db s)
    \<and> (\<forall>ws. r = Inr (Some ws) \<longrightarrow> holds_ws s' ws)"
  using assms(2)
proof (cases rule: reserveE)
  case (fresh w' ws)
  let ?s = "s\<lparr>q_world := w'\<rparr>"
  have "I ?s" using I by (rule world)
  then have "I s'" unfolding fresh(2) by (rule reserved) (use fresh in simp_all)
  then show ?thesis using fresh by (simp add: holds_ws_def)
next
  case found
  then show ?thesis using I by (auto simp: holds_ws_def dest: find_workstream_Some)
qed (use I in \<open>auto intro: world\<close>)

lemma create_kept:
  assumes I: "I s" and ws: "holds_ws s ws"
    and c: "create_ws E disp rule target ctx rows ws s = (r, s')"
  shows "I s' \<and> (\<forall>ws'. r = Inr (Some ws') \<longrightarrow>
      agent_pending (q_db s') = agent_pending (q_db s) \<and> w_handle ws' = w_handle ws
      \<and> w_status ws' \<noteq> Closed \<and> unclosed (q_db s') (w_handle ws))"
proof (cases "w_status ws = Opening \<and> \<not> w_attempted ws")
  case False
  moreover have "unclosed (q_db s) (w_handle ws)"
    using distinct_handles[OF I] ws by (auto simp: holds_ws_def intro: unclosedI)
  ultimately show ?thesis using I ws c by (auto simp: create_ws_def holds_ws_def)
next
  case True
  define h where "h = w_handle ws"
  define s1 where "s1 = on_db (set_ws h (\<lambda>w. w\<lparr>w_attempted := True, w_status := Uncertain\<rparr>)) s"
  obtain r1 s2 where p: "perform (Call_Open h) (d_open disp (ctx\<lparr>fc_request_id := h\<rparr>) (target_of_row target)) s1 = (r1, s2)"
    by fastforce
  from p obtain w' where s2: "s2 = s1\<lparr>q_world := w', q_calls := q_calls s1 @ [(Call_Open h r1, q_db s1)]\<rparr>"
    by (rule performE)
  have I2: "I s2" unfolding s2 h_def
    by (rule opened[OF I]) (use ws True in \<open>auto simp: holds_ws_def s1_def h_def\<close>)
  have un2: "unclosed (q_db s2) h" unfolding s2 s1_def by (auto intro!: unclosed_set_ws)
  note c' = c[unfolded create_ws_def Let_def, folded h_def, folded s1_def, unfolded p]
  show ?thesis
  proof (cases r1)
    case (Inl e) then show ?thesis using c' True I2 by auto
  next
    case (Inr res)
    define s3 where "s3 = on_db (add_audit ''collector'' ''agent_create''
                     [(''rule_id'', PInt (r_id rule)), (''target_id'', PInt (t_id target)),
                      (''reserved_handle'', PStr h), (''returned_handle'', PStr (dr_handle res)),
                      (''ok'', PBool (dr_ok res)), (''detail'', PStr (take 300 (dr_detail res)))] True) s2"
    have I3: "I s3" unfolding s3_def using I2 by (rule audited)
    have un3: "unclosed (q_db s3) h"
      using un2 unclosed_agent_workstreams[of "q_db s3" "q_db s2"] by (simp add: s3_def)
    have calls: "q_calls s3 \<noteq> []" "fst (last (q_calls s3)) = Call_Open h (Inr res)"
      using Inr by (simp_all add: s3_def s2)
    note c3 = c'[unfolded Inr prod.case sum.case, folded s3_def]
    have refused': "\<not> dr_ok res \<Longrightarrow> m_retry_create (dr_meta res)
        \<Longrightarrow> I (on_db (set_ws h (\<lambda>w. w\<lparr>w_attempted := False, w_status := Opening\<rparr>)) s3)"
      using I3 un3 calls by (rule refused)
    have confirmed': "I (on_db (set_ws h (\<lambda>w. w\<lparr>w_status := Open\<rparr>)) s3)"
      using I3 un3 by (rule confirmed)
    have pend: "agent_pending (q_db s3) = agent_pending (q_db s)"
      by (simp add: s3_def s2 s1_def)
    have un4: "unclosed (set_ws h (\<lambda>w. w\<lparr>w_status := Open\<rparr>) (q_db s3)) h"
      by (rule unclosed_set_ws) simp_all
    consider (no) "\<not> dr_ok res" | (other) "dr_ok res" "dr_handle res \<noteq> h" | (yes) "dr_ok res" "dr_handle res = h"
      by blast
    then show ?thesis
    proof cases
      case no then show ?thesis using c3 True by (auto split: if_splits intro!: postpone_kept I3 refused')
    next
      case other then show ?thesis using c3 True by (auto intro!: postpone_kept I3)
    next
      case yes
      then have "r = Inr (Some (ws\<lparr>w_status := Open\<rparr>))" "s' = on_db (set_ws h (\<lambda>w. w\<lparr>w_status := Open\<rparr>)) s3"
        using c3 True by simp_all
      then show ?thesis using confirmed' un4 by (simp add: pend h_def)
    qed
  qed
qed

lemma send_kept:
  assumes I: "I s" and live: "rows_live rows (q_db s)"
    and c: "send_batch E disp rule target ctx rows ws s = (r, s')"
  shows "I s'"
proof -
  define batch where "batch = cut_batch 0 False rows"
  define ctx1 where "ctx1 = ctx\<lparr>fc_follow_up := batch_message (w_seeded ws) (fc_seed ctx) batch,
                      fc_delivery_id := delivery_id batch\<rparr>"
  note c' = c[unfolded send_batch_def Let_def, folded batch_def, folded ctx1_def]
  obtain r1 s1 where p: "perform (Call_Feed (w_handle ws) (map p_event_id batch))
                (d_feed disp ctx1 (target_of_row target) (w_handle ws)) s = (r1, s1)"
    by fastforce
  then obtain w' where s1: "s1 = s\<lparr>q_world := w', q_calls := q_calls s
      @ [(Call_Feed (w_handle ws) (map p_event_id batch) r1, q_db s)]\<rparr>" "q_db s1 = q_db s" by (rule performE)
  have I1: "I s1" unfolding s1(1) using I by (rule fed)
  have live1: "rows_live batch (q_db s1)"
    using live unfolding s1(2) batch_def by (rule rows_live_mono[OF cut_batch_subset])
  show ?thesis
  proof (cases r1)
    case (Inl e) then show ?thesis using c' p I1 by simp
  next
    case (Inr res)
    have calls: "q_calls s1 \<noteq> []"
      "last (q_calls s1) = (Call_Feed (w_handle ws) (map p_event_id batch) (Inr res), q_db s1)"
      using s1 Inr by simp_all
    show ?thesis using c' p Inr
      by (cases "dr_ok res") (auto intro!: postpone_kept I1 delivered[OF I1 live1 calls])
  qed
qed

lemma feed_kept:
  assumes I: "I s" and un: "unclosed (q_db s) (w_handle ws)" and st: "w_status ws \<noteq> Closed"
    and live: "rows_live rows (q_db s)"
    and c: "feed_ws E Q disp rule target ctx rows ws s = (r, s')"
  shows "I s'"
  using c
proof (cases rule: feed_wsE)
  case (raised e) then show ?thesis using inspect_kept[OF I un st] by blast
next
  case (postponed ro s1 x wait)
  then show ?thesis using inspect_kept[OF I un st] by (auto intro: postpone_kept)
next
  case (sent res s1)
  have "agent_pending (q_db s1) = agent_pending (q_db s)"
    using sent(1)
  proof (cases rule: inspect_wsE)
    case (seen res' owner t w')
    then show ?thesis using st sent(3) by (simp add: lifecycle_pending next_status_not_gone)
  qed simp_all
  then have "rows_live rows (q_db s1)" using live by (rule rows_live_pending[THEN iffD2])
  with inspect_kept[OF I un st sent(1)] show ?thesis using sent(5) by (rule send_kept)
qed

lemma deliver_kept:
  assumes I: "I s" and live: "rows_live rows (q_db s)" and c: "deliver E Q first rows s = (r, s')"
  shows "I s'"
  using c
proof (cases rule: deliverE)
  case (admitted w' disp rule target r1 s2)
  have "I (s\<lparr>q_world := w'\<rparr>)" using I by (rule world)
  from reserve_kept[OF this admitted(3)]
  have s2: "I s2" "agent_pending (q_db s2) = agent_pending (q_db s)"
    "\<And>ws. r1 = Inr (Some ws) \<Longrightarrow> holds_ws s2 ws" by simp_all
  show ?thesis
  proof (cases r1)
    case (Inl e) then show ?thesis using admitted(4) s2 by simp
  next
    case (Inr o1)
    show ?thesis
    proof (cases o1)
      case None then show ?thesis using admitted(4) Inr s2 by (auto intro: postpone_kept)
    next
      case (Some ws)
      define s2' where "s2' = on_db (assign_rows rows (w_handle ws)) s2"
      have I2: "I s2'" unfolding s2'_def using s2(1) by (rule assigned)
      have h2: "holds_ws s2' ws" using s2(3) Inr Some by (simp add: s2'_def holds_ws_def)
      have live2: "rows_live rows (q_db s2')"
        unfolding s2'_def on_db_sel
        by (rule rows_live_ids[OF assign_rows_ids, THEN iffD2], rule rows_live_pending[THEN iffD2, OF s2(2)], rule live)
      obtain r3 s3 where cr: "create_ws E disp rule target (p_payload first) rows ws s2' = (r3, s3)" by fastforce
      note k = create_kept[OF I2 h2 cr]
      note rest = admitted(4)[unfolded Inr Some sum.case option.case, folded s2'_def, unfolded cr prod.case]
      show ?thesis
      proof (cases "\<exists>ws'. r3 = Inr (Some ws')")
        case True
        then obtain ws' where r3: "r3 = Inr (Some ws')" by blast
        then have "agent_pending (q_db s3) = agent_pending (q_db s2')" using k by simp
        then have "rows_live rows (q_db s3)" using live2 by (rule rows_live_pending[THEN iffD2])
        moreover have "I s3" "unclosed (q_db s3) (w_handle ws')" "w_status ws' \<noteq> Closed" using k r3 by simp_all
        moreover have "feed_ws E Q disp rule target (p_payload first) rows ws' s3 = (r, s')"
          using rest r3 by simp
        ultimately show ?thesis by (blast intro: feed_kept)
      next
        case False
        then have "s' = s3" using rest by (auto split: sum.splits option.splits)
        then show ?thesis using k by simp
      qed
    qed
  qed
qed (use I in \<open>auto intro: postpone_kept world\<close>)

lemma deliver_group_kept:
  assumes I: "I s" shows "I (deliver_group E Q k s)"
proof (cases "group_rows Q k (q_db s)")
  case Nil then show ?thesis using I by (simp add: deliver_group_def)
next
  case (Cons first rest)
  obtain r s1 where d: "deliver E Q first (first # rest) s = (r, s1)" by fastforce
  have "rows_live (first # rest) (q_db s)" using group_rows_live[of Q k "q_db s"] Cons by simp
  then have "I s1" using I d deliver_kept by blast
  then show ?thesis using Cons d I by (cases r) (simp_all add: deliver_group_def postpone_kept)
qed

lemma groups_kept: "I s \<Longrightarrow> I (fold (deliver_group E Q) ks s)"
  by (induction ks arbitrary: s) (simp_all add: deliver_group_kept)

lemma tick_kept:
  assumes I: "I s" shows "I (tick E Q locked s)"
proof -
  let ?due = "due_for_check (now E s) (q_db s)"
  have "\<forall>ws \<in> set ?due. unclosed (q_db s) (w_handle ws)"
    using distinct_handles[OF I] by (blast dest: due_for_check_unclosed intro: unclosedI)
  moreover have "\<forall>ws \<in> set ?due. w_status ws \<noteq> Closed" by (blast dest: due_for_check_unclosed)
  ultimately have "I (fold (check_one E) ?due s)"
    using I due_for_check_distinct[OF distinct_handles[OF I]] by (intro checks_kept)
  then show ?thesis using I
    by (simp add: tick_def tick_locked_def Let_def groups_kept cancelled)
qed

end

end
