(* ===== verification/Agent_Queue_Safety.thy ===== *)
theory Agent_Queue_Safety
  imports Agent_Queue_Inv
begin

text \<open>
  The three invariants of the queue: the cap on unclosed workstreams, the log of creations, and
  the outbox, each an interpretation of \<^theory_text>\<open>queue_invariant\<close>; the step relation of the
  whole system, with the other transactions that write the same tables between ticks; and the
  behaviour of the single operations.
\<close>

section \<open>The admission cap\<close>

definition capped :: "queue_config \<Rightarrow> 'w qstate \<Rightarrow> bool" where
  "capped Q s = (distinct (handles (q_db s)) \<and> active_count (q_db s) \<le> max 0 (max_active Q)
     \<and> (\<forall>(c, d) \<in> set (q_calls s). active_count d \<le> max 0 (max_active Q)))"

lemma handles_set_ws: "(\<And>w. w_handle (f w) = w_handle w) \<Longrightarrow> handles (set_ws h f d) = handles d"
  by (simp add: handles_def map_update_where_id)

lemma handles_lifecycle [simp]: "handles (record_lifecycle E t ws owner res d) = handles d"
  unfolding record_lifecycle_def Let_def by (simp add: handles_def map_update_where_id)

lemma handles_frame [simp]:
  "handles (mark_unknown t h err d) = handles d" "handles (cancel_unbound d) = handles d"
  "handles (defer_rows t rows x wait d) = handles d" "handles (assign_rows rows h d) = handles d"
  "handles (add_audit a x y z d) = handles d"
  "handles (record_delivery t rule target ws batch res d) = handles d"
  by (simp_all add: handles_def mark_unknown_def cancel_unbound_def record_delivery_def Let_def
      map_update_where_id)

lemma active_count_frame:
  "agent_workstreams d' = agent_workstreams d \<Longrightarrow> active_count d' = active_count d"
  by (simp add: active_count_def)

lemma active_count_others [simp]:
  "active_count (cancel_unbound d) = active_count d" "active_count (defer_rows t rows x wait d) = active_count d"
  "active_count (assign_rows rows h d) = active_count d" "active_count (add_audit a x y z d) = active_count d"
  by (simp_all add: active_count_def cancel_unbound_def Let_def)

lemma active_count_set_ws_le:
  assumes "unclosed d h"
  shows "active_count (set_ws h f d) \<le> active_count d"
  using assms by (auto simp: active_count_def unclosed_def intro!: length_filter_update_le)

lemma active_count_same_status:
  "(\<And>w. w_status (f w) = w_status w) \<Longrightarrow> active_count (set_ws h f d) = active_count d"
  unfolding active_count_def set_ws_frame
  by (simp add: keyed_update.filter_key_kept[where key = w_status and q = "\<lambda>s. s \<noteq> Closed"] keyed_update_def)

lemma active_count_lifecycle_le:
  assumes "unclosed d (w_handle ws)"
  shows "active_count (record_lifecycle E t ws owner res d) \<le> active_count d"
proof -
  have close: "active_count (close_ws (w_handle ws) c e) = active_count e" for c e
    using active_count_same_status[of "\<lambda>w. w\<lparr>w_closed_at := Some c\<rparr>" "w_handle ws" e]
    by (simp add: active_count_def)
  show ?thesis unfolding record_lifecycle_def Let_def
    by (simp only: close active_count_set_ws_le[OF assms] split: if_split) simp
qed

lemma capped_on_db:
  assumes "capped Q s" "handles (f (q_db s)) = handles (q_db s)" "active_count (f (q_db s)) \<le> active_count (q_db s)"
  shows "capped Q (on_db f s)"
  using assms by (auto simp: capped_def)

lemma capped_call:
  assumes "capped Q s"
  shows "capped Q (s\<lparr>q_world := w, q_calls := q_calls s @ [(c, q_db s)]\<rparr>)"
  using assms by (auto simp: capped_def)

interpretation cap: queue_invariant Q "capped Q" for Q
proof
  fix s :: "'w qstate"
  show "capped Q s \<Longrightarrow> distinct (handles (q_db s))" by (simp add: capped_def)
  show "capped Q (s\<lparr>q_world := w\<rparr>)" if "capped Q s" for w using that by (simp add: capped_def)
  show "capped Q (s\<lparr>q_world := w, q_calls := q_calls s @ [(Call_Inspect h r, q_db s)]\<rparr>)"
    if "capped Q s" for w h r using that by (rule capped_call)
  show "capped Q (s\<lparr>q_world := w, q_calls := q_calls s @ [(Call_Feed h ids r, q_db s)]\<rparr>)"
    if "capped Q s" for w h ids r using that by (rule capped_call)
  show "capped Q (on_db (record_lifecycle E t ws owner res) s)"
    if "capped Q s" "unclosed (q_db s) (w_handle ws)" for E :: "'w env" and t ws owner res
    using that by (intro capped_on_db) (simp_all add: active_count_lifecycle_le)
  show "capped Q (on_db (mark_unknown t h err) s)" if "capped Q s" for t h err
    using that by (intro capped_on_db) (simp_all add: mark_unknown_def active_count_same_status handles_set_ws)
  show "capped Q (on_db cancel_unbound s)" if "capped Q s"
    by (rule capped_on_db[OF that]) (simp_all only: handles_frame active_count_others order_refl)
  show "capped Q (on_db (defer_rows t rows x wait) s)" if "capped Q s" for t rows x wait
    using that by (intro capped_on_db) simp_all
  show "capped Q (on_db (assign_rows rows h) s)" if "capped Q s" for rows h
    using that by (intro capped_on_db) simp_all
  show "capped Q (on_db (add_audit a x y z) s)" if "capped Q s" for a x y z
    using that by (intro capped_on_db) simp_all
  show "capped Q (on_db (\<lambda>d. d\<lparr>agent_workstreams := agent_workstreams d @ [ws]\<rparr>) s)"
    if "capped Q s" "active_count (q_db s) < max_active Q" "find_ws (q_db s) (w_handle ws) = None" for ws
    using that by (auto simp: capped_def handles_def active_count_def find_ws_def find_row_None_iff)
  show "capped Q (s1\<lparr>q_world := w, q_calls := q_calls s1 @ [(Call_Open (w_handle ws) r, q_db s1)]\<rparr>)"
    if "capped Q s" "ws \<in> set (agent_workstreams (q_db s))" "w_status ws = Opening"
      "s1 = on_db (set_ws (w_handle ws) (\<lambda>w. w\<lparr>w_attempted := True, w_status := Uncertain\<rparr>)) s" for ws s1 w r
  proof -
    have "unclosed (q_db s) (w_handle ws)"
      using that by (intro unclosedI) (simp_all add: capped_def)
    then have "capped Q s1" unfolding that(4) using that(1)
      by (intro capped_on_db) (simp_all add: active_count_set_ws_le handles_set_ws)
    then show ?thesis by (rule capped_call)
  qed
  show "capped Q (on_db (set_ws h (\<lambda>w. w\<lparr>w_attempted := False, w_status := Opening\<rparr>)) s)"
    if "capped Q s" "unclosed (q_db s) h" for h
    using that by (intro capped_on_db) (simp_all add: active_count_set_ws_le handles_set_ws)
  show "capped Q (on_db (set_ws h (\<lambda>w. w\<lparr>w_status := Open\<rparr>)) s)" if "capped Q s" "unclosed (q_db s) h" for h
    using that by (intro capped_on_db) (simp_all add: active_count_set_ws_le handles_set_ws)
  show "capped Q (on_db (record_delivery t rule target ws batch res) s)" if "capped Q s"
    for t rule target ws batch res
  proof -
    have "active_count (record_delivery t rule target ws batch res d) = active_count d" for d
      using active_count_same_status[of "\<lambda>w. w\<lparr>w_seeded := True, w_last_sent_at := Some t,
          w_last_detail := take 300 (dr_detail res)\<rparr>" "w_handle ws" d]
      by (simp add: active_count_def record_delivery_def Let_def)
    then show ?thesis using that by (intro capped_on_db) simp_all
  qed
qed

section \<open>The log of creations\<close>

text \<open>The outcomes of the creation calls made for a handle, in order.\<close>

fun opens :: "string \<Rightarrow> (qcall \<times> db) list \<Rightarrow> (exn + dispatch_result) list" where
  "opens h [] = []"
| "opens h ((Call_Open h' r, d) # cs) = (if h' = h then r # opens h cs else opens h cs)"
| "opens h ((Call_Inspect h' r, d) # cs) = opens h cs"
| "opens h ((Call_Feed h' ids r, d) # cs) = opens h cs"

text \<open>A refusal the dispatcher vouches for: nothing was created.\<close>

fun refusal :: "exn + dispatch_result \<Rightarrow> bool" where
  "refusal (Inl e) = False"
| "refusal (Inr r) = (\<not> dr_ok r \<and> m_retry_create (dr_meta r))"

lemma opens_append [simp]: "opens h (cs @ cs') = opens h cs @ opens h cs'"
  by (induction h cs rule: opens.induct) simp_all

definition reserved_in :: "db \<Rightarrow> string \<Rightarrow> bool" where
  "reserved_in d h = (\<exists>w \<in> set (agent_workstreams d). w_handle w = h \<and> w_attempted w \<and> w_status w = Uncertain)"

fun reserved_call :: "qcall \<times> db \<Rightarrow> bool" where
  "reserved_call (Call_Open h r, d) = reserved_in d h"
| "reserved_call _ = True"

definition creations_ok :: "'w qstate \<Rightarrow> bool" where
  "creations_ok s = (distinct (handles (q_db s))
     \<and> (\<forall>h. opens h (q_calls s) \<noteq> [] \<longrightarrow> h \<in> set (handles (q_db s)))
     \<and> (\<forall>h. \<forall>r \<in> set (butlast (opens h (q_calls s))). refusal r)
     \<and> (\<forall>w \<in> set (agent_workstreams (q_db s)). \<not> w_attempted w \<longrightarrow>
           (\<forall>r \<in> set (opens (w_handle w) (q_calls s)). refusal r))
     \<and> (\<forall>c \<in> set (q_calls s). reserved_call c))"

text \<open>
  A change of the workstreams that keeps the handles and unmarks none but handles whose
  creations were all refused keeps the log in order.
\<close>

definition unmarks_only :: "(string \<Rightarrow> bool) \<Rightarrow> db \<Rightarrow> db \<Rightarrow> bool" where
  "unmarks_only ok d d' = (\<forall>w' \<in> set (agent_workstreams d'). \<not> w_attempted w' \<longrightarrow>
     ok (w_handle w') \<or> (\<exists>w \<in> set (agent_workstreams d). w_handle w = w_handle w' \<and> \<not> w_attempted w))"

lemma unmarks_only_same: "agent_workstreams d' = agent_workstreams d \<Longrightarrow> unmarks_only ok d d'"
  by (auto simp: unmarks_only_def)

lemma unmarks_only_update:
  assumes "\<And>w. w_handle (f w) = w_handle w" "\<And>w. \<not> w_attempted (f w) \<Longrightarrow> \<not> w_attempted w \<or> ok (w_handle w)"
    "agent_workstreams d' = update_where p f (agent_workstreams d)"
  shows "unmarks_only ok d d'"
  unfolding unmarks_only_def assms(3)
  by (auto elim!: in_update_whereE dest: assms(2) simp: assms(1))

lemma unmarks_only_trans:
  "unmarks_only ok d d' \<Longrightarrow> unmarks_only ok d' d'' \<Longrightarrow> unmarks_only ok d d''"
  unfolding unmarks_only_def by metis

lemma creations_on_db:
  assumes "creations_ok s" "handles (f (q_db s)) = handles (q_db s)"
    "unmarks_only (\<lambda>h. \<forall>r \<in> set (opens h (q_calls s)). refusal r) (q_db s) (f (q_db s))"
  shows "creations_ok (on_db f s)"
  using assms unfolding creations_ok_def unmarks_only_def on_db_sel by metis

lemma creations_other_call:
  assumes "creations_ok s" "\<And>h. opens h [(c, d)] = []" "reserved_call (c, d)"
  shows "creations_ok (s\<lparr>q_world := w, q_calls := q_calls s @ [(c, d)]\<rparr>)"
  using assms by (simp add: creations_ok_def)

lemma unmarks_lifecycle: "unmarks_only ok d (record_lifecycle E t ws owner res d)"
proof -
  let ?f = "\<lambda>w. w\<lparr>w_status := next_status (w_status ws) res, w_checked_at := Some t,
                        w_last_state := (if dr_ok res then m_state (dr_meta res) else Some ''unknown''),
                        w_last_detail := take 300 (dr_detail res), w_owner_user := owner,
                        w_project_id := (case m_project_id (dr_meta res) of None \<Rightarrow> w_project_id ws | Some p \<Rightarrow> p)\<rparr>"
  have 1: "unmarks_only ok d (set_ws (w_handle ws) ?f d)"
    by (rule unmarks_only_update[where f = ?f]) simp_all
  have 2: "unmarks_only ok e (close_ws h c e)" for h c e
    by (rule unmarks_only_update[where f = "\<lambda>w. w\<lparr>w_closed_at := Some c\<rparr>"]) simp_all
  show ?thesis unfolding record_lifecycle_def Let_def
    using 1 unmarks_only_trans[OF 1 2] by (simp only: split: if_split) blast
qed

lemma unmarks_delivery: "unmarks_only ok d (record_delivery t rule target ws batch res d)"
  by (rule unmarks_only_update[where f = "\<lambda>w. w\<lparr>w_seeded := True, w_last_sent_at := Some t,
        w_last_detail := take 300 (dr_detail res)\<rparr>"]) (simp_all add: record_delivery_def Let_def)

lemma creations_opened:
  assumes c: "creations_ok s" and ws: "ws \<in> set (agent_workstreams (q_db s))" "\<not> w_attempted ws"
    and s1: "s1 = on_db (set_ws (w_handle ws) (\<lambda>w. w\<lparr>w_attempted := True, w_status := Uncertain\<rparr>)) s"
  shows "creations_ok (s1\<lparr>q_world := w, q_calls := q_calls s1 @ [(Call_Open (w_handle ws) r, q_db s1)]\<rparr>)"
proof -
  let ?h = "w_handle ws"
  have hs: "handles (q_db s1) = handles (q_db s)" by (simp add: s1 handles_set_ws)
  have old: "\<forall>r \<in> set (opens ?h (q_calls s)). refusal r" using c ws by (simp add: creations_ok_def)
  have marked: "w_attempted v" if "v \<in> set (agent_workstreams (q_db s1))" "w_handle v = ?h" for v
    using that by (auto simp: s1 elim!: in_update_whereE)
  have keep: "v \<in> set (agent_workstreams (q_db s))" if "v \<in> set (agent_workstreams (q_db s1))" "w_handle v \<noteq> ?h" for v
    using that by (auto simp: s1 elim!: in_update_whereE)
  have res: "reserved_in (q_db s1) ?h"
    unfolding reserved_in_def s1 on_db_sel set_ws_frame set_update_where
    by (rule bexI[of _ "ws\<lparr>w_attempted := True, w_status := Uncertain\<rparr>"]) (use ws in \<open>auto intro: rev_image_eqI\<close>)
  have hin: "?h \<in> set (handles (q_db s))" using ws by (simp add: handles_def)
  have log: "opens h (q_calls s1 @ [(Call_Open ?h r, q_db s1)])
      = (if h = ?h then opens h (q_calls s) @ [r] else opens h (q_calls s))" for h
    by (simp add: s1)
  have calls: "\<forall>c \<in> set (q_calls s1 @ [(Call_Open ?h r, q_db s1)]). reserved_call c"
    using c res by (simp add: creations_ok_def s1)
  show ?thesis unfolding creations_ok_def
  proof (intro conjI)
    show "distinct (handles (q_db (s1\<lparr>q_world := w, q_calls := q_calls s1 @ [(Call_Open ?h r, q_db s1)]\<rparr>)))"
      using c hs by (simp add: creations_ok_def)
  qed (use c hin hs old log marked keep calls in \<open>auto simp: creations_ok_def simp del: opens_append\<close>)
qed

lemma creations_refused:
  assumes c: "creations_ok s" and "q_calls s \<noteq> []" and last: "fst (last (q_calls s)) = Call_Open h (Inr res)"
    and "\<not> dr_ok res" "m_retry_create (dr_meta res)"
  shows "creations_ok (on_db (set_ws h (\<lambda>w. w\<lparr>w_attempted := False, w_status := Opening\<rparr>)) s)"
proof (rule creations_on_db[OF c])
  obtain cs d where cs: "q_calls s = cs @ [(Call_Open h (Inr res), d)]"
    using assms(2) last by (metis append_butlast_last_id prod.collapse)
  have "\<forall>r \<in> set (butlast (opens h (q_calls s))). refusal r" using c by (simp add: creations_ok_def)
  then have all: "\<forall>r \<in> set (opens h (q_calls s)). refusal r" using assms(4,5) by (simp add: cs)
  let ?ok = "\<lambda>h. \<forall>r \<in> set (opens h (q_calls s)). refusal r"
  show "unmarks_only ?ok (q_db s) (set_ws h (\<lambda>w. w\<lparr>w_attempted := False, w_status := Opening\<rparr>) (q_db s))"
    unfolding unmarks_only_def using all by (auto elim!: in_update_whereE)
qed (simp add: handles_set_ws)

interpretation log: queue_invariant Q creations_ok for Q
proof
  fix s :: "'w qstate"
  show "creations_ok s \<Longrightarrow> distinct (handles (q_db s))" by (simp add: creations_ok_def)
  show "creations_ok (s\<lparr>q_world := w\<rparr>)" if "creations_ok s" for w using that by (simp add: creations_ok_def)
  show "creations_ok (s\<lparr>q_world := w, q_calls := q_calls s @ [(Call_Inspect h r, q_db s)]\<rparr>)"
    if "creations_ok s" for w h r using that by (rule creations_other_call) simp_all
  show "creations_ok (s\<lparr>q_world := w, q_calls := q_calls s @ [(Call_Feed h ids r, q_db s)]\<rparr>)"
    if "creations_ok s" for w h ids r using that by (rule creations_other_call) simp_all
  show "creations_ok (on_db (record_lifecycle E t ws owner res) s)" if "creations_ok s"
    for E :: "'w env" and t ws owner res
    using that by (rule creations_on_db) (simp_all only: handles_lifecycle unmarks_lifecycle)
  show "creations_ok (on_db (mark_unknown t h err) s)" if "creations_ok s" for t h err
    using that
  proof (rule creations_on_db)
    show "unmarks_only ok d (mark_unknown t h err d)" for ok d
      unfolding mark_unknown_def by (rule unmarks_only_update[OF _ _ set_ws_frame(9)]) simp_all
  qed simp
  show "creations_ok (on_db cancel_unbound s)" if "creations_ok s"
    using that by (rule creations_on_db) (simp, rule unmarks_only_same, simp add: cancel_unbound_def Let_def)
  show "creations_ok (on_db (defer_rows t rows x wait) s)" if "creations_ok s" for t rows x wait
    using that by (rule creations_on_db) (simp_all add: unmarks_only_same)
  show "creations_ok (on_db (assign_rows rows h) s)" if "creations_ok s" for rows h
    using that by (rule creations_on_db) (simp_all add: unmarks_only_same)
  show "creations_ok (on_db (add_audit a x y z) s)" if "creations_ok s" for a x y z
    using that by (rule creations_on_db) (simp_all add: unmarks_only_same)
  show "creations_ok (on_db (\<lambda>d. d\<lparr>agent_workstreams := agent_workstreams d @ [ws]\<rparr>) s)"
    if c: "creations_ok s" and f: "find_ws (q_db s) (w_handle ws) = None" for ws
  proof -
    have new: "w_handle ws \<notin> set (handles (q_db s))"
      using f by (auto simp: handles_def find_ws_def find_row_None_iff)
    then have "opens (w_handle ws) (q_calls s) = []" using c by (auto simp: creations_ok_def)
    then show ?thesis using c new by (auto simp: creations_ok_def handles_def)
  qed
  show "creations_ok (s1\<lparr>q_world := w, q_calls := q_calls s1 @ [(Call_Open (w_handle ws) r, q_db s1)]\<rparr>)"
    if "creations_ok s" "ws \<in> set (agent_workstreams (q_db s))" "\<not> w_attempted ws"
      "s1 = on_db (set_ws (w_handle ws) (\<lambda>w. w\<lparr>w_attempted := True, w_status := Uncertain\<rparr>)) s" for ws s1 w r
    using that by (rule creations_opened)
  show "creations_ok (on_db (set_ws h (\<lambda>w. w\<lparr>w_attempted := False, w_status := Opening\<rparr>)) s)"
    if "creations_ok s" "q_calls s \<noteq> []" "fst (last (q_calls s)) = Call_Open h (Inr res)"
      "\<not> dr_ok res" "m_retry_create (dr_meta res)" for h res
    using that by (rule creations_refused)
  show "creations_ok (on_db (set_ws h (\<lambda>w. w\<lparr>w_status := Open\<rparr>)) s)" if "creations_ok s" for h
    using that
  proof (rule creations_on_db)
    show "unmarks_only ok d (set_ws h (\<lambda>w. w\<lparr>w_status := Open\<rparr>) d)" for ok d
      by (rule unmarks_only_update[OF _ _ set_ws_frame(9)]) simp_all
  qed (simp add: handles_set_ws)
  show "creations_ok (on_db (record_delivery t rule target ws batch res) s)" if "creations_ok s"
    for t rule target ws batch res
    using that by (rule creations_on_db) (simp_all only: handles_frame unmarks_delivery)
qed

section \<open>The outbox\<close>

text \<open>
  The rows waiting are the history rows still \<open>queued\<close>: every pending row belongs to a
  queued firing of its rule and group, no two share a firing, and no queued firing is left
  without its row.
\<close>

abbreviation pids :: "pending_row \<Rightarrow> id \<times> id" where
  "pids p \<equiv> (p_id p, p_event_id p)"

definition belongs :: "pending_row \<Rightarrow> alert_event_row \<Rightarrow> bool" where
  "belongs p e = (ae_id e = p_event_id p \<and> ae_rule_id e = Some (p_rule_id p) \<and> ae_disposition e = ''queued'')"

definition outbox_sound :: "db \<Rightarrow> bool" where
  "outbox_sound d = (distinct (map p_id (agent_pending d)) \<and> distinct (map p_event_id (agent_pending d))
     \<and> distinct (map ae_id (alert_events d))
     \<and> (\<forall>p \<in> set (agent_pending d). p_id p < next_pending d)
     \<and> (\<forall>e \<in> set (alert_events d). ae_id e < next_alert_event d)
     \<and> (\<forall>p \<in> set (agent_pending d). \<exists>e \<in> set (alert_events d). belongs p e))"

definition outbox_complete :: "db \<Rightarrow> bool" where
  "outbox_complete d = (\<forall>e \<in> set (alert_events d). ae_disposition e = ''queued'' \<longrightarrow>
     ae_id e \<in> p_event_id ` set (agent_pending d))"

definition outbox_ok :: "'w qstate \<Rightarrow> bool" where
  "outbox_ok s = (distinct (handles (q_db s)) \<and> outbox_sound (q_db s) \<and> outbox_complete (q_db s))"

text \<open>A change that touches neither the history nor the identities of the waiting rows.\<close>

definition same_outbox :: "db \<Rightarrow> db \<Rightarrow> bool" where
  "same_outbox d d' = (alert_events d' = alert_events d
     \<and> map (\<lambda>p. (p_id p, p_event_id p, p_rule_id p)) (agent_pending d')
         = map (\<lambda>p. (p_id p, p_event_id p, p_rule_id p)) (agent_pending d)
     \<and> next_pending d' = next_pending d \<and> next_alert_event d' = next_alert_event d)"

lemma map_proj_eq: "map k xs = map k ys \<Longrightarrow> map (g \<circ> k) xs = map (g \<circ> k) ys"
  by (metis map_map)

lemma same_outbox_kept:
  assumes "same_outbox d d'"
  shows "outbox_sound d' = outbox_sound d" "outbox_complete d' = outbox_complete d"
proof -
  let ?k = "\<lambda>p. (p_id p, p_event_id p, p_rule_id p)"
  have k: "map ?k (agent_pending d') = map ?k (agent_pending d)"
    and rest: "alert_events d' = alert_events d" "next_pending d' = next_pending d"
      "next_alert_event d' = next_alert_event d"
    using assms by (simp_all add: same_outbox_def)
  have 1: "map p_id (agent_pending d') = map p_id (agent_pending d)"
    using map_proj_eq[OF k, of fst] by (simp add: comp_def)
  have 2: "map p_event_id (agent_pending d') = map p_event_id (agent_pending d)"
    using map_proj_eq[OF k, of "fst \<circ> snd"] by (simp add: comp_def)
  have im: "?k ` set (agent_pending d') = ?k ` set (agent_pending d)"
    using arg_cong[OF k, of set] by (simp only: set_map)
  have ball: "(\<forall>p \<in> set (agent_pending d'). P (?k p)) = (\<forall>p \<in> set (agent_pending d). P (?k p))" for P
    using arg_cong[OF im, of "\<lambda>A. \<forall>x \<in> A. P x"] by (simp only: ball_simps)
  have 3: "(\<forall>p \<in> set (agent_pending d'). p_id p < n) = (\<forall>p \<in> set (agent_pending d). p_id p < n)" for n
    using ball[of "\<lambda>(i, e, r). i < n"] by simp
  have 4: "(\<forall>p \<in> set (agent_pending d'). \<exists>e \<in> E. belongs p e) = (\<forall>p \<in> set (agent_pending d). \<exists>e \<in> E. belongs p e)" for E
    using ball[of "\<lambda>(i, ev, r). \<exists>e \<in> E. ae_id e = ev \<and> ae_rule_id e = Some r \<and> ae_disposition e = ''queued''"]
    by (simp add: belongs_def)
  have 5: "p_event_id ` set (agent_pending d') = p_event_id ` set (agent_pending d)"
    using arg_cong[OF 2, of set] by (simp only: set_map)
  show "outbox_sound d' = outbox_sound d" by (simp only: outbox_sound_def rest 1 2 3 4)
  show "outbox_complete d' = outbox_complete d" by (simp only: outbox_complete_def rest 5)
qed

text \<open>
  Settling: the rows that satisfy \<open>P\<close> leave the outbox and their firings get a disposition
  other than \<open>queued\<close>. Delivery, closure and cancellation all do this.
\<close>

definition settles :: "(pending_row \<Rightarrow> bool) \<Rightarrow> (alert_event_row \<Rightarrow> alert_event_row) \<Rightarrow> db \<Rightarrow> db \<Rightarrow> bool" where
  "settles P f d d' = (agent_pending d' = delete_where P (agent_pending d)
     \<and> alert_events d' = update_where (\<lambda>e. ae_id e \<in> p_event_id ` {p \<in> set (agent_pending d). P p}) f (alert_events d)
     \<and> next_pending d' = next_pending d \<and> next_alert_event d' = next_alert_event d)"

lemma settles_kept:
  assumes s: "outbox_sound d" and t: "settles P f d d'"
    and f: "\<And>e. ae_id (f e) = ae_id e" "\<And>e. ae_disposition (f e) \<noteq> ''queued''"
  shows "outbox_sound d'" "outbox_complete d \<Longrightarrow> outbox_complete d'"
proof -
  let ?gone = "p_event_id ` {p \<in> set (agent_pending d). P p}"
  have d': "agent_pending d' = delete_where P (agent_pending d)"
    "alert_events d' = update_where (\<lambda>e. ae_id e \<in> ?gone) f (alert_events d)"
    "next_pending d' = next_pending d" "next_alert_event d' = next_alert_event d"
    using t by (simp_all add: settles_def)
  have stays: "p_event_id p \<notin> ?gone" if "p \<in> set (agent_pending d)" "\<not> P p" for p
    using s that by (auto simp: outbox_sound_def distinct_map dest: inj_onD)
  have ids: "map ae_id (alert_events d') = map ae_id (alert_events d)"
    unfolding d' by (rule map_update_where_id) (rule f(1))
  have lt: "\<forall>e \<in> set (alert_events d'). ae_id e < next_alert_event d"
    using s f(1) by (auto simp: d' outbox_sound_def elim!: in_update_whereE)
  have bel: "\<exists>e \<in> set (alert_events d'). belongs p e" if "p \<in> set (agent_pending d')" for p
  proof -
    have p: "p \<in> set (agent_pending d)" "\<not> P p" using that by (simp_all add: d')
    then obtain e where e: "e \<in> set (alert_events d)" "belongs p e" using s by (auto simp: outbox_sound_def)
    then have "ae_id e \<notin> ?gone" using stays[OF p] by (simp add: belongs_def)
    then have "e \<in> set (alert_events d')" using e(1) by (auto simp: d' set_update_where)
    then show ?thesis using e(2) by blast
  qed
  show "outbox_sound d'"
    unfolding outbox_sound_def using s lt bel ids
    by (auto simp: d' outbox_sound_def distinct_map_delete_where)
  show "outbox_complete d'" if c: "outbox_complete d"
    unfolding outbox_complete_def
  proof (intro ballI impI)
    fix e assume e: "e \<in> set (alert_events d')" "ae_disposition e = ''queued''"
    then have "e \<in> set (alert_events d)" "ae_id e \<notin> ?gone" using f(2) by (auto simp: d' elim!: in_update_whereE)
    moreover have "ae_id e \<in> p_event_id ` set (agent_pending d)"
      using calculation(1) e(2) c by (simp add: outbox_complete_def)
    ultimately show "ae_id e \<in> p_event_id ` set (agent_pending d')" by (auto simp: d')
  qed
qed

lemma settles_marked:
  "settles P (\<lambda>e. e\<lparr>ae_disposition := x\<rparr>) d
     (mark_events (map p_event_id (filter P (agent_pending d))) x
        (d\<lparr>agent_workstreams := ws, alert_incidents := ins, agent_pending := delete_where P (agent_pending d)\<rparr>))"
  by (simp add: settles_def)

lemma lifecycle_outbox:
  "same_outbox d (record_lifecycle E t ws owner res d)
   \<or> (\<exists>c. settles (resolved_by (w_handle ws) c) (\<lambda>e. e\<lparr>ae_disposition := ''resolved''\<rparr>) d
           (record_lifecycle E t ws owner res d))"
  by (auto simp: record_lifecycle_def Let_def same_outbox_def settles_def close_ws_def)

lemma cancel_outbox:
  "settles (\<lambda>p. \<not> still_bound d p) (\<lambda>e. e\<lparr>ae_disposition := ''cancelled''\<rparr>) d (cancel_unbound d)"
  by (simp add: settles_def cancel_unbound_def Let_def)

lemma delivery_outbox:
  assumes "outbox_sound d" "rows_live batch d"
  shows "settles (\<lambda>p. p_id p \<in> p_id ` set batch)
     (\<lambda>e. e\<lparr>ae_notified := True, ae_disposition := (if w_seeded ws then ''fed'' else ''opened''),
             ae_sample := dict_merge (ae_sample e)
               [(''handle'', PStr (w_handle ws)), (''disposition'', PStr (if w_seeded ws then ''fed'' else ''opened'')),
                (''send_status'', opt_str (m_send_status (dr_meta res))), (''delivery_id'', PStr (delivery_id batch))]\<rparr>)
     d (record_delivery t rule target ws batch res d)"
proof -
  have "p_event_id ` {p \<in> set (agent_pending d). p_id p \<in> p_id ` set batch} = p_event_id ` set batch"
  proof (intro equalityI subsetI)
    fix i assume "i \<in> p_event_id ` {p \<in> set (agent_pending d). p_id p \<in> p_id ` set batch}"
    then obtain p b where p: "p \<in> set (agent_pending d)" "i = p_event_id p" "b \<in> set batch" "p_id p = p_id b"
      by auto
    from p(3) assms(2) obtain q where q: "q \<in> set (agent_pending d)" "pids q = pids b"
      unfolding rows_live_def by (metis (no_types, lifting) image_iff subsetD imageI)
    moreover have inj: "inj_on p_id (set (agent_pending d))" using assms(1) by (simp add: outbox_sound_def distinct_map)
    ultimately have "q = p" using p by (intro inj_onD[OF inj]) simp_all
    then show "i \<in> p_event_id ` set batch" using p q by auto
  next
    fix i assume "i \<in> p_event_id ` set batch"
    then obtain b where b: "b \<in> set batch" "i = p_event_id b" by auto
    with assms(2) obtain q where "q \<in> set (agent_pending d)" "pids q = pids b"
      unfolding rows_live_def by (metis (no_types, lifting) image_iff subsetD imageI)
    then show "i \<in> p_event_id ` {p \<in> set (agent_pending d). p_id p \<in> p_id ` set batch}" using b by (intro image_eqI[of _ _ q]) auto
  qed
  then show ?thesis by (simp add: settles_def record_delivery_def Let_def)
qed

lemma outbox_on_db:
  assumes "outbox_ok s" "handles (f (q_db s)) = handles (q_db s)" "same_outbox (q_db s) (f (q_db s))"
  shows "outbox_ok (on_db f s)"
  using assms same_outbox_kept[OF assms(3)] by (simp add: outbox_ok_def)

lemma outbox_settle:
  assumes "outbox_ok s" "handles (f (q_db s)) = handles (q_db s)" "settles P g (q_db s) (f (q_db s))"
    "\<And>e. ae_id (g e) = ae_id e" "\<And>e. ae_disposition (g e) \<noteq> ''queued''"
  shows "outbox_ok (on_db f s)"
  using assms(1,2) settles_kept[OF _ assms(3-5)] by (simp add: outbox_ok_def)

interpretation outbox: queue_invariant Q outbox_ok for Q
proof
  fix s :: "'w qstate"
  show "outbox_ok s \<Longrightarrow> distinct (handles (q_db s))" by (simp add: outbox_ok_def)
  show "outbox_ok (s\<lparr>q_world := w\<rparr>)" if "outbox_ok s" for w using that by (simp add: outbox_ok_def)
  show "outbox_ok (s\<lparr>q_world := w, q_calls := q_calls s @ [(Call_Inspect h r, q_db s)]\<rparr>)"
    if "outbox_ok s" for w h r using that by (simp add: outbox_ok_def)
  show "outbox_ok (s\<lparr>q_world := w, q_calls := q_calls s @ [(Call_Feed h ids r, q_db s)]\<rparr>)"
    if "outbox_ok s" for w h ids r using that by (simp add: outbox_ok_def)
  show "outbox_ok (on_db (record_lifecycle E t ws owner res) s)" if "outbox_ok s"
    for E :: "'w env" and t ws owner res
    using lifecycle_outbox[of "q_db s" E t ws owner res] that
    by (auto intro: outbox_on_db outbox_settle)
  show "outbox_ok (on_db (mark_unknown t h err) s)" if "outbox_ok s" for t h err
    using that by (rule outbox_on_db) (simp_all add: mark_unknown_def same_outbox_def handles_set_ws)
  show "outbox_ok (on_db cancel_unbound s)" if "outbox_ok s"
    using that handles_frame(2) cancel_outbox by (rule outbox_settle) simp_all
  show "outbox_ok (on_db (defer_rows t rows x wait) s)" if "outbox_ok s" for t rows x wait
    using that
  proof (rule outbox_on_db)
    show "same_outbox (q_db s) (defer_rows t rows x wait (q_db s))"
      unfolding same_outbox_def by (simp del: One_nat_def add: defer_rows_def map_update_where_id)
  qed simp
  show "outbox_ok (on_db (assign_rows rows h) s)" if "outbox_ok s" for rows h
    using that
  proof (rule outbox_on_db)
    show "same_outbox (q_db s) (assign_rows rows h (q_db s))"
      unfolding same_outbox_def by (simp add: assign_rows_def map_update_where_id)
  qed simp
  show "outbox_ok (on_db (add_audit a x y z) s)" if "outbox_ok s" for a x y z
    using that by (rule outbox_on_db) (simp_all add: same_outbox_def)
  show "outbox_ok (on_db (\<lambda>d. d\<lparr>agent_workstreams := agent_workstreams d @ [ws]\<rparr>) s)"
    if "outbox_ok s" "find_ws (q_db s) (w_handle ws) = None" for ws
    using that same_outbox_kept[of "q_db s" "q_db s\<lparr>agent_workstreams := agent_workstreams (q_db s) @ [ws]\<rparr>"]
    by (auto simp: outbox_ok_def same_outbox_def handles_def find_ws_def find_row_None_iff)
  show "outbox_ok (s1\<lparr>q_world := w, q_calls := q_calls s1 @ [(Call_Open (w_handle ws) r, q_db s1)]\<rparr>)"
    if "outbox_ok s" "s1 = on_db (set_ws (w_handle ws) (\<lambda>w. w\<lparr>w_attempted := True, w_status := Uncertain\<rparr>)) s"
    for ws s1 w r
  proof -
    have "outbox_ok s1" unfolding that(2)
      using that(1) by (rule outbox_on_db) (simp_all add: same_outbox_def handles_set_ws)
    then show ?thesis by (simp add: outbox_ok_def)
  qed
  show "outbox_ok (on_db (set_ws h (\<lambda>w. w\<lparr>w_attempted := False, w_status := Opening\<rparr>)) s)" if "outbox_ok s" for h
    using that by (rule outbox_on_db) (simp_all add: same_outbox_def handles_set_ws)
  show "outbox_ok (on_db (set_ws h (\<lambda>w. w\<lparr>w_status := Open\<rparr>)) s)" if "outbox_ok s" for h
    using that by (rule outbox_on_db) (simp_all add: same_outbox_def handles_set_ws)
  show "outbox_ok (on_db (record_delivery t rule target ws batch res) s)"
    if o: "outbox_ok s" and l: "rows_live batch (q_db s)" for t rule target ws batch res
    using o handles_frame(6) delivery_outbox[OF _ l]
    by (rule outbox_settle) (use o in \<open>simp_all add: outbox_ok_def\<close>)
qed

end
