(* ===== verification/Agent_Queue_Claims.thy ===== *)
theory Agent_Queue_Claims
  imports Agent_Queue_Safety
begin

text \<open>
  What the agent queue promises, over every run of the system: the scheduler's ticks, firings
  enqueued between them, and the other transactions that write the tables it shares.
\<close>

section \<open>Runs of the system\<close>

definition edited :: "db \<Rightarrow> db \<Rightarrow> bool" where
  "edited d d' = (agent_workstreams d' = agent_workstreams d \<and> agent_pending d' = agent_pending d
     \<and> alert_events d' = alert_events d \<and> next_pending d' = next_pending d
     \<and> next_alert_event d' = next_alert_event d)"

text \<open>
  One step: time passes or the other end of a dispatcher moves; a firing is enqueued; a tick;
  an edit of rules, targets, bindings or incidents; a firing of a stateless target enters the
  history; a rule is deleted with what the schema cascades.
\<close>

inductive queue_step :: "'w env \<Rightarrow> queue_config \<Rightarrow> 'w qstate \<Rightarrow> 'w qstate \<Rightarrow> bool"
  for E :: "'w env" and Q :: queue_config where
  moved: "queue_step E Q s (s\<lparr>q_world := w\<rparr>)"
| enqueued: "enqueue E ctx target src s = (r, s') \<Longrightarrow> queue_step E Q s s'"
| ticked: "queue_step E Q s (tick E Q locked s)"
| edit: "edited (q_db s) d \<Longrightarrow> queue_step E Q s (s\<lparr>q_db := d\<rparr>)"
| history: "ae_id e = next_alert_event (q_db s) \<Longrightarrow> ae_disposition e \<noteq> ''queued'' \<Longrightarrow>
    queue_step E Q s (on_db (\<lambda>d. d\<lparr>alert_events := alert_events d @ [e],
      next_alert_event := next_alert_event d + 1\<rparr>) s)"
| rule_deleted: "queue_step E Q s (on_db (delete_rule rid) s)"

inductive_cases queue_stepE: "queue_step E Q s t"

text \<open>The same with targets deleted too.\<close>

inductive system_step :: "'w env \<Rightarrow> queue_config \<Rightarrow> 'w qstate \<Rightarrow> 'w qstate \<Rightarrow> bool"
  for E :: "'w env" and Q :: queue_config where
  ordinary: "queue_step E Q s t \<Longrightarrow> system_step E Q s t"
| target_deleted: "system_step E Q s (on_db (delete_target tid) s)"

definition fresh_start :: "'w qstate \<Rightarrow> bool" where
  "fresh_start s = (agent_workstreams (q_db s) = [] \<and> agent_pending (q_db s) = []
     \<and> alert_events (q_db s) = [] \<and> q_calls s = [])"

section \<open>What the other transactions keep\<close>

lemma enqueueE:
  assumes "enqueue E ctx0 target src s = (r, s')"
  obtains (failed) w' where "s' = s\<lparr>q_world := w'\<rparr>"
  | (inserted) w' ctx key current d where "r = Inr ''queued''"
      "insert_firing (now E (s\<lparr>q_world := w'\<rparr>)) ctx target key current (q_db s) = Inr d"
      "s' = s\<lparr>q_world := w', q_db := d\<rparr>"
proof (cases "e_registry E (ti_type target)")
  case None
  then show ?thesis using assms failed[of "q_world s"] by (simp add: enqueue_def)
next
  case (Some disp)
  obtain rp s1 where p: "quietly (d_prepare disp ctx0 target) s = (rp, s1)" by fastforce
  then obtain w' where s1: "s1 = s\<lparr>q_world := w'\<rparr>" by (rule quietlyE)
  show ?thesis using assms[unfolded enqueue_def Some p option.case prod.case]
    by (auto simp: s1 Let_def split: sum.splits intro: failed inserted)
qed

text \<open>The firing \<open>insert_firing\<close> adds, and its outbox row.\<close>

lemma insert_firingE:
  assumes "insert_firing t ctx target key current d = Inr d'"
  obtains rid tid where "ri_id (fc_rule ctx) = Some rid" "ti_id target = Some tid"
    "d' = d\<lparr>alert_events := alert_events d @ [firing_row t ctx rid tid key (next_alert_event d)],
            agent_pending := agent_pending d
              @ [outbox_row t ctx rid tid key current (next_pending d) (next_alert_event d)],
            next_alert_event := next_alert_event d + 1, next_pending := next_pending d + 1\<rparr>"
  using assms unfolding insert_firing_def
  by (auto split: option.splits if_splits)

lemma new_row_belongs: "belongs (outbox_row t ctx rid tid key current n ev) (firing_row t ctx rid tid key ev)"
  by (simp add: belongs_def outbox_row_def firing_row_def)

lemma firing_row_sel [simp]: "ae_id (firing_row t ctx rid tid key n) = n"
  "ae_disposition (firing_row t ctx rid tid key n) = ''queued''"
  by (simp_all add: firing_row_def)

lemma outbox_row_sel [simp]: "p_id (outbox_row t ctx rid tid key current n ev) = n"
  "p_event_id (outbox_row t ctx rid tid key current n ev) = ev"
  by (simp_all add: outbox_row_def)

lemma outbox_sound_fresh:
  assumes "outbox_sound d" shows "next_alert_event d \<notin> p_event_id ` set (agent_pending d)"
  using assms by (force simp: outbox_sound_def belongs_def)

lemma outbox_sound_insert:
  assumes s: "outbox_sound d" and i: "insert_firing t ctx target key current d = Inr d'"
  shows "outbox_sound d'"
  using i
proof (rule insert_firingE)
  fix rid tid
  let ?e = "firing_row t ctx rid tid key (next_alert_event d)"
  let ?p = "outbox_row t ctx rid tid key current (next_pending d) (next_alert_event d)"
  assume d': "d' = d\<lparr>alert_events := alert_events d @ [?e], agent_pending := agent_pending d @ [?p],
            next_alert_event := next_alert_event d + 1, next_pending := next_pending d + 1\<rparr>"
  have "\<forall>p \<in> set (agent_pending d'). \<exists>e \<in> set (alert_events d'). belongs p e"
    using s new_row_belongs by (auto simp: d' outbox_sound_def)
  then show ?thesis using s outbox_sound_fresh[OF s] by (fastforce simp: d' outbox_sound_def)
qed

lemma outbox_complete_insert:
  "insert_firing t ctx target key current d = Inr d' \<Longrightarrow> outbox_complete d \<Longrightarrow> outbox_complete d'"
  by (erule insert_firingE) (auto simp: outbox_complete_def)

lemma handles_insert:
  "insert_firing t ctx target key current d = Inr d' \<Longrightarrow> agent_workstreams d' = agent_workstreams d"
  by (erule insert_firingE) simp

lemma handles_deleted [simp]:
  "handles (delete_rule rid d) = handles d" "handles (delete_target tid d) = handles d"
  by (simp_all add: handles_def delete_rule_def delete_target_def Let_def map_update_where_id)

lemma active_count_deleted [simp]:
  "active_count (delete_rule rid d) = active_count d" "active_count (delete_target tid d) = active_count d"
  unfolding active_count_def delete_rule_def delete_target_def Let_def
  by (simp_all add: keyed_update.filter_key_kept[where key = w_status and q = "\<lambda>s. s \<noteq> Closed"] keyed_update_def)

lemma outbox_rule_deleted:
  assumes s: "outbox_sound d"
  shows "outbox_sound (delete_rule rid d)" "outbox_complete d \<Longrightarrow> outbox_complete (delete_rule rid d)"
proof -
  let ?gone = "\<lambda>p. p_rule_id p = rid \<or> p_event_id p \<in> ae_id ` {e \<in> set (alert_events d). ae_rule_id e = Some rid}"
  have d': "agent_pending (delete_rule rid d) = delete_where ?gone (agent_pending d)"
    "alert_events (delete_rule rid d) = delete_where (\<lambda>e. ae_rule_id e = Some rid) (alert_events d)"
    "next_pending (delete_rule rid d) = next_pending d" "next_alert_event (delete_rule rid d) = next_alert_event d"
    by (simp_all add: delete_rule_def Let_def)
  have "\<exists>e \<in> set (alert_events (delete_rule rid d)). belongs p e"
    if "p \<in> set (agent_pending (delete_rule rid d))" for p
    using s that by (fastforce simp: d' outbox_sound_def belongs_def)
  then show "outbox_sound (delete_rule rid d)"
    using s unfolding outbox_sound_def by (simp add: d' distinct_map_delete_where)
  show "outbox_complete (delete_rule rid d)" if c: "outbox_complete d"
    unfolding outbox_complete_def
  proof (intro ballI impI)
    fix e assume e: "e \<in> set (alert_events (delete_rule rid d))" "ae_disposition e = ''queued''"
    then have e': "e \<in> set (alert_events d)" "ae_rule_id e \<noteq> Some rid" by (simp_all add: d')
    then obtain p where p: "p \<in> set (agent_pending d)" "ae_id e = p_event_id p"
      using c e(2) by (auto simp: outbox_complete_def)
    then obtain f where f: "f \<in> set (alert_events d)" "belongs p f" using s by (auto simp: outbox_sound_def)
    have inj: "inj_on ae_id (set (alert_events d))" using s by (simp add: outbox_sound_def distinct_map)
    have "ae_id f = ae_id e" using f(2) p(2) by (simp add: belongs_def)
    then have "f = e" using f(1) e'(1) by (rule inj_onD[OF inj])
    then have "p_rule_id p \<noteq> rid" using f(2) e'(2) by (simp add: belongs_def)
    moreover have "p_event_id p \<notin> ae_id ` {e \<in> set (alert_events d). ae_rule_id e = Some rid}"
    proof
      assume "p_event_id p \<in> ae_id ` {e \<in> set (alert_events d). ae_rule_id e = Some rid}"
      then obtain g where g: "g \<in> set (alert_events d)" "ae_rule_id g = Some rid" "ae_id g = ae_id e"
        using p(2) by auto
      then have "g = e" using e'(1) by (intro inj_onD[OF inj])
      then show False using g(2) e'(2) by simp
    qed
    ultimately have "\<not> ?gone p" by simp
    then show "ae_id e \<in> p_event_id ` set (agent_pending (delete_rule rid d))" using p by (auto simp: d')
  qed
qed

section \<open>Invariants of every run\<close>

text \<open>
  An invariant of the scheduler that the other transactions keep too holds in every run; if
  the deletion of a target keeps it, also in the runs where targets are deleted.
\<close>

locale run_invariant = queue_invariant Q I for Q and I :: "'w qstate \<Rightarrow> bool" +
  assumes started: "fresh_start s \<Longrightarrow> I s"
    and inserted: "I s \<Longrightarrow> insert_firing t ctx target key current (q_db s) = Inr d \<Longrightarrow> I (s\<lparr>q_db := d\<rparr>)"
    and edited: "I s \<Longrightarrow> edited (q_db s) d \<Longrightarrow> I (s\<lparr>q_db := d\<rparr>)"
    and recorded: "I s \<Longrightarrow> ae_id e = next_alert_event (q_db s) \<Longrightarrow> ae_disposition e \<noteq> ''queued'' \<Longrightarrow>
      I (on_db (\<lambda>d. d\<lparr>alert_events := alert_events d @ [e], next_alert_event := next_alert_event d + 1\<rparr>) s)"
    and rule_gone: "I s \<Longrightarrow> I (on_db (delete_rule rid) s)"
begin

lemma enqueue_kept:
  assumes I: "I s" and "enqueue E ctx target src s = (r, s')" shows "I s'"
  using assms(2)
proof (cases rule: enqueueE)
  case (failed w') then show ?thesis using I by (simp add: world)
next
  case (inserted w' ctx key current d)
  have "I (s\<lparr>q_world := w'\<rparr>)" using I by (rule world)
  then have "I (s\<lparr>q_world := w'\<rparr>\<lparr>q_db := d\<rparr>)"
    by (rule run_invariant.inserted[OF run_invariant_axioms]) (use inserted in simp)
  then show ?thesis using inserted(3) by simp
qed

lemma step_kept: "queue_step E Q s t \<Longrightarrow> I s \<Longrightarrow> I t"
  by (induction rule: queue_step.induct)
     (auto intro: world enqueue_kept tick_kept edited recorded rule_gone)

lemma runs: "reach fresh_start (queue_step E Q) s \<Longrightarrow> I s"
  by (induction rule: reach.induct) (auto intro: started step_kept)

end

locale full_invariant = run_invariant +
  assumes target_gone: "I s \<Longrightarrow> I (on_db (delete_target tid) s)"
begin

lemma system_step_kept: "system_step E Q s t \<Longrightarrow> I s \<Longrightarrow> I t"
  by (induction rule: system_step.induct) (auto intro: step_kept target_gone)

sublocale safe_machine fresh_start "system_step E Q" I for E
  by unfold_locales (auto intro: started system_step_kept)

end

lemma edited_handles:
  "edited d d' \<Longrightarrow> handles d' = handles d" "edited d d' \<Longrightarrow> active_count d' = active_count d"
  by (simp_all add: edited_def handles_def active_count_def)

lemma insert_handles:
  "insert_firing t ctx target key current d = Inr d' \<Longrightarrow> handles d' = handles d"
  "insert_firing t ctx target key current d = Inr d' \<Longrightarrow> active_count d' = active_count d"
  by (simp_all add: handles_insert handles_def active_count_def)

lemma capped_db:
  "capped Q s \<Longrightarrow> handles d = handles (q_db s) \<Longrightarrow> active_count d = active_count (q_db s) \<Longrightarrow> capped Q (s\<lparr>q_db := d\<rparr>)"
  by (simp add: capped_def)

lemma on_db_update: "on_db f s = s\<lparr>q_db := f (q_db s)\<rparr>"
  by (simp add: on_db_def)

interpretation cap_run: full_invariant Q "capped Q" for Q
proof (unfold_locales, goal_cases)
  case 1 then show ?case by (simp add: capped_def fresh_start_def handles_def active_count_def)
next
  case 2 then show ?case by (simp add: capped_db insert_handles)
next
  case 3 then show ?case by (simp add: capped_db edited_handles)
next
  case 4 then show ?case unfolding on_db_update by (simp add: capped_db handles_def active_count_def)
qed (simp_all only: on_db_update capped_db handles_deleted active_count_deleted)

lemma creations_db:
  assumes "creations_ok s" "handles d = handles (q_db s)"
    "unmarks_only (\<lambda>h. \<forall>r \<in> set (opens h (q_calls s)). refusal r) (q_db s) d"
  shows "creations_ok (s\<lparr>q_db := d\<rparr>)"
  using creations_on_db[of s "\<lambda>_. d"] assms by (simp add: on_db_def)

lemma unmarks_deleted:
  "unmarks_only ok d (delete_rule rid d)" "unmarks_only ok d (delete_target tid d)"
  by (rule unmarks_only_update[where f = "\<lambda>w. w\<lparr>w_rule_id := None\<rparr>"]; simp add: delete_rule_def Let_def)
     (rule unmarks_only_update[where f = "\<lambda>w. w\<lparr>w_target_id := None\<rparr>"]; simp add: delete_target_def)

interpretation log_run: full_invariant Q creations_ok for Q
proof (unfold_locales, goal_cases)
  case 1 then show ?case by (simp add: creations_ok_def fresh_start_def handles_def)
next
  case 2 then show ?case by (intro creations_db unmarks_only_same) (simp_all add: insert_handles handles_insert)
next
  case 3 then show ?case by (intro creations_db unmarks_only_same) (simp_all add: edited_handles, simp add: edited_def)
next
  case 4 then show ?case unfolding on_db_update
    by (intro creations_db unmarks_only_same) (simp_all add: handles_def)
qed (intro creations_on_db; simp only: handles_deleted unmarks_deleted)+

interpretation outbox_run: run_invariant Q outbox_ok for Q
proof (unfold_locales, goal_cases)
  case 1 then show ?case
    by (simp add: outbox_ok_def outbox_sound_def outbox_complete_def fresh_start_def handles_def)
next
  case 2 then show ?case
    by (auto simp: outbox_ok_def insert_handles intro: outbox_sound_insert outbox_complete_insert)
next
  case (3 s d)
  then have "same_outbox (q_db s) d" by (simp add: edited_def same_outbox_def)
  from same_outbox_kept[OF this] 3 show ?case by (simp add: outbox_ok_def edited_handles)
next
  case 4 then show ?case by (force simp: outbox_ok_def outbox_sound_def outbox_complete_def handles_def)
next
  case 5 then show ?case by (simp add: outbox_ok_def outbox_rule_deleted)
qed

section \<open>Why a row leaves the outbox\<close>

text \<open>
  Judged by the calls \<open>cs\<close>: a send that carried the firing was accepted; or a check answered
  that the workstream the row was assigned to is gone.
\<close>

definition accepted :: "(qcall \<times> db) list \<Rightarrow> pending_row \<Rightarrow> bool" where
  "accepted cs p = (\<exists>h ids res d. (Call_Feed h ids (Inr res), d) \<in> set cs \<and> dr_ok res \<and> p_event_id p \<in> set ids)"

definition ended :: "(qcall \<times> db) list \<Rightarrow> pending_row \<Rightarrow> bool" where
  "ended cs p = (\<exists>h res d q. (Call_Inspect h (Inr res), d) \<in> set cs \<and> dr_ok res \<and> dr_gone res
     \<and> q \<in> set (agent_pending d) \<and> pids q = pids p \<and> p_assigned q = Some h)"

abbreviation pkey :: "pending_row \<Rightarrow> id \<times> id \<times> id \<times> id" where
  "pkey p \<equiv> (p_id p, p_event_id p, p_rule_id p, p_target_id p)"

text \<open>
  The state after some of a tick that began in \<open>d0\<close> with an empty log: each row waiting
  then still waits, or has left for one of the three reasons, and which rules are enabled and
  bound has not changed.
\<close>

definition accounted :: "db \<Rightarrow> 'w qstate \<Rightarrow> bool" where
  "accounted d0 s = (outbox_ok s
     \<and> rule_targets (q_db s) = rule_targets d0
     \<and> map (\<lambda>r. (r_id r, r_enabled r)) (alert_rules (q_db s)) = map (\<lambda>r. (r_id r, r_enabled r)) (alert_rules d0)
     \<and> (\<forall>p \<in> set (agent_pending d0). pkey p \<in> pkey ` set (agent_pending (q_db s))
          \<or> accepted (q_calls s) p \<or> ended (q_calls s) p \<or> \<not> still_bound d0 p))"

lemma settled_mono:
  "set cs \<subseteq> set cs' \<Longrightarrow> accepted cs p \<Longrightarrow> accepted cs' p" "set cs \<subseteq> set cs' \<Longrightarrow> ended cs p \<Longrightarrow> ended cs' p"
  unfolding accepted_def ended_def by blast+

lemma accounted_log:
  assumes "accounted d0 s" "q_db t = q_db s" "q_calls t = q_calls s @ cs"
  shows "accounted d0 t"
proof -
  have sub: "set (q_calls s) \<subseteq> set (q_calls t)" using assms by (auto simp: accounted_def)
  show ?thesis
    using assms settled_mono[OF sub] unfolding accounted_def outbox_ok_def by (simp only: length_append) fastforce
qed

lemma accounted_db:
  assumes a: "accounted d0 s" and o: "outbox_ok (on_db f s)"
    and k: "rule_targets (f (q_db s)) = rule_targets (q_db s)"
      "map (\<lambda>r. (r_id r, r_enabled r)) (alert_rules (f (q_db s))) = map (\<lambda>r. (r_id r, r_enabled r)) (alert_rules (q_db s))"
    and left: "\<And>q p. q \<in> set (agent_pending (q_db s)) \<Longrightarrow> p \<in> set (agent_pending d0) \<Longrightarrow> pkey q = pkey p
      \<Longrightarrow> pkey q \<in> pkey ` set (agent_pending (f (q_db s)))
        \<or> accepted (q_calls s) p \<or> ended (q_calls s) p \<or> \<not> still_bound d0 p"
  shows "accounted d0 (on_db f s)"
  unfolding accounted_def
proof (intro conjI ballI)
  fix p assume p: "p \<in> set (agent_pending d0)"
  with a consider q where "q \<in> set (agent_pending (q_db s))" "pkey q = pkey p"
    | "accepted (q_calls s) p \<or> ended (q_calls s) p \<or> \<not> still_bound d0 p"
    unfolding accounted_def by (metis (no_types, lifting) imageE)
  then show "pkey p \<in> pkey ` set (agent_pending (q_db (on_db f s)))
          \<or> accepted (q_calls (on_db f s)) p \<or> ended (q_calls (on_db f s)) p \<or> \<not> still_bound d0 p"
  proof cases
    case (1 q) then show ?thesis using left[OF 1(1) p 1(2)] by (simp only: on_db_sel)
  qed simp
qed (use a o k in \<open>simp_all add: accounted_def\<close>)

lemma accounted_pending:
  assumes "accounted d0 s" "outbox_ok (on_db f s)" "rule_targets (f (q_db s)) = rule_targets (q_db s)"
    "alert_rules (f (q_db s)) = alert_rules (q_db s)"
    "map pkey (agent_pending (f (q_db s))) = map pkey (agent_pending (q_db s))"
  shows "accounted d0 (on_db f s)"
proof (rule accounted_db[OF assms(1,2)])
  fix q assume "q \<in> set (agent_pending (q_db s))"
  moreover have "pkey ` set (agent_pending (f (q_db s))) = pkey ` set (agent_pending (q_db s))"
    using arg_cong[OF assms(5), of set] by (simp only: set_map)
  ultimately show "pkey q \<in> pkey ` set (agent_pending (f (q_db s))) \<or> X" for X by blast
qed (use assms in simp_all)

lemma still_bound_same:
  assumes "rule_targets d = rule_targets d0"
    "map (\<lambda>r. (r_id r, r_enabled r)) (alert_rules d) = map (\<lambda>r. (r_id r, r_enabled r)) (alert_rules d0)"
    "p_rule_id q = p_rule_id p" "p_target_id q = p_target_id p"
  shows "still_bound d q = still_bound d0 p"
proof -
  have enabled: "list_ex (\<lambda>r. r_id r = i \<and> r_enabled r) (alert_rules e)
      = ((i, True) \<in> set (map (\<lambda>r. (r_id r, r_enabled r)) (alert_rules e)))" for i e
    by (auto simp: list_ex_iff)
  show ?thesis unfolding still_bound_def enabled using assms by (simp only:)
qed

text \<open>The rows a settlement takes are those that satisfy its predicate.\<close>

lemma accounted_settled:
  assumes a: "accounted d0 s" and o: "outbox_ok (on_db f s)"
    and k: "rule_targets (f (q_db s)) = rule_targets (q_db s)"
      "map (\<lambda>r. (r_id r, r_enabled r)) (alert_rules (f (q_db s))) = map (\<lambda>r. (r_id r, r_enabled r)) (alert_rules (q_db s))"
    and d: "agent_pending (f (q_db s)) = delete_where P (agent_pending (q_db s))"
    and why: "\<And>q p. q \<in> set (agent_pending (q_db s)) \<Longrightarrow> P q \<Longrightarrow> pkey q = pkey p \<Longrightarrow>
      accepted (q_calls s) p \<or> ended (q_calls s) p \<or> \<not> still_bound d0 p"
  shows "accounted d0 (on_db f s)"
proof (rule accounted_db[OF a o k])
  fix q p assume q: "q \<in> set (agent_pending (q_db s))" "pkey q = pkey p"
  show "pkey q \<in> pkey ` set (agent_pending (f (q_db s)))
        \<or> accepted (q_calls s) p \<or> ended (q_calls s) p \<or> \<not> still_bound d0 p"
  proof (cases "P q")
    case True then show ?thesis using why q by blast
  next
    case False then show ?thesis using q(1) by (auto simp: d)
  qed
qed

lemma lifecycle_effect:
  assumes "w_status ws \<noteq> Closed"
  obtains "agent_pending (record_lifecycle E t ws owner res d) = agent_pending d"
  | c where "dr_ok res" "dr_gone res" "agent_pending (record_lifecycle E t ws owner res d)
      = delete_where (resolved_by (w_handle ws) c) (agent_pending d)"
proof (cases "next_status (w_status ws) res = Closed")
  case True
  then have "dr_ok res \<and> dr_gone res" using assms by (auto simp: next_status_def Let_def split: if_splits)
  then show ?thesis using that(2) True by (simp add: record_lifecycle_def Let_def close_ws_def)
next
  case False then show ?thesis using that(1) by (simp add: lifecycle_pending)
qed

lemma lifecycle_rules [simp]:
  "rule_targets (record_lifecycle E t ws owner res d) = rule_targets d"
  "alert_rules (record_lifecycle E t ws owner res d) = alert_rules d"
  by (simp_all add: record_lifecycle_def Let_def close_ws_def)

interpretation account: queue_invariant Q "accounted d0" for Q d0
proof
  fix s :: "'w qstate"
  show "accounted d0 s \<Longrightarrow> distinct (handles (q_db s))" by (simp add: accounted_def outbox_ok_def)
  show "accounted d0 (s\<lparr>q_world := w\<rparr>)" if "accounted d0 s" for w
    using that by (rule accounted_log[where cs = "[]"]) simp_all
  show "accounted d0 (s\<lparr>q_world := w, q_calls := q_calls s @ [(Call_Inspect h r, q_db s)]\<rparr>)"
    if "accounted d0 s" for w h r using that by (rule accounted_log) simp_all
  show "accounted d0 (s\<lparr>q_world := w, q_calls := q_calls s @ [(Call_Feed h ids r, q_db s)]\<rparr>)"
    if "accounted d0 s" for w h ids r using that by (rule accounted_log) simp_all
  show "accounted d0 (on_db (record_lifecycle E t ws owner res) s)"
    if I: "accounted d0 s" and un: "unclosed (q_db s) (w_handle ws)" and st: "w_status ws \<noteq> Closed"
      and ne: "q_calls s \<noteq> []" and last: "last (q_calls s) = (Call_Inspect (w_handle ws) (Inr res), q_db s)"
    for E :: "'w env" and t ws owner res
  proof -
    have o: "outbox_ok (on_db (record_lifecycle E t ws owner res) s)"
      using I un st ne last by (intro outbox.lifecycle) (simp_all add: accounted_def)
    have call: "(Call_Inspect (w_handle ws) (Inr res), q_db s) \<in> set (q_calls s)"
      using last_in_set[OF ne] last by simp
    from lifecycle_effect[OF st, of E t owner res "q_db s"] show ?thesis
    proof cases
      case 1 then show ?thesis by (intro accounted_pending[OF I o]) simp_all
    next
      case (2 c)
      show ?thesis
      proof (rule accounted_settled[OF I o])
        show "agent_pending (record_lifecycle E t ws owner res (q_db s))
          = delete_where (resolved_by (w_handle ws) c) (agent_pending (q_db s))" by (rule 2)
        fix q p assume "q \<in> set (agent_pending (q_db s))" "resolved_by (w_handle ws) c q" "pkey q = pkey p"
        then have "ended (q_calls s) p" using call 2 unfolding ended_def resolved_by_def by blast
        then show "accepted (q_calls s) p \<or> ended (q_calls s) p \<or> \<not> still_bound d0 p" by simp
      qed simp_all
    qed
  qed
  show "accounted d0 (on_db (mark_unknown t h err) s)" if "accounted d0 s" for t h err
  proof (rule accounted_pending[OF that])
    show "outbox_ok (on_db (mark_unknown t h err) s)" using that by (intro outbox.unknown) (simp add: accounted_def)
  qed (simp_all add: mark_unknown_def)
  show "accounted d0 (on_db cancel_unbound s)" if I: "accounted d0 s"
  proof (rule accounted_settled[OF I])
    show "outbox_ok (on_db cancel_unbound s)" using I by (intro outbox.cancelled) (simp add: accounted_def)
    show "agent_pending (cancel_unbound (q_db s)) = delete_where (\<lambda>p. \<not> still_bound (q_db s) p) (agent_pending (q_db s))"
      by (simp add: cancel_unbound_def Let_def)
    fix q p assume "\<not> still_bound (q_db s) q" "pkey q = pkey p"
    then have "\<not> still_bound d0 p" using I still_bound_same[of "q_db s" d0 q p] by (simp add: accounted_def)
    then show "accepted (q_calls s) p \<or> ended (q_calls s) p \<or> \<not> still_bound d0 p" by simp
  qed (simp_all add: cancel_unbound_def Let_def)
  show "accounted d0 (on_db (defer_rows t rows x wait) s)" if I: "accounted d0 s" for t rows x wait
  proof (rule accounted_pending[OF I])
    show "outbox_ok (on_db (defer_rows t rows x wait) s)" using I by (intro outbox.postponed) (simp add: accounted_def)
    show "map pkey (agent_pending (defer_rows t rows x wait (q_db s))) = map pkey (agent_pending (q_db s))"
      by (simp del: One_nat_def add: defer_rows_def map_update_where_id)
  qed (simp_all add: defer_rows_def)
  show "accounted d0 (on_db (assign_rows rows h) s)" if I: "accounted d0 s" for rows h
  proof (rule accounted_pending[OF I])
    show "outbox_ok (on_db (assign_rows rows h) s)" using I by (intro outbox.assigned) (simp add: accounted_def)
    show "map pkey (agent_pending (assign_rows rows h (q_db s))) = map pkey (agent_pending (q_db s))"
      by (simp add: assign_rows_def map_update_where_id)
  qed (simp_all add: assign_rows_def)
  show "accounted d0 (on_db (add_audit a x y z) s)" if I: "accounted d0 s" for a x y z
    using I by (rule accounted_pending) (use I in \<open>simp_all add: accounted_def outbox.audited\<close>)
  show "accounted d0 (on_db (\<lambda>d. d\<lparr>agent_workstreams := agent_workstreams d @ [ws]\<rparr>) s)"
    if I: "accounted d0 s" and r: "active_count (q_db s) < max_active Q" "find_ws (q_db s) (w_handle ws) = None"
      "w_status ws = Opening" "\<not> w_attempted ws" for ws
  proof (rule accounted_pending[OF I])
    show "outbox_ok (on_db (\<lambda>d. d\<lparr>agent_workstreams := agent_workstreams d @ [ws]\<rparr>) s)"
      using I r by (intro outbox.reserved) (simp_all add: accounted_def)
  qed simp_all
  show "accounted d0 (s1\<lparr>q_world := w, q_calls := q_calls s1 @ [(Call_Open (w_handle ws) r, q_db s1)]\<rparr>)"
    if I: "accounted d0 s" and s1: "s1 = on_db (set_ws (w_handle ws) (\<lambda>w. w\<lparr>w_attempted := True, w_status := Uncertain\<rparr>)) s"
    for ws s1 w r
  proof -
    have "accounted d0 s1" unfolding s1
    proof (rule accounted_pending[OF I])
      show "outbox_ok (on_db (set_ws (w_handle ws) (\<lambda>w. w\<lparr>w_attempted := True, w_status := Uncertain\<rparr>)) s)"
        using I by (intro outbox_on_db) (simp_all add: accounted_def same_outbox_def handles_set_ws)
    qed simp_all
    then show ?thesis by (rule accounted_log) simp_all
  qed
  show "accounted d0 (on_db (set_ws h (\<lambda>w. w\<lparr>w_attempted := False, w_status := Opening\<rparr>)) s)" if I: "accounted d0 s" for h
  proof (rule accounted_pending[OF I])
    show "outbox_ok (on_db (set_ws h (\<lambda>w. w\<lparr>w_attempted := False, w_status := Opening\<rparr>)) s)"
      using I by (intro outbox_on_db) (simp_all add: accounted_def same_outbox_def handles_set_ws)
  qed simp_all
  show "accounted d0 (on_db (set_ws h (\<lambda>w. w\<lparr>w_status := Open\<rparr>)) s)" if I: "accounted d0 s" for h
  proof (rule accounted_pending[OF I])
    show "outbox_ok (on_db (set_ws h (\<lambda>w. w\<lparr>w_status := Open\<rparr>)) s)"
      using I by (intro outbox_on_db) (simp_all add: accounted_def same_outbox_def handles_set_ws)
  qed simp_all
  show "accounted d0 (on_db (record_delivery t rule target ws batch res) s)"
    if I: "accounted d0 s" and live: "rows_live batch (q_db s)" and ne: "q_calls s \<noteq> []"
      and last: "last (q_calls s) = (Call_Feed (w_handle ws) (map p_event_id batch) (Inr res), q_db s)" and ok: "dr_ok res"
    for t rule target ws batch res
  proof (rule accounted_settled[OF I])
    show "outbox_ok (on_db (record_delivery t rule target ws batch res) s)"
      using I live ne last ok by (intro outbox.delivered) (simp_all add: accounted_def)
    show "map (\<lambda>r. (r_id r, r_enabled r)) (alert_rules (record_delivery t rule target ws batch res (q_db s)))
        = map (\<lambda>r. (r_id r, r_enabled r)) (alert_rules (q_db s))"
      by (simp add: record_delivery_def Let_def map_update_where_id)
    show "agent_pending (record_delivery t rule target ws batch res (q_db s))
        = delete_where (\<lambda>p. p_id p \<in> p_id ` set batch) (agent_pending (q_db s))"
      by (simp add: record_delivery_def Let_def)
    fix q p assume q: "q \<in> set (agent_pending (q_db s))" "p_id q \<in> p_id ` set batch" "pkey q = pkey p"
    then obtain b where b: "b \<in> set batch" "p_id q = p_id b" by auto
    from b(1) live obtain q' where q': "q' \<in> set (agent_pending (q_db s))" "pids q' = pids b"
      unfolding rows_live_def by (metis (no_types, lifting) image_iff subsetD imageI)
    have inj: "inj_on p_id (set (agent_pending (q_db s)))"
      using I by (simp add: accounted_def outbox_ok_def outbox_sound_def distinct_map)
    have "q' = q" using q(1) q' b(2) by (intro inj_onD[OF inj]) simp_all
    then have "p_event_id p = p_event_id b" using q' q(3) by simp
    moreover have "(Call_Feed (w_handle ws) (map p_event_id batch) (Inr res), q_db s) \<in> set (q_calls s)"
      using last_in_set[OF ne] last by simp
    ultimately have "accepted (q_calls s) p" unfolding accepted_def using b(1) ok by (metis image_eqI set_map)
    then show "accepted (q_calls s) p \<or> ended (q_calls s) p \<or> \<not> still_bound d0 p" by simp
  qed (simp add: record_delivery_def Let_def)
qed

text \<open>Closing the one row of a handle frees its slot and no other.\<close>

lemma closing_frees_slot:
  assumes "distinct (map w_handle ws)" "v \<in> set ws" "\<And>w. w_status (f w) = Closed"
  shows "length (filter (\<lambda>w. w_status w \<noteq> Closed) (update_where (\<lambda>w. w_handle w = w_handle v) f ws))
      + (if w_status v = Closed then 0 else 1) = length (filter (\<lambda>w. w_status w \<noteq> Closed) ws)"
  using assms(1,2)
proof (induction ws)
  case (Cons w ws)
  show ?case
  proof (cases "v = w")
    case True
    have "update_where (\<lambda>x. w_handle x = w_handle v) f ws = ws"
      unfolding update_where_def
    proof (rule map_idI)
      fix x assume "x \<in> set ws"
      then have "w_handle x \<noteq> w_handle v" using Cons.prems(1) True by (metis distinct.simps(2) image_eqI list.simps(9) set_map)
      then show "(if w_handle x = w_handle v then f x else x) = x" by simp
    qed
    then show ?thesis using True assms(3) by simp
  next
    case False
    then have "w_handle w \<noteq> w_handle v" using Cons.prems by auto
    then show ?thesis using False Cons by auto
  qed
qed simp

section \<open>A concrete system\<close>

text \<open>
  A dispatcher that checks and feeds at once but whose creations time out, one rule bound to
  one target, and a clock that is the world: the input the properties are applied at.
\<close>

definition live_meta :: meta where
  "live_meta = no_meta\<lparr>m_state := Some ''idle'', m_live := True, m_project_id := Some ''p1'',
     m_send_status := Some ''ok''\<rparr>"

definition demo_dispatcher :: "time dispatcher" where
  "demo_dispatcher = \<lparr>d_stateful = True,
     d_open = (\<lambda>ctx t w. (Inl (Exn ''ReadTimeout'' []), w + 1)),
     d_feed = (\<lambda>ctx t h w. (Inr ((result_init True)\<lparr>dr_meta := live_meta\<rparr>), w + 1)),
     d_prepare = base_prepare,
     d_inspect = (\<lambda>ctx t h w. (Inr ((result_init True)\<lparr>dr_handle := h, dr_meta := live_meta\<rparr>), w + 1))\<rparr>"

definition demo_env :: "time env" where
  "demo_env = \<lparr>e_registry = (\<lambda>ty. if ty = ''t'' then Some demo_dispatcher else None),
     e_clock = (\<lambda>w. w), e_token = (\<lambda>w. (''h'' @ int_text w, w + 1)), e_fromiso = (\<lambda>_. None)\<rparr>"

definition demo_rule :: rule_row where
  "demo_rule = \<lparr>r_id = 1, r_name = ''d'', r_kind = ''match'', r_pattern = ''f'', r_instructions = None,
     r_source_glob = None, r_min_severity = None, r_window_kind = ''rate'', r_window_seconds = 300,
     r_spike_lines = None, r_cooldown_seconds = 300, r_rule_order = 100, r_stop_on_match = False,
     r_enabled = True, r_owner_user = Some ''u1'', r_project_id = Some ''p1'', r_created_by = None,
     r_created_by_upn = Some ''a'', r_created_by_bot = None, r_last_fired = None, r_group_by = ''host''\<rparr>"

definition demo_target :: target_row where
  "demo_target = \<lparr>t_id = 5, t_name = ''a'', t_type = ''t'', t_config = [],
     t_identity_policy = ''creator_bot'', t_owner_oid = None, t_owner_upn = None, t_owner_bot = None,
     t_project_id = Some ''p1'', t_project_name = None\<rparr>"

definition demo_db :: db where
  "demo_db = empty_db\<lparr>alert_rules := [demo_rule], targets := [demo_target],
     rule_targets := [\<lparr>b_rule_id = 1, b_target_id = 5, b_target_order = 1, b_stop_on_match = False\<rparr>]\<rparr>"

definition demo_start :: "time qstate" where
  "demo_start = \<lparr>q_db = demo_db, q_world = 0, q_calls = []\<rparr>"

definition demo_ctx :: fire_context where
  "demo_ctx = (fire_context_init (rule_of_row demo_rule) (no_event\<lparr>ev_source := Some ''w'', ev_body := Some ''f''\<rparr>))
     \<lparr>fc_owner_user := ''u1'', fc_seed := ''s'', fc_follow_up := ''n''\<rparr>"

definition demo_queue :: queue_config where
  "demo_queue = \<lparr>max_active = 4, feed_interval = seconds 60, poll_interval = seconds 10,
     rate_ceiling = 120, batch_size = 20\<rparr>"

definition demo_queued :: "time qstate" where
  "demo_queued = snd (enqueue demo_env demo_ctx (target_of_row demo_target) None demo_start)"

definition demo_uncertain :: "time qstate" where
  "demo_uncertain = tick demo_env demo_queue True demo_queued"

lemma demo_queue_made: "make_queue 4 (seconds 60) (seconds 10) 120 20 = Inr demo_queue"
  by code_simp

lemma demo_queued_reached: "reach fresh_start (queue_step demo_env demo_queue) demo_queued"
proof (rule reach_step[OF reach_init])
  show "fresh_start demo_start" by code_simp
  show "queue_step demo_env demo_queue demo_start demo_queued"
    unfolding demo_queued_def by (rule queue_step.enqueued) (rule prod.collapse[symmetric])
qed

lemma demo_uncertain_reached: "reach fresh_start (queue_step demo_env demo_queue) demo_uncertain"
  unfolding demo_uncertain_def by (rule reach_step[OF demo_queued_reached queue_step.ticked])

lemma reach_system: "reach fresh_start (queue_step E Q) s \<Longrightarrow> reach fresh_start (system_step E Q) s"
  by (induction rule: reach.induct) (auto intro: reach.intros system_step.ordinary)

section \<open>Properties\<close>

text \<open>
  C1. The admission cap. In every run of the system that starts with an empty queue, for a queue
  the constructor accepts: at every moment, and in the database committed at every call made to
  a dispatcher, at most \<open>max_active\<close> workstreams (never more than four) are unclosed, whatever
  the dispatchers answer, raise or take in time.
\<close>

theorem active_workstreams_capped:
  assumes "make_queue a f p c b = Inr Q" "reach fresh_start (system_step E Q) s"
  shows "active_count (q_db s) \<le> max_active Q \<and> max_active Q \<le> 4
    \<and> (\<forall>(call, d) \<in> set (q_calls s). active_count d \<le> max_active Q)"
proof -
  have "1 \<le> max_active Q" "max_active Q \<le> 4" using assms(1) by (auto simp: make_queue_def split: if_splits)
  moreover have "capped Q s" using assms(2) by (rule cap_run.always)
  ultimately show ?thesis by (simp add: capped_def)
qed

theorem active_workstreams_capped_witness:
  "active_count (q_db demo_uncertain) \<le> 4 \<and> active_count (q_db demo_uncertain) = 1
   \<and> list_all (\<lambda>(call, d). active_count d \<le> 4) (q_calls demo_uncertain) \<and> length (q_calls demo_uncertain) = 1"
proof -
  have "active_count (q_db demo_uncertain) = 1" "length (q_calls demo_uncertain) = 1" by code_simp+
  moreover have "max_active demo_queue = 4" by (simp add: demo_queue_def)
  ultimately show ?thesis
    using active_workstreams_capped[OF demo_queue_made reach_system[OF demo_uncertain_reached]] by (simp add: list_all_iff)
qed

text \<open>
  C2. One creation for a handle. In every run, a dispatcher is asked to create a workstream only
  after its reservation is committed, marked attempted and uncertain; and a second creation for
  the same handle follows only a refusal the dispatcher vouched for, never an exception, an
  acceptance or an unknown outcome.
\<close>

theorem creation_reserved_and_not_repeated:
  assumes "reach fresh_start (system_step E Q) s" "q_calls s = before @ (Call_Open h r, d) # later"
  shows "reserved_in d h \<and> (opens h later \<noteq> [] \<longrightarrow> refusal r)"
proof -
  have ok: "creations_ok s" using assms(1) by (rule log_run.always)
  have "\<forall>c \<in> set (q_calls s). reserved_call c" using ok by (simp add: creations_ok_def)
  then have res: "reserved_in d h" using assms(2) by simp
  have "\<forall>x \<in> set (butlast (opens h (q_calls s))). refusal x" using ok by (simp add: creations_ok_def)
  moreover have "opens h (q_calls s) = opens h before @ r # opens h later" using assms(2) by simp
  ultimately have "opens h later \<noteq> [] \<Longrightarrow> refusal r" by (simp add: butlast_append)
  with res show ?thesis by blast
qed

theorem creation_reserved_and_not_repeated_witness:
  "\<exists>h r d later. q_calls demo_uncertain = [] @ (Call_Open h r, d) # later \<and> reserved_in d h
     \<and> (opens h later \<noteq> [] \<longrightarrow> refusal r)"
proof -
  have "q_calls demo_uncertain \<noteq> []" by code_simp
  moreover have "case fst (hd (q_calls demo_uncertain)) of Call_Open h r \<Rightarrow> True | _ \<Rightarrow> False" by code_simp
  ultimately obtain h r d later where e: "q_calls demo_uncertain = [] @ (Call_Open h r, d) # later"
    by (cases "q_calls demo_uncertain") (auto split: qcall.splits)
  then show ?thesis
    using creation_reserved_and_not_repeated[OF reach_system[OF demo_uncertain_reached] e] by blast
qed



text \<open>
  C4. No event leaves the outbox unaccounted. A tick may drop a waiting row only if a send that
  carried its event was accepted, or a lifecycle check confirmed that the workstream it was
  assigned to is gone, or its rule is disabled, deleted or unbound from its target; whatever the
  dispatchers raise or answer, every other row still waits after the tick.
\<close>

theorem tick_accounts_for_every_row:
  assumes "outbox_ok s" "q_calls s = []" "p \<in> set (agent_pending (q_db s))"
    and "pkey p \<notin> pkey ` set (agent_pending (q_db (tick E Q locked s)))"
  shows "accepted (q_calls (tick E Q locked s)) p \<or> ended (q_calls (tick E Q locked s)) p
    \<or> \<not> still_bound (q_db s) p"
proof -
  have "accounted (q_db s) s" using assms(1) by (simp add: accounted_def)
  then have "accounted (q_db s) (tick E Q locked s)" by (rule account.tick_kept)
  then show ?thesis using assms(3,4) unfolding accounted_def by blast
qed

definition demo_unbound :: "time qstate" where
  "demo_unbound = on_db (\<lambda>d. d\<lparr>rule_targets := []\<rparr>) demo_queued"

theorem tick_accounts_for_every_row_witness:
  "\<exists>p. agent_pending (q_db demo_unbound) = [p] \<and> \<not> still_bound (q_db demo_unbound) p"
proof -
  have e: "edited (q_db demo_queued) (q_db demo_queued\<lparr>rule_targets := []\<rparr>)" by (simp add: edited_def)
  have "reach fresh_start (queue_step demo_env demo_queue) demo_unbound"
    unfolding demo_unbound_def on_db_def by (rule reach_step[OF demo_queued_reached queue_step.edit[OF e]])
  then have o: "outbox_ok demo_unbound" by (rule outbox_run.runs)
  have c: "q_calls demo_unbound = []" by code_simp
  have g: "agent_pending (q_db (tick demo_env demo_queue True demo_unbound)) = []" by code_simp
  have nc: "q_calls (tick demo_env demo_queue True demo_unbound) = []" by code_simp
  have "length (agent_pending (q_db demo_unbound)) = 1" by code_simp
  then obtain p where p: "agent_pending (q_db demo_unbound) = [p]" by (auto simp: length_Suc_conv)
  then have "\<not> still_bound (q_db demo_unbound) p"
    using tick_accounts_for_every_row[OF o c, of p demo_env demo_queue True] g nc
    by (simp add: accepted_def ended_def)
  then show ?thesis using p by blast
qed

text \<open>
  C5. Closure. When a check confirms that an unclosed workstream is gone, the workstream is
  closed, its incidents are closed, and exactly the rows assigned to it that were created no
  later than the closure are resolved: they leave the outbox in order and their history rows,
  and no others, become \<open>resolved\<close>. The closure time is the dispatcher's when it can be read,
  else the clock's.
\<close>

theorem confirmed_closure_resolves:
  assumes "dr_ok res" "dr_gone res" "distinct (handles d)" "ws \<in> set (agent_workstreams d)"
    and "closed_at = (case Option.bind (m_closed_at (dr_meta res)) (e_fromiso E) of None \<Rightarrow> t | Some c \<Rightarrow> c)"
    and "d' = record_lifecycle E t ws owner res d"
  shows "agent_pending d' = filter (\<lambda>p. \<not> (p_assigned p = Some (w_handle ws) \<and> p_created_at p \<le> closed_at)) (agent_pending d)
    \<and> alert_events d' = map (\<lambda>e. if \<exists>p \<in> set (agent_pending d). p_event_id p = ae_id e
          \<and> p_assigned p = Some (w_handle ws) \<and> p_created_at p \<le> closed_at
        then e\<lparr>ae_disposition := ''resolved''\<rparr> else e) (alert_events d)
    \<and> (\<forall>i \<in> set (alert_incidents d'). in_handle i = Some (w_handle ws) \<longrightarrow> in_status i = ''closed'')
    \<and> (\<forall>w \<in> set (agent_workstreams d'). w_handle w = w_handle ws \<longrightarrow> w_status w = Closed \<and> w_closed_at w = Some closed_at)
    \<and> active_count d' = active_count d - (if w_status ws = Closed then 0 else 1)"
proof -
  have n: "next_status (w_status ws) res = Closed" using assms(1,2) by (simp add: next_status_def)
  let ?P = "resolved_by (w_handle ws) closed_at"
  have d': "agent_pending d' = delete_where ?P (agent_pending d)"
    "alert_events d' = update_where (\<lambda>e. ae_id e \<in> p_event_id ` {p \<in> set (agent_pending d). ?P p})
       (\<lambda>e. e\<lparr>ae_disposition := ''resolved''\<rparr>) (alert_events d)"
    "alert_incidents d' = update_where (\<lambda>i. in_handle i = Some (w_handle ws)) (\<lambda>i. i\<lparr>in_status := ''closed''\<rparr>) (alert_incidents d)"
    unfolding assms(6) record_lifecycle_def Let_def n by (simp_all add: close_ws_def assms(5))
  have ws': "agent_workstreams d' = update_where (\<lambda>w. w_handle w = w_handle ws)
     (\<lambda>w. w\<lparr>w_status := Closed, w_checked_at := Some t, w_last_state := m_state (dr_meta res),
        w_last_detail := take 300 (dr_detail res), w_owner_user := owner,
        w_project_id := (case m_project_id (dr_meta res) of None \<Rightarrow> w_project_id ws | Some p \<Rightarrow> p),
        w_closed_at := Some closed_at\<rparr>) (agent_workstreams d)"
    unfolding assms(6) record_lifecycle_def Let_def n using assms(1,5)
    by (auto simp: update_where_def)
  have count: "active_count d' = active_count d - (if w_status ws = Closed then 0 else 1)"
    using closing_frees_slot[OF assms(3)[unfolded handles_def] assms(4),
        of "\<lambda>w. w\<lparr>w_status := Closed, w_checked_at := Some t, w_last_state := m_state (dr_meta res),
        w_last_detail := take 300 (dr_detail res), w_owner_user := owner,
        w_project_id := (case m_project_id (dr_meta res) of None \<Rightarrow> w_project_id ws | Some p \<Rightarrow> p),
        w_closed_at := Some closed_at\<rparr>"]
    unfolding active_count_def ws' by (auto split: if_splits)
  have pend: "agent_pending d' = filter (\<lambda>p. \<not> (p_assigned p = Some (w_handle ws) \<and> p_created_at p \<le> closed_at)) (agent_pending d)"
    by (simp add: d' delete_where_def resolved_by_def)
  have ev: "alert_events d' = map (\<lambda>e. if \<exists>p \<in> set (agent_pending d). p_event_id p = ae_id e
          \<and> p_assigned p = Some (w_handle ws) \<and> p_created_at p \<le> closed_at
        then e\<lparr>ae_disposition := ''resolved''\<rparr> else e) (alert_events d)"
    unfolding d' update_where_def resolved_by_def by (rule map_cong[OF refl]) (auto simp: image_iff)
  have inc: "\<forall>i \<in> set (alert_incidents d'). in_handle i = Some (w_handle ws) \<longrightarrow> in_status i = ''closed''"
    unfolding d' by (auto elim!: in_update_whereE)
  have wss: "\<forall>w \<in> set (agent_workstreams d'). w_handle w = w_handle ws \<longrightarrow> w_status w = Closed \<and> w_closed_at w = Some closed_at"
    unfolding ws' by (auto elim!: in_update_whereE)
  show ?thesis using pend ev inc wss count by (intro conjI)
qed

definition gone_result :: dispatch_result where
  "gone_result = (result_init True)\<lparr>dr_gone := True\<rparr>"

definition demo_ws :: "time qstate \<Rightarrow> ws_row" where
  "demo_ws s = hd (agent_workstreams (q_db s))"

theorem confirmed_closure_resolves_witness:
  "active_count (record_lifecycle demo_env 9 (demo_ws demo_uncertain) ''u1'' gone_result (q_db demo_uncertain)) = 0
   \<and> agent_pending (record_lifecycle demo_env 9 (demo_ws demo_uncertain) ''u1'' gone_result (q_db demo_uncertain)) = []"
proof -
  let ?d = "q_db demo_uncertain" and ?ws = "demo_ws demo_uncertain"
  have g: "dr_ok gone_result" "dr_gone gone_result" by (simp_all add: gone_result_def)
  have "capped demo_queue demo_uncertain" by (rule cap_run.always[OF reach_system[OF demo_uncertain_reached]])
  then have h: "distinct (handles ?d)" by (simp add: capped_def)
  have n: "agent_workstreams ?d \<noteq> []" and a: "active_count ?d = 1" and o: "w_status ?ws \<noteq> Closed"
    and p: "list_all (\<lambda>p. p_assigned p = Some (w_handle ?ws) \<and> p_created_at p \<le> 9) (agent_pending ?d)"
    by code_simp+
  have w: "?ws \<in> set (agent_workstreams ?d)" using n by (simp add: demo_ws_def)
  have c: "(9 :: time) = (case Option.bind (m_closed_at (dr_meta gone_result)) (e_fromiso demo_env) of None \<Rightarrow> 9 | Some c \<Rightarrow> c)"
    by (simp add: gone_result_def no_meta_def)
  note t = confirmed_closure_resolves[OF g h w c refl, of "''u1''"]
  show ?thesis
  proof
    show "active_count (record_lifecycle demo_env 9 ?ws ''u1'' gone_result ?d) = 0" using t a o by simp
    have "agent_pending (record_lifecycle demo_env 9 ?ws ''u1'' gone_result ?d)
      = filter (\<lambda>p. \<not> (p_assigned p = Some (w_handle ?ws) \<and> p_created_at p \<le> 9)) (agent_pending ?d)" using t by blast
    then show "agent_pending (record_lifecycle demo_env 9 ?ws ''u1'' gone_result ?d) = []"
      using p by (simp add: list_all_iff)
  qed
qed

end
