(* ===== verification/Agent_Queue_Effects.thy ===== *)
theory Agent_Queue_Effects
  imports Agent_Queue_Claims
begin

text \<open>
  What single operations of the agent queue do: the batch, a delivery that raises, an enqueue,
  and the deletion of a target.
\<close>

lemma cut_batch_split:
  obtains rest where "rows = cut_batch n started rows @ rest"
    "rest \<noteq> [] \<Longrightarrow> (started \<or> cut_batch n started rows \<noteq> [])
       \<and> n + sum_list (map (\<lambda>p. length (row_text p)) (cut_batch n started rows)) + length (row_text (hd rest)) > 12000"
proof (induction n started rows arbitrary: thesis rule: cut_batch.induct)
  case (1 n started) then show ?case by simp
next
  case (2 n started r rs)
  show ?case
  proof (cases "started \<and> n + length (row_text r) > 12000")
    case True then show ?thesis using "2.prems"[of "r # rs"] by simp
  next
    case False
    obtain rest where "rs = cut_batch (n + length (row_text r)) True rs @ rest"
      "rest \<noteq> [] \<Longrightarrow> n + length (row_text r) + sum_list (map (\<lambda>p. length (row_text p)) (cut_batch (n + length (row_text r)) True rs))
         + length (row_text (hd rest)) > 12000"
      using "2.IH"[OF False] by blast
    moreover have "cut_batch n started (r # rs) = r # cut_batch (n + length (row_text r)) True rs"
      using False by auto
    ultimately show ?thesis by (intro "2.prems"[of rest]) (simp_all only: append_Cons list.map sum_list.Cons add.assoc simp_thms list.distinct)
  qed
qed

lemma cut_batch_bound:
  "started \<Longrightarrow> n \<le> 12000 \<Longrightarrow> n + sum_list (map (\<lambda>p. length (row_text p)) (cut_batch n started rows)) \<le> 12000"
  by (induction n started rows rule: cut_batch.induct) (auto simp: add.assoc)

text \<open>
  C6. The batch. What is sent at once is a nonempty prefix of the group's rows, in order; more
  than one row only while their texts together stay within 12000 characters; and it stops only
  where the next row would pass that bound.
\<close>

theorem batch_is_longest_prefix_within_bound:
  assumes "rows \<noteq> []"
  shows "\<exists>rest. rows = cut_batch 0 False rows @ rest \<and> cut_batch 0 False rows \<noteq> []
    \<and> (length (cut_batch 0 False rows) > 1 \<longrightarrow>
         sum_list (map (\<lambda>p. length (row_text p)) (cut_batch 0 False rows)) \<le> 12000)
    \<and> (rest \<noteq> [] \<longrightarrow> sum_list (map (\<lambda>p. length (row_text p)) (cut_batch 0 False rows))
         + length (row_text (hd rest)) > 12000)"
proof -
  obtain r rs where rows: "rows = r # rs" using assms by (cases rows) auto
  obtain rest where rest: "rows = cut_batch 0 False rows @ rest"
    "rest \<noteq> [] \<Longrightarrow> 0 + sum_list (map (\<lambda>p. length (row_text p)) (cut_batch 0 False rows)) + length (row_text (hd rest)) > 12000"
    using cut_batch_split[of rows 0 False] by blast
  have "sum_list (map (\<lambda>p. length (row_text p)) (cut_batch 0 False rows)) \<le> 12000"
    if "length (cut_batch 0 False rows) > 1"
  proof (cases "length (row_text r) \<le> 12000")
    case True then show ?thesis using cut_batch_bound[of True "length (row_text r)" rs] by (simp add: rows)
  next
    case False
    then have "cut_batch (length (row_text r)) True rs = []" by (cases rs) simp_all
    then show ?thesis using that by (simp add: rows)
  qed
  moreover have "cut_batch 0 False rows \<noteq> []" by (simp add: rows)
  ultimately show ?thesis using rest by (intro exI[of _ rest]) simp
qed

theorem batch_is_longest_prefix_within_bound_witness:
  "\<exists>rest. agent_pending (q_db demo_queued) = cut_batch 0 False (agent_pending (q_db demo_queued)) @ rest"
proof -
  have "agent_pending (q_db demo_queued) \<noteq> []" by code_simp
  from batch_is_longest_prefix_within_bound[OF this] show ?thesis by blast
qed

lemma find_workstream_serves:
  assumes "find_workstream d ctx tid g src = Some w"
  shows "ws_serves ctx tid g src w \<and> w \<in> set (agent_workstreams d)"
proof -
  let ?rows = "filter (ws_serves ctx tid g src) (agent_workstreams d)"
  obtain xs where "sort_key (\<lambda>w. - w_opened_at w) ?rows = w # xs"
    using assms by (auto simp: find_workstream_def split: list.splits)
  then have "set (w # xs) = set ?rows" by (metis set_sort)
  then have "w \<in> set ?rows" by auto
  then show ?thesis by simp
qed

lemma same_outbox_trans: "same_outbox d d' \<Longrightarrow> same_outbox d' d'' \<Longrightarrow> same_outbox d d''"
  by (simp add: same_outbox_def)

lemma same_outbox_assign: "same_outbox d (assign_rows rows h d)"
  unfolding same_outbox_def by (simp add: assign_rows_def map_update_where_id)

lemma same_outbox_defer: "same_outbox d (defer_rows t rows x wait d)"
  unfolding same_outbox_def by (simp del: One_nat_def add: defer_rows_def map_update_where_id)

lemma reserve_same_outbox:
  assumes "reserve E Q rule target ctx key s = (r, s')" shows "same_outbox (q_db s) (q_db s')"
  using assms by (cases rule: reserveE) (simp_all add: same_outbox_def)

lemma reserve_unclosed:
  assumes "reserve E Q rule target ctx key s = (Inr (Some ws), s')" shows "w_status ws \<noteq> Closed"
  using assms by (cases rule: reserveE) (auto dest: find_workstream_Some)

lemma create_unclosed:
  "create_ws E disp rule target ctx rows ws s = (Inr (Some ws1), s') \<Longrightarrow> w_status ws \<noteq> Closed \<Longrightarrow> w_status ws1 \<noteq> Closed"
  unfolding create_ws_def Let_def by (auto split: if_splits prod.splits sum.splits)

lemma create_same_outbox:
  assumes "create_ws E disp rule target ctx rows ws s = (r, s')"
  shows "same_outbox (q_db s) (q_db s')"
proof -
  have d: "same_outbox d (q_db (postpone E rows x wait u))" if "same_outbox d (q_db u)" for d x wait u
    unfolding postpone_def on_db_sel using that same_outbox_defer by (rule same_outbox_trans)
  show ?thesis using assms unfolding create_ws_def perform_def Let_def
    by (auto split: if_splits prod.splits sum.splits intro!: d) (simp_all add: same_outbox_def)
qed

text \<open>
  C7. A failing delivery retains its events. When the delivery of a group raises, wherever it
  raises (identity, reservation, creation, lifecycle check or send), the history and the outbox
  rows are what they were, save the rows' attempt count, wait and assigned handle; and the
  group's handler turns the exception into a postponement of the same rows.
\<close>

theorem failed_delivery_retains_events:
  assumes "deliver E Q first rows s = (Inl e, s')"
  shows "alert_events (q_db s') = alert_events (q_db s)
    \<and> map pids (agent_pending (q_db s')) = map pids (agent_pending (q_db s))
    \<and> (group_rows Q k (q_db s) = rows \<and> rows = first # rest \<and> p_available_at first \<le> now E s \<longrightarrow>
         deliver_group E Q k s = postpone E rows (''delivery failed ('' @ exn_type e @ ''); events retained'') (seconds 30) s')"
proof -
  have "same_outbox (q_db s) (q_db s')"
    using assms
  proof (cases rule: deliverE)
    case (raised w' e') then show ?thesis by (simp add: same_outbox_def)
  next
    case (admitted w' disp rule target r1 s2)
    have 2: "same_outbox (q_db s) (q_db s2)" using reserve_same_outbox[OF admitted(3)] by simp
    show ?thesis
    proof (cases "\<exists>ws. r1 = Inr (Some ws)")
      case False then show ?thesis using admitted(4) 2 by (auto split: sum.splits option.splits)
    next
      case True
      then obtain ws where r1: "r1 = Inr (Some ws)" by blast
      obtain r3 s3 where c: "create_ws E disp rule target (p_payload first) rows ws
                   (on_db (assign_rows rows (w_handle ws)) s2) = (r3, s3)" by fastforce
      have 3: "same_outbox (q_db s) (q_db s3)"
        using same_outbox_trans[OF same_outbox_trans[OF 2 same_outbox_assign]] create_same_outbox[OF c] by simp
      note rest = admitted(4)[unfolded r1 sum.case option.case c prod.case]
      show ?thesis
      proof (cases "\<exists>ws1. r3 = Inr (Some ws1)")
        case False then show ?thesis using rest 3 by (auto split: sum.splits option.splits)
      next
        case True
        then obtain ws1 where r3: "r3 = Inr (Some ws1)" and f: "feed_ws E Q disp rule target (p_payload first) rows ws1 s3 = (Inl e, s')"
          using rest by auto
        from f have "same_outbox (q_db s3) (q_db s')"
        proof (cases rule: feed_wsE)
          case (raised e') from raised(1) show ?thesis by (cases rule: inspect_wsE) (simp_all add: same_outbox_def)
        next
          case (sent res s4)
          from sent(5) have d: "q_db s' = q_db s4"
            by (auto simp: send_batch_def Let_def perform_def split: prod.splits sum.splits if_splits)
          have "w_status ws1 \<noteq> Closed"
            using create_unclosed[OF c[unfolded r3]] reserve_unclosed[OF admitted(3)[unfolded r1]] by blast
          with sent(1,3) have "same_outbox (q_db s3) (q_db s4)"
            by (auto elim!: inspect_wsE simp: same_outbox_def record_lifecycle_def Let_def next_status_not_gone)
          then show ?thesis by (simp only: d)
        qed simp
        then show ?thesis by (rule same_outbox_trans[OF 3])
      qed
    qed
  qed simp_all
  then have same: "alert_events (q_db s') = alert_events (q_db s)"
      "map pids (agent_pending (q_db s')) = map pids (agent_pending (q_db s))"
    using map_proj_eq[of "\<lambda>p. (p_id p, p_event_id p, p_rule_id p)" "agent_pending (q_db s')" "agent_pending (q_db s)"
        "\<lambda>(a, b, c). (a, b)"]
    by (simp_all add: same_outbox_def comp_def)
  moreover have "deliver_group E Q k s
      = postpone E rows (''delivery failed ('' @ exn_type e @ ''); events retained'') (seconds 30) s'"
    if "group_rows Q k (q_db s) = rows" "rows = first # rest" "p_available_at first \<le> now E s"
    using that assms by (simp add: deliver_group_def)
  ultimately show ?thesis by blast
qed

definition demo_first :: pending_row where
  "demo_first = hd (agent_pending (q_db demo_queued))"

theorem failed_delivery_retains_events_witness:
  "\<exists>s'. deliver demo_env demo_queue demo_first [demo_first] demo_queued = (Inl (Exn ''ReadTimeout'' []), s')
     \<and> map pids (agent_pending (q_db s')) = [(1, 1)]"
proof -
  have "fst (deliver demo_env demo_queue demo_first [demo_first] demo_queued) = Inl (Exn ''ReadTimeout'' [])" by code_simp
  then obtain s' where d: "deliver demo_env demo_queue demo_first [demo_first] demo_queued = (Inl (Exn ''ReadTimeout'' []), s')"
    by (metis prod.collapse)
  have "map pids (agent_pending (q_db demo_queued)) = [(1, 1)]" by code_simp
  then show ?thesis using failed_delivery_retains_events[OF d] d by auto
qed

text \<open>
  Enqueueing. A firing is recorded completely or not at all: on success the database gains
  one \<open>queued\<close> history row and one outbox row that belongs to it, carrying the packed firing
  and the group's key and due at once, and the workstream it is assigned to, if any, is an
  unclosed one of the same rule, target, owner and project; when it raises (unknown target
  type, a \<open>prepare\<close> that fails, a bad grouping, a deleted rule or target) the database is
  untouched. Either way no dispatcher was asked to create, check or feed anything.
\<close>

theorem enqueue_is_atomic:
  assumes "enqueue E ctx0 target src s = (r, s')"
  shows "q_calls s' = q_calls s \<and>
    (case r of
       Inl e \<Rightarrow> q_db s' = q_db s
     | Inr x \<Rightarrow> x = ''queued'' \<and> (\<exists>ctx e p.
         alert_events (q_db s') = alert_events (q_db s) @ [e]
         \<and> agent_pending (q_db s') = agent_pending (q_db s) @ [p]
         \<and> agent_workstreams (q_db s') = agent_workstreams (q_db s)
         \<and> belongs p e \<and> ae_key e = Key_Group (p_key p) \<and> p_payload p = pack ctx
         \<and> p_available_at p = now E s' \<and> p_created_at p = now E s'
         \<and> group_key ctx (ti_id target) src = Inr (p_key p)
         \<and> (\<forall>h. p_assigned p = Some h \<longrightarrow> (\<exists>w \<in> set (agent_workstreams (q_db s)).
               w_handle w = h \<and> w_status w \<noteq> Closed \<and> w_rule_id w = Some (p_rule_id p)
               \<and> w_target_id w = Some (p_target_id p) \<and> w_owner_user w = fc_owner_user ctx
               \<and> w_project_id w = or_else (ri_project_id (fc_rule ctx)) []))))"
proof (cases "e_registry E (ti_type target)")
  case None
  then show ?thesis using assms by (auto simp: enqueue_def)
next
  case (Some disp)
  obtain rp s1 where p: "quietly (d_prepare disp ctx0 target) s = (rp, s1)" by fastforce
  then obtain w' where s1: "s1 = s\<lparr>q_world := w'\<rparr>" by (rule quietlyE)
  note c = assms[unfolded enqueue_def Some p option.case prod.case]
  show ?thesis
  proof (cases rp)
    case (Inl e) then show ?thesis using c s1 by auto
  next
    case (Inr ctx)
    show ?thesis
    proof (cases "group_key ctx (ti_id target) src")
      case (Inl e) then show ?thesis using c s1 Inr by auto
    next
      case key: (Inr key)
      let ?cur = "find_workstream (q_db s) ctx (ti_id target)
          (case ri_group_by (fc_rule ctx) of None \<Rightarrow> ''host'' | Some g \<Rightarrow> g) (gk_source key)"
      note c' = c[unfolded Inr key sum.case Let_def s1, simplified]
      show ?thesis
      proof (cases "insert_firing (now E s1) ctx target key ?cur (q_db s)")
        case (Inl e) then show ?thesis using c' by (auto simp: s1)
      next
        case ins: (Inr d)
        have r: "r = Inr ''queued''" "s' = s1\<lparr>q_db := d\<rparr>" using c' ins by (auto simp: s1)
        obtain rid tid where t: "ri_id (fc_rule ctx) = Some rid" "ti_id target = Some tid"
          and d: "d = q_db s\<lparr>alert_events := alert_events (q_db s) @ [firing_row (now E s1) ctx rid tid key (next_alert_event (q_db s))],
            agent_pending := agent_pending (q_db s)
              @ [outbox_row (now E s1) ctx rid tid key ?cur (next_pending (q_db s)) (next_alert_event (q_db s))],
            next_alert_event := next_alert_event (q_db s) + 1, next_pending := next_pending (q_db s) + 1\<rparr>"
          using ins by (rule insert_firingE)
        have cur: "\<exists>w \<in> set (agent_workstreams (q_db s)). w_handle w = w_handle z \<and> w_status w \<noteq> Closed
            \<and> w_rule_id w = Some rid \<and> w_target_id w = Some tid \<and> w_owner_user w = fc_owner_user ctx
            \<and> w_project_id w = or_else (ri_project_id (fc_rule ctx)) []"
          if "find_workstream (q_db s) ctx (Some tid)
              (case ri_group_by (fc_rule ctx) of None \<Rightarrow> ''host'' | Some g \<Rightarrow> g) (gk_source key) = Some z" for z
          using find_workstream_serves[OF that] t by (auto simp: ws_serves_def)
        show ?thesis unfolding r d
          by (auto simp: s1 now_def key new_row_belongs intro!: exI[of _ ctx])
             (auto simp: t firing_row_def outbox_row_def intro: cur)
      qed
    qed
  qed
qed

theorem enqueue_is_atomic_witness:
  "\<exists>e p. alert_events (q_db demo_queued) = [e] \<and> agent_pending (q_db demo_queued) = [p] \<and> belongs p e"
proof -
  have "fst (enqueue demo_env demo_ctx (target_of_row demo_target) None demo_start) = Inr ''queued''" by code_simp
  then have q: "enqueue demo_env demo_ctx (target_of_row demo_target) None demo_start = (Inr ''queued'', demo_queued)"
    unfolding demo_queued_def by (metis prod.collapse)
  have "alert_events (q_db demo_start) = []" "agent_pending (q_db demo_start) = []" by code_simp+
  then show ?thesis using enqueue_is_atomic[OF q] by auto
qed

text \<open>
  A limit of the cascade. Deleting a target removes its outbox rows but not the history rows
  they belong to: a firing that was waiting stays \<open>queued\<close> in the history with no row left to
  deliver, resolve or cancel it.
\<close>

theorem deleted_target_strands_firings:
  assumes "outbox_sound (q_db s)" "p \<in> set (agent_pending (q_db s))"
    and "d' = delete_target (p_target_id p) (q_db s)"
  shows "\<exists>e \<in> set (alert_events d'). ae_id e = p_event_id p \<and> ae_disposition e = ''queued''
    \<and> p_event_id p \<notin> p_event_id ` set (agent_pending d') \<and> \<not> outbox_complete d'"
proof -
  obtain e where e: "e \<in> set (alert_events (q_db s))" "belongs p e"
    using assms(1,2) by (auto simp: outbox_sound_def)
  let ?e = "if ae_target_id e = Some (p_target_id p) then e\<lparr>ae_target_id := None\<rparr> else e"
  have e': "?e \<in> set (alert_events d')" using e(1) by (auto simp: assms(3) delete_target_def set_update_where)
  have inj: "inj_on p_event_id (set (agent_pending (q_db s)))"
    using assms(1) by (simp add: outbox_sound_def distinct_map)
  have gone: "p_event_id p \<notin> p_event_id ` set (agent_pending d')"
  proof
    assume "p_event_id p \<in> p_event_id ` set (agent_pending d')"
    then obtain q where q: "q \<in> set (agent_pending (q_db s))" "p_target_id q \<noteq> p_target_id p" "p_event_id q = p_event_id p"
      by (auto simp: assms(3) delete_target_def)
    then have "q = p" using assms(2) by (intro inj_onD[OF inj]) simp_all
    then show False using q(2) by simp
  qed
  have q: "ae_id ?e = p_event_id p" "ae_disposition ?e = ''queued''" using e(2) by (simp_all add: belongs_def)
  then have "\<not> outbox_complete d'" using e' gone unfolding outbox_complete_def by metis
  then show ?thesis using e' q gone by blast
qed

theorem deleted_target_strands_firings_witness:
  "\<exists>e \<in> set (alert_events (delete_target 5 (q_db demo_queued))). ae_disposition e = ''queued''"
proof -
  have "outbox_ok demo_queued" by (rule outbox_run.runs[OF demo_queued_reached])
  then have o: "outbox_sound (q_db demo_queued)" by (simp add: outbox_ok_def)
  have "agent_pending (q_db demo_queued) \<noteq> []" by code_simp
  then have p: "demo_first \<in> set (agent_pending (q_db demo_queued))" by (simp add: demo_first_def)
  have "p_target_id demo_first = 5" by code_simp
  then show ?thesis using deleted_target_strands_firings[OF o p refl] by auto
qed

end
