(* ===== verification/Event_Attrs.thy ===== *)
theory Event_Attrs
  imports Py_Value
begin

text \<open>
  \<open>ringdown/event_attrs.py\<close>: the allowlist of structured attributes that rules, agents and
  operators may see, and its text form.
\<close>

definition visible_keys :: "string list" where
  "visible_keys =
    [''event'', ''requestId'', ''outcome'', ''app'', ''appId'', ''provider'', ''providerId'',
     ''requestedModel'', ''model'', ''modelId'', ''mode'', ''stream'', ''failureClass'',
     ''failureDetail'', ''queueMs'', ''elapsedMs'', ''persisted'', ''status'',
     ''priorStatus'', ''discoveredModels'', ''latencyMs'', ''error'', ''virtual'',
     ''aliasId'', ''availableCandidates'', ''candidateCount'', ''alarm'', ''chart'',
     ''value'', ''units'', ''netdata.alarm.name'', ''netdata.chart'',
     ''netdata.status'', ''netdata.old_status'', ''netdata.value'', ''netdata.units'',
     ''netdata.family'', ''netdata.class'', ''netdata.component'', ''netdata.recipient'']"

fun visible_item :: "nat \<Rightarrow> string \<Rightarrow> pyval \<Rightarrow> dict" where
  "visible_item limit key (PBool b) = [(key, PBool b)]"
| "visible_item limit key (PInt i) = [(key, PInt i)]"
| "visible_item limit key (PFloat r) = [(key, PFloat r)]"
| "visible_item limit key (PStr s) = [(key, PStr (take limit s))]"
| "visible_item limit key _ = []"

definition visible_attributes :: "pyval \<Rightarrow> nat \<Rightarrow> dict" where
  "visible_attributes value limit =
     (case value of
        PDict d \<Rightarrow> concat (map (\<lambda>key. visible_item limit key (dict_get d key)) visible_keys)
      | _ \<Rightarrow> [])"

text \<open>The text form, cut at \<open>max_chars\<close>, and at its default.\<close>

definition attribute_text :: "pyval \<Rightarrow> nat \<Rightarrow> string" where
  "attribute_text value max_chars =
     take max_chars (join '' '' (map (\<lambda>(key, item). key @ ''='' @ scalar_text item) (visible_attributes value 512)))"

definition attribute_context :: "pyval \<Rightarrow> string" where
  "attribute_context value = attribute_text value 4096"

lemma visible_item_cases:
  "visible_item n k v = [] \<or> (\<exists>w. visible_item n k v = [(k, w)]
     \<and> (w = v \<or> (\<exists>s. v = PStr s \<and> w = PStr (take n s))))"
  by (cases v) auto

text \<open>What is exposed is an allowlisted key with a scalar value of the input, its text cut.\<close>

lemma visible_attributes_allowed:
  assumes "(k, w) \<in> set (visible_attributes (PDict d) n)"
  shows "k \<in> set visible_keys \<and> (\<forall>s. w = PStr s \<longrightarrow> length s \<le> n)
    \<and> (\<forall>xs. w \<noteq> PList xs) \<and> (\<forall>e. w \<noteq> PDict e) \<and> w \<noteq> PNone"
proof -
  obtain key where key: "key \<in> set visible_keys" "(k, w) \<in> set (visible_item n key (dict_get d key))"
    using assms by (auto simp: visible_attributes_def)
  then show ?thesis by (cases "dict_get d key") auto
qed

definition hidden_same :: "dict \<Rightarrow> dict \<Rightarrow> bool" where
  "hidden_same d d' = (\<forall>k \<in> set visible_keys. dict_get d k = dict_get d' k)"

text \<open>
  C10. Secrets stay out of the projection. The text that rules, seeds and follow-ups see
  depends on the allowlisted attributes alone: two attribute objects that agree on those give
  the same text whatever else they hold, every exposed entry has an allowlisted key and a scalar
  value of at most 512 characters, and the text is at most 4096 characters.
\<close>

theorem attribute_context_noninterference:
  assumes "hidden_same d d'"
  shows "attribute_context (PDict d) = attribute_context (PDict d') \<and> length (attribute_context (PDict d)) \<le> 4096
    \<and> (\<forall>(k, w) \<in> set (visible_attributes (PDict d) 512).
         k \<in> set visible_keys \<and> (\<forall>s. w = PStr s \<longrightarrow> length s \<le> 512)
         \<and> (\<forall>xs. w \<noteq> PList xs) \<and> (\<forall>e. w \<noteq> PDict e))"
proof -
  have "visible_attributes (PDict d) 512 = visible_attributes (PDict d') 512"
    using assms by (simp add: visible_attributes_def hidden_same_def cong: map_cong)
  then have "attribute_context (PDict d) = attribute_context (PDict d')"
    by (simp only: attribute_context_def attribute_text_def)
  moreover have "length (attribute_context (PDict d)) \<le> 4096" by (simp add: attribute_context_def attribute_text_def)
  ultimately show ?thesis using visible_attributes_allowed[of _ _ d 512] by blast
qed

theorem attribute_context_noninterference_witness:
  "attribute_context (PDict [(''token'', PStr ''s3cret''), (''status'', PInt 5)])
     = attribute_context (PDict [(''status'', PInt 5)])
   \<and> attribute_context (PDict [(''status'', PInt 5)]) = ''status=5''"
proof
  have "hidden_same [(''token'', PStr ''s3cret''), (''status'', PInt 5)] [(''status'', PInt 5)]" by code_simp
  from attribute_context_noninterference[OF this]
  show "attribute_context (PDict [(''token'', PStr ''s3cret''), (''status'', PInt 5)])
     = attribute_context (PDict [(''status'', PInt 5)])" by blast
  show "attribute_context (PDict [(''status'', PInt 5)]) = ''status=5''" by code_simp
qed

end
