(* ===== verification/Filters.thy ===== *)
theory Filters
  imports Store
begin

text \<open>
  \<open>ringdown/filters.py\<close>: validation of ingress filters, the compiled filter set the collector
  matches every event against, and the SQL predicate that previews and purges history.

  RE2 and PostgreSQL's regular expressions are outside: a compiled RE2 pattern is its text and
  case flag, and the two engines' verdicts are parameters.
\<close>

section \<open>The regular expression engines\<close>

text \<open>\<open>re2_error\<close> is the message of a pattern RE2 refuses; \<open>re2_search\<close> is \<open>search\<close>.\<close>

record engine =
  re2_error :: "bool \<Rightarrow> string \<Rightarrow> string option"
  re2_search :: "bool \<Rightarrow> string \<Rightarrow> string \<Rightarrow> bool"
  pg_regex :: "bool \<Rightarrow> string \<Rightarrow> string \<Rightarrow> bool"

record regex =
  rx_pattern :: string
  rx_case :: bool

definition invalid :: "string \<Rightarrow> exn + 'a" where
  "invalid msg = Inl (Exn ''FilterValidationError'' msg)"

definition compile_regex :: "engine \<Rightarrow> string \<Rightarrow> bool \<Rightarrow> exn + regex" where
  "compile_regex R pattern case_sensitive =
     (case re2_error R case_sensitive pattern of
        Some msg \<Rightarrow> invalid (''invalid RE2 pattern: '' @ msg)
      | None \<Rightarrow> Inr \<lparr>rx_pattern = pattern, rx_case = case_sensitive\<rparr>)"

definition search :: "engine \<Rightarrow> regex \<Rightarrow> string \<Rightarrow> bool" where
  "search R rx s = re2_search R (rx_case rx) (rx_pattern rx) s"

section \<open>Validation\<close>

definition text_arg :: "pyval \<Rightarrow> string \<Rightarrow> exn + string" where
  "text_arg value field =
     (case value of PNone \<Rightarrow> Inr [] | PStr s \<Rightarrow> Inr (strip s) | _ \<Rightarrow> invalid (field @ '' must be text.''))"

definition clean_glob :: "pyval \<Rightarrow> string \<Rightarrow> exn + string" where
  "clean_glob value field =
     (case text_arg value field of
        Inl e \<Rightarrow> Inl e
      | Inr v \<Rightarrow>
        if length v > 255 then invalid (field @ '' is too long ('' @ int_text (int (length v)) @ '' > 255).'')
        else if CHR '','' \<in> set v
        then invalid (field @ '' is one glob, not a comma-separated list; create separate filters instead.'')
        else if list_ex is_space v then invalid (field @ '' cannot contain whitespace.'')
        else if CHR ''['' \<in> set v \<or> CHR '']'' \<in> set v
        then invalid (field @ '' supports only '' @ [CHR 0x27] @ ''*'' @ [CHR 0x27] @ '' and '' @ [CHR 0x27]
                      @ ''?'' @ [CHR 0x27] @ '' wildcards.'')
        else Inr v)"

text \<open>
  \<open>int(s)\<close> of a string: blanks around, a sign, digits with single underscores between them.
\<close>

fun int_digits :: "bool \<Rightarrow> nat \<Rightarrow> string \<Rightarrow> nat option" where
  "int_digits fresh acc [] = (if fresh then None else Some acc)"
| "int_digits fresh acc (c # cs) =
     (if is_digit c then int_digits False (acc * 10 + (code_point c - 48)) cs
      else if c = CHR ''_'' \<and> \<not> fresh then int_digits True acc cs
      else None)"

definition parse_int :: "string \<Rightarrow> int option" where
  "parse_int s =
     (case strip s of
        [] \<Rightarrow> None
      | c # cs \<Rightarrow>
        if c = CHR ''-'' then map_option (\<lambda>n. - int n) (int_digits True 0 cs)
        else if c = CHR ''+'' then map_option int (int_digits True 0 cs)
        else map_option int (int_digits True 0 (c # cs)))"

text \<open>
  \<open>int\<close> of a float given by its \<open>repr\<close>, as far as the order needs it: an exponent is negative below
  one ten-thousandth and positive from 1e16, which is out of every range here.
\<close>

definition float_whole :: "string \<Rightarrow> exn + int" where
  "float_whole r =
     (if r \<in> {''inf'', ''-inf''} then Inl (Exn ''OverflowError'' ''cannot convert float infinity to integer'')
      else if r = ''nan'' then Inl (Exn ''ValueError'' ''cannot convert float NaN to integer'')
      else if CHR ''e'' \<in> set r
      then Inr (if hd (tl (dropWhile (\<lambda>c. c \<noteq> CHR ''e'') r)) = CHR ''-'' then 0 else if hd r = CHR ''-'' then - (10 ^ 16) else 10 ^ 16)
      else (case parse_int (takeWhile (\<lambda>c. c \<noteq> CHR ''.'') r) of
              None \<Rightarrow> Inl (Exn ''ValueError'' ''invalid literal'') | Some i \<Rightarrow> Inr i))"

text \<open>
  The order argument: an integer, its text or a float (a \<open>bool\<close> is refused before \<open>int\<close> is tried; the
  error of an infinite float is not caught).
\<close>

definition order_int :: "pyval \<Rightarrow> exn + int" where
  "order_int v =
     (case v of
        PInt i \<Rightarrow> Inr i
      | PStr s \<Rightarrow> (case parse_int s of None \<Rightarrow> Inl (Exn ''ValueError'' ''invalid literal'') | Some i \<Rightarrow> Inr i)
      | PFloat r \<Rightarrow> float_whole r
      | _ \<Rightarrow> Inl (Exn ''TypeError'' ''int''))"

definition order_arg :: "pyval \<Rightarrow> exn + int" where
  "order_arg v =
     (case order_int v of
        Inl e \<Rightarrow> if exn_type e = ''OverflowError'' then Inl e else invalid ''filter_order must be an integer.''
      | Inr i \<Rightarrow> if 0 \<le> i \<and> i \<le> 1000000 then Inr i
                  else invalid ''filter_order must be between 0 and 1000000.'')"

record raw_spec =
  raw_name :: pyval
  raw_match_type :: pyval
  raw_pattern :: pyval
  raw_source_glob :: pyval
  raw_program_glob :: pyval
  raw_case :: pyval
  raw_order :: pyval

record filter_spec =
  fs_name :: string
  fs_match_type :: string
  fs_pattern :: string
  fs_source_glob :: string
  fs_program_glob :: string
  fs_case :: bool
  fs_order :: int

definition bind_sum :: "('e + 'a) \<Rightarrow> ('a \<Rightarrow> 'e + 'b) \<Rightarrow> 'e + 'b" where
  "bind_sum r f = (case r of Inl e \<Rightarrow> Inl e | Inr x \<Rightarrow> f x)"

lemma bind_sum_Inr [simp]: "bind_sum r f = Inr y \<longleftrightarrow> (\<exists>x. r = Inr x \<and> f x = Inr y)"
  by (cases r) (simp_all add: bind_sum_def)

lemma bind_sum_simps [simp]: "bind_sum (Inl e) f = Inl e" "bind_sum (Inr x) f = f x"
  by (simp_all add: bind_sum_def)

definition guard :: "bool \<Rightarrow> string \<Rightarrow> exn + unit" where
  "guard ok msg = (if ok then Inr () else invalid msg)"

lemma guard_Inr [simp]: "guard ok msg = Inr u \<longleftrightarrow> ok"
  by (simp add: guard_def invalid_def)

definition validate_filter_spec :: "engine \<Rightarrow> raw_spec \<Rightarrow> exn + filter_spec" where
  "validate_filter_spec R raw =
     bind_sum (text_arg (raw_name raw) ''name'') (\<lambda>name.
     bind_sum (text_arg (raw_match_type raw) ''match_type'') (\<lambda>mt.
     bind_sum (text_arg (raw_pattern raw) ''pattern'') (\<lambda>pattern.
     let match_type = py_lower mt in
     bind_sum (case raw_case raw of PBool b \<Rightarrow> Inr b | _ \<Rightarrow> invalid ''case_sensitive must be a boolean.'') (\<lambda>cs.
     bind_sum (guard (name \<noteq> []) ''name is required.'') (\<lambda>_.
     bind_sum (guard (length name \<le> 120) (''name is too long ('' @ int_text (int (length name)) @ '' > 120).'')) (\<lambda>_.
     bind_sum (guard (match_type = ''substring'' \<or> match_type = ''regex'')
       (''match_type must be '' @ [CHR 0x27] @ ''substring'' @ [CHR 0x27] @ '' or '' @ [CHR 0x27] @ ''regex'' @ [CHR 0x27] @ ''.'')) (\<lambda>_.
     bind_sum (guard (pattern \<noteq> []) ''pattern is required.'') (\<lambda>_.
     bind_sum (guard (length pattern \<le> 512)
       (''pattern is too long ('' @ int_text (int (length pattern)) @ '' > 512).'')) (\<lambda>_.
     bind_sum (order_arg (raw_order raw)) (\<lambda>ord.
     bind_sum (clean_glob (raw_source_glob raw) ''source_glob'') (\<lambda>source_glob.
     bind_sum (clean_glob (raw_program_glob raw) ''program_glob'') (\<lambda>program_glob.
     bind_sum (if match_type = ''regex'' then bind_sum (compile_regex R pattern cs) (\<lambda>_. Inr ()) else Inr ()) (\<lambda>_.
     Inr \<lparr>fs_name = name, fs_match_type = match_type, fs_pattern = pattern,
          fs_source_glob = source_glob, fs_program_glob = program_glob,
          fs_case = cs, fs_order = ord\<rparr>)))))))))))))"

section \<open>Compiled filters\<close>

text \<open>A row of \<open>ingress_filters\<close>; the two globs may be null.\<close>

record filter_row =
  fr_id :: id
  fr_name :: string
  fr_match_type :: string
  fr_pattern :: string
  fr_source_glob :: "string option"
  fr_program_glob :: "string option"
  fr_case :: bool
  fr_order :: int
  fr_enabled :: bool

record ingress_filter =
  if_id :: id
  if_name :: string
  if_match_type :: string
  if_pattern :: string
  if_source_glob :: string
  if_program_glob :: string
  if_case :: bool
  if_order :: int
  if_regex :: "regex option"

definition from_row :: "engine \<Rightarrow> filter_row \<Rightarrow> exn + ingress_filter" where
  "from_row R row =
     bind_sum (if fr_match_type row = ''regex''
               then bind_sum (compile_regex R (fr_pattern row) (fr_case row)) (\<lambda>rx. Inr (Some rx))
               else Inr None) (\<lambda>rx.
     Inr \<lparr>if_id = fr_id row, if_name = fr_name row, if_match_type = fr_match_type row,
          if_pattern = fr_pattern row, if_source_glob = or_else (fr_source_glob row) [],
          if_program_glob = or_else (fr_program_glob row) [], if_case = fr_case row,
          if_order = fr_order row, if_regex = rx\<rparr>)"

definition filter_matches :: "engine \<Rightarrow> ingress_filter \<Rightarrow> event \<Rightarrow> bool" where
  "filter_matches R f ev =
     (let source = or_else (ev_source ev) []; program = or_else (ev_program ev) [];
          body = or_else (ev_body ev) []
      in if if_source_glob f \<noteq> [] \<and> \<not> fnmatchcase source (if_source_glob f) then False
         else if if_program_glob f \<noteq> [] \<and> \<not> fnmatchcase program (if_program_glob f) then False
         else if if_match_type f = ''regex''
         then (case if_regex f of Some rx \<Rightarrow> search R rx body | None \<Rightarrow> False)
         else if if_case f then contains (if_pattern f) body
         else contains (py_casefold (if_pattern f)) (py_casefold body))"

text \<open>\<open>IngressFilterSet\<close>: the compiled filters and the rows that could not be compiled.\<close>

record filter_set =
  set_filters :: "ingress_filter list"
  set_rejected :: "string list"

definition row_order :: "filter_row \<Rightarrow> int \<times> int" where
  "row_order row = (fr_order row, fr_id row)"

definition enabled_rows :: "filter_row list \<Rightarrow> filter_row list" where
  "enabled_rows rows = sort_key fr_order (sort_key fr_id (filter fr_enabled rows))"

fun compile_rows :: "engine \<Rightarrow> filter_row list \<Rightarrow> filter_set" where
  "compile_rows R [] = \<lparr>set_filters = [], set_rejected = []\<rparr>"
| "compile_rows R (row # rows) =
     (let rest = compile_rows R rows in
      case from_row R row of
        Inr f \<Rightarrow> rest\<lparr>set_filters := f # set_filters rest\<rparr>
      | Inl e \<Rightarrow> rest\<lparr>set_rejected := (''filter '' @ int_text (fr_id row) @ '' ('' @ fr_name row @ ''): '' @ exn_msg e)
                        # set_rejected rest\<rparr>)"

definition reload_filters :: "engine \<Rightarrow> filter_row list \<Rightarrow> filter_set" where
  "reload_filters R table = compile_rows R (enabled_rows table)"

definition match_event :: "engine \<Rightarrow> filter_set \<Rightarrow> event \<Rightarrow> ingress_filter option" where
  "match_event R fs ev = List.find (\<lambda>f. filter_matches R f ev) (set_filters fs)"

text \<open>A \<open>Counter\<close> keyed by filter and source, as its items in order of first count.\<close>

type_synonym counter = "((id \<times> string) \<times> nat) list"

fun count_up :: "id \<times> string \<Rightarrow> counter \<Rightarrow> counter" where
  "count_up k [] = [(k, 1)]"
| "count_up k ((k', n) # c) = (if k' = k then (k', n + 1) # c else (k', n) # count_up k c)"

fun partition_from :: "engine \<Rightarrow> filter_set \<Rightarrow> event list \<Rightarrow> event list \<times> counter \<Rightarrow> event list \<times> counter" where
  "partition_from R fs [] acc = acc"
| "partition_from R fs (ev # evs) (accepted, dropped) =
     (case match_event R fs ev of
        None \<Rightarrow> partition_from R fs evs (accepted @ [ev], dropped)
      | Some f \<Rightarrow> partition_from R fs evs (accepted, count_up (if_id f, or_else (ev_source ev) ''?'') dropped))"

definition partition_events :: "engine \<Rightarrow> filter_set \<Rightarrow> event list \<Rightarrow> event list \<times> counter" where
  "partition_events R fs evs = partition_from R fs evs ([], [])"

section \<open>The historical predicate\<close>

text \<open>SQL \<open>LIKE\<close> with backslash as the escape character.\<close>

fun like_match :: "string \<Rightarrow> string \<Rightarrow> bool" where
  "like_match [] s = (s = [])"
| "like_match (p # ps) s =
     (if p = CHR ''%'' then like_match ps s \<or> (case s of [] \<Rightarrow> False | _ # cs \<Rightarrow> like_match (p # ps) cs)
      else if p = CHR ''_'' then (case s of [] \<Rightarrow> False | _ # cs \<Rightarrow> like_match ps cs)
      else if p = CHR 0x5C then
        (case ps of [] \<Rightarrow> False
         | q # qs \<Rightarrow> (case s of [] \<Rightarrow> False | c # cs \<Rightarrow> c = q \<and> like_match qs cs))
      else (case s of [] \<Rightarrow> False | c # cs \<Rightarrow> c = p \<and> like_match ps cs))"

definition like_glob :: "string \<Rightarrow> string" where
  "like_glob v = replace_char CHR ''?'' ''_'' (replace_char CHR ''*'' ''%''
     (replace_char CHR ''_'' [CHR 0x5C, CHR ''_''] (replace_char CHR ''%'' [CHR 0x5C, CHR ''%'']
        (replace_char CHR 0x5C [CHR 0x5C, CHR 0x5C] v))))"

datatype clause = Strpos bool string | Regex bool string | Source_Like string | Program_Like string

definition raw_of_spec :: "filter_spec \<Rightarrow> raw_spec" where
  "raw_of_spec spec = \<lparr>raw_name = PStr (fs_name spec), raw_match_type = PStr (fs_match_type spec),
     raw_pattern = PStr (fs_pattern spec), raw_source_glob = PStr (fs_source_glob spec),
     raw_program_glob = PStr (fs_program_glob spec), raw_case = PBool (fs_case spec),
     raw_order = PInt (fs_order spec)\<rparr>"

text \<open>The \<open>AND\<close>ed clauses with their bound parameters.\<close>

definition historical_predicate :: "engine \<Rightarrow> filter_spec \<Rightarrow> exn + clause list" where
  "historical_predicate R spec =
     bind_sum (validate_filter_spec R (raw_of_spec spec)) (\<lambda>_. Inr (
       (if fs_match_type spec = ''substring'' then [Strpos (fs_case spec) (fs_pattern spec)]
        else [Regex (fs_case spec) (fs_pattern spec)])
       @ (if fs_source_glob spec \<noteq> [] then [Source_Like (like_glob (fs_source_glob spec))] else [])
       @ (if fs_program_glob spec \<noteq> [] then [Program_Like (like_glob (fs_program_glob spec))] else [])))"

text \<open>A row of the event spine; \<open>source\<close> and \<open>body\<close> are not null.\<close>

record event_row =
  er_id :: id
  er_ts :: time
  er_source :: string
  er_program :: "string option"
  er_body :: string

fun clause_holds :: "engine \<Rightarrow> event_row \<Rightarrow> clause \<Rightarrow> bool" where
  "clause_holds R e (Strpos True p) = contains p (er_body e)"
| "clause_holds R e (Strpos False p) = contains (py_lower p) (py_lower (er_body e))"
| "clause_holds R e (Regex cs p) = pg_regex R cs p (er_body e)"
| "clause_holds R e (Source_Like p) = like_match p (er_source e)"
| "clause_holds R e (Program_Like p) = like_match p (case er_program e of None \<Rightarrow> [] | Some x \<Rightarrow> x)"

definition row_selected :: "engine \<Rightarrow> clause list \<Rightarrow> event_row \<Rightarrow> bool" where
  "row_selected R cl e = list_all (clause_holds R e) cl"

definition clamp :: "int \<Rightarrow> int \<Rightarrow> int \<Rightarrow> int" where
  "clamp dflt hi n = min (max (if n = 0 then dflt else n) 1) hi"

text \<open>\<open>preview_filter\<close>: the count, the newest matches, the limit.\<close>

definition preview_filter ::
    "engine \<Rightarrow> event_row list \<Rightarrow> filter_spec \<Rightarrow> int \<Rightarrow> exn + (nat \<times> event_row list \<times> int)" where
  "preview_filter R events spec limit =
     bind_sum (historical_predicate R spec) (\<lambda>cl.
       let n = clamp 20 200 limit; hits = filter (row_selected R cl) events
       in Inr (length hits, take (nat n) (sort_key (\<lambda>e. - er_ts e) hits), n))"

text \<open>
  \<open>purge_filter\<close>: which rows a batch takes is the database's choice, made here by \<open>pick\<close>; a
  row is deleted by its key \<open>(id, ts)\<close>.
\<close>

definition purge_filter ::
    "engine \<Rightarrow> (nat \<Rightarrow> event_row list \<Rightarrow> event_row list) \<Rightarrow> event_row list \<Rightarrow> filter_spec \<Rightarrow> int
     \<Rightarrow> exn + (nat \<times> int \<times> bool \<times> event_row list)" where
  "purge_filter R pick events spec batch =
     bind_sum (historical_predicate R spec) (\<lambda>cl.
       let n = clamp 50000 100000 batch;
           doomed = pick (nat n) (filter (row_selected R cl) events);
           gone = (\<lambda>e. (er_id e, er_ts e) \<in> (\<lambda>d. (er_id d, er_ts d)) ` set doomed);
           deleted = length (filter gone events)
       in Inr (deleted, n, int deleted = n, delete_where gone events))"

section \<open>Validation keeps the table's checks\<close>

text \<open>The \<open>CHECK\<close> constraints of \<open>ingress_filters\<close>, and of \<open>_clean_glob\<close> on the globs.\<close>

definition glob_ok :: "string \<Rightarrow> bool" where
  "glob_ok v = (length v \<le> 255 \<and> (\<forall>c \<in> set v. c \<noteq> CHR '','' \<and> \<not> is_space c \<and> c \<noteq> CHR ''['' \<and> c \<noteq> CHR '']''))"

definition spec_ok :: "engine \<Rightarrow> filter_spec \<Rightarrow> bool" where
  "spec_ok R spec =
     (stripped (fs_name spec) \<and> 1 \<le> length (fs_name spec) \<and> length (fs_name spec) \<le> 120
      \<and> (fs_match_type spec = ''substring'' \<or> fs_match_type spec = ''regex'')
      \<and> stripped (fs_pattern spec) \<and> 1 \<le> length (fs_pattern spec) \<and> length (fs_pattern spec) \<le> 512
      \<and> glob_ok (fs_source_glob spec) \<and> glob_ok (fs_program_glob spec)
      \<and> 0 \<le> fs_order spec \<and> fs_order spec \<le> 1000000
      \<and> (fs_match_type spec = ''regex'' \<longrightarrow> re2_error R (fs_case spec) (fs_pattern spec) = None))"

lemma text_arg_Inr: "text_arg v f = Inr s \<Longrightarrow> stripped s"
  by (auto simp: text_arg_def invalid_def stripped_def[of "[]"] split: pyval.splits)

lemma no_space_stripped: "\<forall>c \<in> set v. \<not> is_space c \<Longrightarrow> stripped v"
  by (auto simp: stripped_def)

lemma clean_glob_Inr: "clean_glob v f = Inr g \<Longrightarrow> glob_ok g"
  by (auto simp: clean_glob_def invalid_def glob_ok_def list_ex_iff split: sum.splits if_splits)

lemma clean_glob_id: "glob_ok g \<Longrightarrow> clean_glob (PStr g) f = Inr g"
proof -
  assume g: "glob_ok g"
  then have "strip g = g" by (intro strip_id no_space_stripped) (simp add: glob_ok_def)
  then show ?thesis using g by (auto simp: clean_glob_def text_arg_def glob_ok_def list_ex_iff)
qed

lemma order_arg_Inr: "order_arg v = Inr i \<Longrightarrow> 0 \<le> i \<and> i \<le> 1000000"
  by (auto simp: order_arg_def invalid_def split: sum.splits if_splits)

lemma compile_regex_Inr: "compile_regex R p cs = Inr rx \<longleftrightarrow> re2_error R cs p = None \<and> rx = \<lparr>rx_pattern = p, rx_case = cs\<rparr>"
  by (auto simp: compile_regex_def invalid_def split: option.splits)

lemma validate_Inr:
  assumes "validate_filter_spec R raw = Inr spec" shows "spec_ok R spec"
proof -
  from assms obtain name mt pattern cs ord sg pg u where
    a: "text_arg (raw_name raw) ''name'' = Inr name" "text_arg (raw_pattern raw) ''pattern'' = Inr pattern"
      "name \<noteq> []" "length name \<le> 120" "py_lower mt = ''substring'' \<or> py_lower mt = ''regex''"
      "pattern \<noteq> []" "length pattern \<le> 512" "order_arg (raw_order raw) = Inr ord"
      "clean_glob (raw_source_glob raw) ''source_glob'' = Inr sg"
      "clean_glob (raw_program_glob raw) ''program_glob'' = Inr pg"
      "(if py_lower mt = ''regex'' then bind_sum (compile_regex R pattern cs) (\<lambda>_. Inr ()) else Inr ()) = Inr u"
    and s: "spec = \<lparr>fs_name = name, fs_match_type = py_lower mt, fs_pattern = pattern, fs_source_glob = sg,
        fs_program_glob = pg, fs_case = cs, fs_order = ord\<rparr>"
    unfolding validate_filter_spec_def Let_def bind_sum_Inr guard_Inr by blast
  show ?thesis
    using a(3-7) a(11) text_arg_Inr[OF a(1)] text_arg_Inr[OF a(2)] order_arg_Inr[OF a(8)]
      clean_glob_Inr[OF a(9)] clean_glob_Inr[OF a(10)]
    unfolding s spec_ok_def by (cases name; cases pattern) (auto simp: compile_regex_Inr split: if_splits)
qed

lemma lower_match_type: "m = ''substring'' \<or> m = ''regex'' \<Longrightarrow> py_lower m = m \<and> strip m = m"
  by (elim disjE; hypsubst; code_simp)

lemma text_arg_id: "stripped s \<Longrightarrow> text_arg (PStr s) f = Inr s"
  by (simp add: text_arg_def strip_id)

lemma validate_id:
  assumes "spec_ok R spec" shows "validate_filter_spec R (raw_of_spec spec) = Inr spec"
proof -
  note m = lower_match_type[of "fs_match_type spec"]
  have mt: "text_arg (PStr (fs_match_type spec)) f = Inr (fs_match_type spec)" "py_lower (fs_match_type spec) = fs_match_type spec" for f
    using assms m by (simp_all add: spec_ok_def text_arg_def)
  have g: "guard True msg = Inr ()" for msg by (simp add: guard_def)
  have "(if fs_match_type spec = ''regex'' then bind_sum (compile_regex R (fs_pattern spec) (fs_case spec)) (\<lambda>_. Inr ()) else Inr ()) = Inr ()"
    using assms by (simp add: spec_ok_def compile_regex_def)
  moreover have "fs_name spec \<noteq> []" "fs_pattern spec \<noteq> []" using assms by (auto simp: spec_ok_def)
  moreover have "order_arg (PInt (fs_order spec)) = Inr (fs_order spec)" using assms by (simp add: spec_ok_def order_arg_def order_int_def)
  ultimately show ?thesis
    using assms unfolding validate_filter_spec_def raw_of_spec_def
    by (simp add: mt text_arg_id clean_glob_id Let_def spec_ok_def g)
qed

text \<open>
  C11. Validation. What \<open>validate_filter_spec\<close> accepts satisfies every check of the table
  (lengths after trimming, the match types, the order's range, globs of \<open>*\<close> and \<open>?\<close> without
  blanks, commas or brackets) and a regular expression among it compiles; and validation is
  idempotent: the normalized definition validates to itself, so every write surface may repeat it.
\<close>

theorem validated_spec_is_storable:
  assumes "validate_filter_spec R raw = Inr spec"
  shows "spec_ok R spec \<and> validate_filter_spec R (raw_of_spec spec) = Inr spec"
  using validate_Inr[OF assms] validate_id by blast

definition demo_engine :: engine where
  "demo_engine = \<lparr>re2_error = (\<lambda>_ p. if p = ''('' then Some ''missing )'' else None),
     re2_search = (\<lambda>_ p s. contains p s), pg_regex = (\<lambda>_ p s. contains p s)\<rparr>"

definition demo_raw :: raw_spec where
  "demo_raw = \<lparr>raw_name = PStr ''  cron noise '', raw_match_type = PStr ''Substring'', raw_pattern = PStr ''CRON'',
     raw_source_glob = PStr ''web*'', raw_program_glob = PNone, raw_case = PBool True, raw_order = PStr ''1_0''\<rparr>"

definition demo_spec :: filter_spec where
  "demo_spec = \<lparr>fs_name = ''cron noise'', fs_match_type = ''substring'', fs_pattern = ''CRON'',
     fs_source_glob = ''web*'', fs_program_glob = [], fs_case = True, fs_order = 10\<rparr>"

lemma demo_validated: "validate_filter_spec demo_engine demo_raw = Inr demo_spec"
  by code_simp

theorem validated_spec_is_storable_witness:
  "spec_ok demo_engine demo_spec \<and> validate_filter_spec demo_engine (raw_of_spec demo_spec) = Inr demo_spec"
  using validated_spec_is_storable[OF demo_validated] .

section \<open>Globs and LIKE\<close>

definition like_char :: "char \<Rightarrow> string" where
  "like_char c = (if c = CHR 0x5C \<or> c = CHR ''%'' \<or> c = CHR ''_'' then [CHR 0x5C, c]
     else if c = CHR ''*'' then ''%'' else if c = CHR ''?'' then ''_'' else [c])"

lemma like_glob_chars: "like_glob v = concat (map like_char v)"
  by (induction v) (auto simp: like_glob_def like_char_def)

lemma like_star: "like_match (CHR ''%'' # ps) s = (\<exists>u v. s = u @ v \<and> like_match ps v)"
proof (induction s)
  case (Cons c s)
  show ?case
  proof
    assume "like_match (CHR ''%'' # ps) (c # s)"
    then consider "like_match ps (c # s)" | "like_match (CHR ''%'' # ps) s" by auto
    then show "\<exists>u v. c # s = u @ v \<and> like_match ps v"
    proof cases
      case 1
      have "c # s = [] @ (c # s)" by simp
      then show ?thesis using 1 by blast
    next
      case 2 with Cons obtain u v where uv: "s = u @ v" "like_match ps v" by blast
      then have "c # s = (c # u) @ v" by simp
      with uv show ?thesis by blast
    qed
  next
    assume "\<exists>u v. c # s = u @ v \<and> like_match ps v"
    then obtain u v where uv: "c # s = u @ v" "like_match ps v" by blast
    then show "like_match (CHR ''%'' # ps) (c # s)" using Cons by (cases u) auto
  qed
qed simp

lemma like_escape:
  "like_match (CHR 0x5C # c # ps) s = (case s of [] \<Rightarrow> False | a # cs \<Rightarrow> a = c \<and> like_match ps cs)"
  by (cases s) simp_all

lemma like_plain:
  "c \<noteq> CHR 0x5C \<Longrightarrow> c \<noteq> CHR ''%'' \<Longrightarrow> c \<noteq> CHR ''_'' \<Longrightarrow>
     like_match (c # ps) s = (case s of [] \<Rightarrow> False | a # cs \<Rightarrow> a = c \<and> like_match ps cs)"
  by (cases s) simp_all

lemma toks_star: "toks_match (GStar # ts) s = (\<exists>u v. s = u @ v \<and> toks_match ts v)"
proof (induction s)
  case (Cons c s)
  show ?case
  proof
    assume "toks_match (GStar # ts) (c # s)"
    then consider "toks_match ts (c # s)" | "toks_match (GStar # ts) s" by auto
    then show "\<exists>u v. c # s = u @ v \<and> toks_match ts v"
    proof cases
      case 1
      have "c # s = [] @ (c # s)" by simp
      then show ?thesis using 1 by blast
    next
      case 2 with Cons obtain u v where uv: "s = u @ v" "toks_match ts v" by blast
      then have "c # s = (c # u) @ v" by simp
      with uv show ?thesis by blast
    qed
  next
    assume "\<exists>u v. c # s = u @ v \<and> toks_match ts v"
    then obtain u v where uv: "c # s = u @ v" "toks_match ts v" by blast
    then show "toks_match (GStar # ts) (c # s)" using Cons by (cases u) auto
  qed
qed simp

lemma like_glob_iff:
  assumes "CHR ''['' \<notin> set v" shows "like_match (like_glob v) s = fnmatchcase s v"
  using assms unfolding like_glob_chars fnmatchcase_def
proof (induction v arbitrary: s)
  case (Cons c v)
  have IH: "like_match (concat (map like_char v)) t = toks_match (glob_tokens v) t" for t
    using Cons by simp
  consider (star) "c = CHR ''*''" | (any) "c = CHR ''?''" | (lit) "c \<noteq> CHR ''*''" "c \<noteq> CHR ''?''" by blast
  then show ?case
  proof cases
    case star
    moreover have "like_char CHR ''*'' = ''%''" by (simp add: like_char_def)
    ultimately show ?thesis by (simp add: like_star toks_star IH del: like_match.simps toks_match.simps)
  next
    case any
    moreover have "like_char CHR ''?'' = ''_''" by (simp add: like_char_def)
    ultimately show ?thesis by (cases s) (simp_all add: IH)
  next
    case lit
    then have g: "glob_tokens (c # v) = GLit c # glob_tokens v" using Cons.prems by auto
    consider (esc) "like_char c = [CHR 0x5C, c]"
      | (plain) "like_char c = [c]" "c \<noteq> CHR 0x5C" "c \<noteq> CHR ''%''" "c \<noteq> CHR ''_''"
      using lit by (cases "c = CHR 0x5C \<or> c = CHR ''%'' \<or> c = CHR ''_''") (simp_all add: like_char_def)
    then show ?thesis
    proof cases
      case esc
      then show ?thesis by (cases s) (auto simp: g like_escape IH simp del: like_match.simps glob_tokens.simps)
    next
      case plain
      then show ?thesis by (cases s) (auto simp: g like_plain IH simp del: like_match.simps glob_tokens.simps)
    qed
  qed
qed simp

section \<open>Live and historical matching\<close>

definition event_of_row :: "event_row \<Rightarrow> event" where
  "event_of_row e = no_event\<lparr>ev_ts := Ts_Time (er_ts e), ev_source := Some (er_source e),
     ev_program := er_program e, ev_body := Some (er_body e)\<rparr>"

text \<open>The compiled form of a spec, as a stored row of it would load.\<close>

definition row_of_spec :: "id \<Rightarrow> filter_spec \<Rightarrow> filter_row" where
  "row_of_spec n spec = \<lparr>fr_id = n, fr_name = fs_name spec, fr_match_type = fs_match_type spec,
     fr_pattern = fs_pattern spec, fr_source_glob = Some (fs_source_glob spec),
     fr_program_glob = Some (fs_program_glob spec), fr_case = fs_case spec, fr_order = fs_order spec,
     fr_enabled = True\<rparr>"

lemma or_else_id [simp]: "or_else (Some s) [] = s"
  by (cases s) simp_all

lemma or_else_none_nil: "or_else x [] = (case x of None \<Rightarrow> [] | Some s \<Rightarrow> s)"
  by (cases x) simp_all

lemma casefold_prefix: "list_all ascii s \<Longrightarrow> list_all ascii p \<Longrightarrow>
    contains (py_casefold p) (py_casefold s) = contains (py_lower p) (py_lower s)"
  by (simp add: casefold_ascii)


definition demo_row :: event_row where
  "demo_row = \<lparr>er_id = 1, er_ts = 0, er_source = ''web1'', er_program = None, er_body = ''CRON job''\<rparr>"


definition fold_spec :: filter_spec where
  "fold_spec = \<lparr>fs_name = ''street'', fs_match_type = ''substring'', fs_pattern = ''strasse'',
     fs_source_glob = [], fs_program_glob = [], fs_case = False, fs_order = 10\<rparr>"

definition fold_row :: event_row where
  "fold_row = \<lparr>er_id = 1, er_ts = 0, er_source = ''web1'', er_program = None, er_body = ''stra'' @ [char_of (223 :: nat)] @ ''e''\<rparr>"

text \<open>
  Where they differ. A case-insensitive filter with the pattern \<open>strasse\<close> drops an event
  whose body spells it with a sharp s, but the predicate that previews and purges history does
  not select the same event.
\<close>

theorem preview_misses_casefolded_match:
  "case (from_row demo_engine (row_of_spec 1 fold_spec), historical_predicate demo_engine fold_spec) of
     (Inr f, Inr clauses) \<Rightarrow> filter_matches demo_engine f (event_of_row fold_row)
       \<and> \<not> row_selected demo_engine clauses fold_row
   | _ \<Rightarrow> False"
  by code_simp

section \<open>Partitioning a batch\<close>

lemma count_up_total: "sum_list (map snd (count_up k c)) = Suc (sum_list (map snd c))"
  by (induction k c rule: count_up.induct) auto

definition tally :: "counter \<Rightarrow> id \<times> string \<Rightarrow> nat" where
  "tally c k = (case map_of c k of None \<Rightarrow> 0 | Some n \<Rightarrow> n)"

lemma tally_count_up: "tally (count_up k c) k' = tally c k' + (if k' = k then 1 else 0)"
proof (induction k c rule: count_up.induct)
  case (2 k k1 n c)
  then show ?case by (cases "k1 = k"; cases "k' = k1"; cases "k' = k") (simp_all add: tally_def)
qed (simp add: tally_def)

lemma count_up_keys: "fst ` set (count_up k c) = insert k (fst ` set c)"
  by (induction k c rule: count_up.induct) auto

lemma count_up_distinct: "distinct (map fst c) \<Longrightarrow> distinct (map fst (count_up k c))"
proof (induction k c rule: count_up.induct)
  case (2 k k1 n c)
  then show ?case using count_up_keys[of k c] by (cases "k1 = k") (auto simp flip: set_map)
qed simp

definition charge :: "engine \<Rightarrow> filter_set \<Rightarrow> event \<Rightarrow> (id \<times> string) option" where
  "charge R fs ev = map_option (\<lambda>f. (if_id f, or_else (ev_source ev) ''?'')) (match_event R fs ev)"

lemma partition_from_spec:
  assumes "distinct (map fst dropped)" "partition_from R fs evs (accepted, dropped) = (acc', drop')"
  shows "acc' = accepted @ filter (\<lambda>ev. match_event R fs ev = None) evs \<and> distinct (map fst drop')
    \<and> (\<forall>k. tally drop' k = tally dropped k + length (filter (\<lambda>ev. charge R fs ev = Some k) evs))
    \<and> sum_list (map snd drop') = sum_list (map snd dropped) + length (filter (\<lambda>ev. match_event R fs ev \<noteq> None) evs)"
  using assms
proof (induction evs arbitrary: accepted dropped)
  case Nil then show ?case by simp
next
  case (Cons ev evs)
  show ?case
  proof (cases "match_event R fs ev")
    case None
    then show ?thesis using Cons.IH[of dropped "accepted @ [ev]"] Cons.prems by (simp add: charge_def)
  next
    case (Some f)
    let ?k = "(if_id f, or_else (ev_source ev) ''?'')"
    have d: "distinct (map fst (count_up ?k dropped))" using Cons.prems(1) by (rule count_up_distinct)
    show ?thesis
      using Cons.IH[OF d, of accepted] Cons.prems Some
      by (auto simp: tally_count_up count_up_total charge_def)
  qed
qed

text \<open>
  Filtering a batch. No event is lost or duplicated and order is kept: what is accepted is
  the batch without the events some enabled filter matches; each of the others is counted once,
  for the first filter in the set's order that matches it and for its source; and the counts
  together with the accepted events make up the batch.
\<close>

theorem partition_conserves_events:
  assumes "partition_events R fs evs = (accepted, dropped)"
  shows "accepted = filter (\<lambda>ev. match_event R fs ev = None) evs
    \<and> (\<forall>k. tally dropped k = length (filter (\<lambda>ev. charge R fs ev = Some k) evs))
    \<and> length accepted + sum_list (map snd dropped) = length evs
    \<and> (\<forall>ev f. match_event R fs ev = Some f \<longrightarrow>
         (\<exists>before after. set_filters fs = before @ f # after \<and> filter_matches R f ev
            \<and> (\<forall>g \<in> set before. \<not> filter_matches R g ev)))"
proof -
  have s: "accepted = filter (\<lambda>ev. match_event R fs ev = None) evs"
      "\<forall>k. tally dropped k = length (filter (\<lambda>ev. charge R fs ev = Some k) evs)"
      "sum_list (map snd dropped) = length (filter (\<lambda>ev. match_event R fs ev \<noteq> None) evs)"
    using partition_from_spec[of "[]" R fs evs "[]" accepted dropped] assms
    by (simp_all add: partition_events_def tally_def)
  have first: "\<exists>before after. set_filters fs = before @ f # after \<and> filter_matches R f ev
            \<and> (\<forall>g \<in> set before. \<not> filter_matches R g ev)" if found: "match_event R fs ev = Some f" for ev f
  proof -
    obtain i where i: "i < length (set_filters fs)" "filter_matches R f ev" "f = set_filters fs ! i"
      "\<forall>j < i. \<not> filter_matches R (set_filters fs ! j) ev"
      using found unfolding match_event_def find_Some_iff by blast
    have "set_filters fs = take i (set_filters fs) @ f # drop (Suc i) (set_filters fs)"
      using i by (simp add: id_take_nth_drop)
    moreover have "\<forall>g \<in> set (take i (set_filters fs)). \<not> filter_matches R g ev"
      using i by (auto simp: in_set_conv_nth)
    ultimately show ?thesis using i(2) by blast
  qed
  have "length accepted + sum_list (map snd dropped) = length evs"
    using s(1,3) sum_length_filter_compl[of "\<lambda>ev. match_event R fs ev = None" evs] by simp
  then show ?thesis using s(1,2) first by blast
qed

definition demo_filter_table :: "filter_row list" where
  "demo_filter_table = [row_of_spec 7 demo_spec]"

theorem partition_conserves_events_witness:
  "fst (partition_events demo_engine (reload_filters demo_engine demo_filter_table) [event_of_row demo_row, no_event]) = [no_event]"
proof -
  let ?fs = "reload_filters demo_engine demo_filter_table"
  obtain a d where p: "partition_events demo_engine ?fs [event_of_row demo_row, no_event] = (a, d)" by fastforce
  have "match_event demo_engine ?fs (event_of_row demo_row) \<noteq> None" by code_simp
  moreover have "match_event demo_engine ?fs no_event = None" by code_simp
  ultimately have "a = [no_event]" using partition_conserves_events[OF p] by simp
  then show ?thesis using p by simp
qed

section \<open>Preview and purge\<close>

text \<open>
  A purge is bounded and deletes only matches. Whatever rows of the selection the database
  takes for the batch, as long as it takes at most the limit and row keys are unique: at most
  \<open>MAX_PURGE_BATCH\<close> rows go, every row that goes is selected by the predicate, the others stay
  in place, the count is exact, and the limit is reported as reached exactly when the batch was
  full.
\<close>

theorem purge_is_bounded_and_selective:
  assumes "purge_filter R pick events spec batch = Inr (deleted, n, full, rest)"
    and "historical_predicate R spec = Inr clauses"
    and "\<And>k xs. set (pick k xs) \<subseteq> set xs \<and> length (pick k xs) \<le> k \<and> (distinct xs \<longrightarrow> distinct (pick k xs))"
    and "distinct (map (\<lambda>e. (er_id e, er_ts e)) events)"
  shows "int deleted \<le> n \<and> 1 \<le> n \<and> n \<le> 100000 \<and> full = (int deleted = n)
    \<and> length rest + deleted = length events
    \<and> (\<exists>gone. rest = filter (\<lambda>e. \<not> gone e) events \<and> (\<forall>e \<in> set events. gone e \<longrightarrow> row_selected R clauses e))"
proof -
  let ?k = "\<lambda>e. (er_id e, er_ts e)"
  define doomed where "doomed = pick (nat n) (filter (row_selected R clauses) events)"
  define gone where "gone = (\<lambda>e :: event_row. ?k e \<in> ?k ` set doomed)"
  have e: "n = clamp 50000 100000 batch" "deleted = length (filter gone events)" "full = (int deleted = n)"
    "rest = delete_where gone events"
    using assms(1) unfolding purge_filter_def assms(2) by (auto simp: Let_def doomed_def gone_def)
  have n: "1 \<le> n" "n \<le> 100000" by (auto simp: e(1) clamp_def)
  have inj: "inj_on ?k (set events)" and dist: "distinct events" using assms(4) by (simp_all add: distinct_map)
  have sub: "set doomed \<subseteq> {e \<in> set events. row_selected R clauses e}"
    using assms(3)[of "nat n" "filter (row_selected R clauses) events"] by (auto simp: doomed_def)
  have mem: "gone e \<longleftrightarrow> e \<in> set doomed" if "e \<in> set events" for e
  proof
    assume "gone e"
    then obtain d where d: "d \<in> set doomed" "?k e = ?k d" by (auto simp: gone_def)
    then have "e = d" using sub that by (intro inj_onD[OF inj]) auto
    then show "e \<in> set doomed" using d by simp
  qed (simp add: gone_def)
  have "set (filter gone events) = set doomed" using mem sub by auto
  then have "deleted \<le> length doomed"
    using dist by (metis card_length distinct_card distinct_filter e(2))
  also have "\<dots> \<le> nat n" using assms(3) by (simp add: doomed_def)
  finally have b: "int deleted \<le> n" using n by simp
  have len: "length rest + deleted = length events"
    unfolding e(2,4) delete_where_def using sum_length_filter_compl[of gone events] by simp
  show ?thesis using b n e(3,4) len mem sub unfolding delete_where_def by blast
qed

theorem purge_is_bounded_and_selective_witness:
  "\<exists>rest. purge_filter demo_engine (\<lambda>k xs. take k xs) [demo_row] demo_spec 0 = Inr (1, 50000, False, rest) \<and> length rest = 0"
proof -
  have h: "historical_predicate demo_engine demo_spec
      = Inr [Strpos True ''CRON'', Source_Like (like_glob ''web*'')]" by code_simp
  have sel: "row_selected demo_engine [Strpos True ''CRON'', Source_Like (like_glob ''web*'')] demo_row" by code_simp
  have p: "purge_filter demo_engine (\<lambda>k xs. take k xs) [demo_row] demo_spec 0 = Inr (1, 50000, False, [])"
    using sel by (simp add: purge_filter_def h Let_def clamp_def)
  have "length ([] :: event_row list) + 1 = length [demo_row]"
    using purge_is_bounded_and_selective[OF p h] set_take_subset by fastforce
  then show ?thesis using p by simp
qed

end
