(* ===== verification/Incidents.thy ===== *)
theory Incidents
  imports Agent_Queue_Effects
begin

text \<open>
  \<open>ringdown/incidents.py\<close>: the coordinator. A firing for one target is queued (stateful
  dispatchers) or sent at once with deduplication and a throttle (stateless ones); whatever goes
  wrong ends in a fallback push and a history row.
\<close>

section \<open>Configuration and helpers\<close>

record coord_config =
  reuse_ttl :: time
  feed_every :: time
  fallback_topic :: string

text \<open>An operation that may raise, followed by another on its result.\<close>

definition and_then :: "(exn + 'a) \<times> 's \<Rightarrow> ('a \<Rightarrow> 's \<Rightarrow> (exn + 'b) \<times> 's) \<Rightarrow> (exn + 'b) \<times> 's" where
  "and_then m f = (case m of (Inl e, s) \<Rightarrow> (Inl e, s) | (Inr x, s) \<Rightarrow> f x s)"

lemma and_then_simps [simp]:
  "and_then (Inl e, s) f = (Inl e, s)" "and_then (Inr x, s) f = f x s"
  by (simp_all add: and_then_def)

text \<open>A transaction that may break a constraint: then nothing of it stays.\<close>

definition try_db :: "(db \<Rightarrow> exn + db) \<Rightarrow> 'w qstate \<Rightarrow> (exn + unit) \<times> 'w qstate" where
  "try_db f s = (case f (q_db s) of Inl e \<Rightarrow> (Inl e, s) | Inr d \<Rightarrow> (Inr (), s\<lparr>q_db := d\<rparr>))"

definition refs_exist :: "db \<Rightarrow> id option \<Rightarrow> id option \<Rightarrow> bool" where
  "refs_exist d rid tid =
     ((case rid of None \<Rightarrow> True | Some r \<Rightarrow> find_rule d r \<noteq> None)
      \<and> (case tid of None \<Rightarrow> True | Some t \<Rightarrow> find_target d t \<noteq> None))"

definition incident_key :: "fire_context \<Rightarrow> target_info \<Rightarrow> string option \<Rightarrow> string" where
  "incident_key ctx target dedup_source =
     show_int (ri_id (fc_rule ctx)) @ '':'' @ show_int (ti_id target) @ '':''
     @ show_str (if or_else dedup_source [] \<noteq> [] then dedup_source else ev_source (fc_event ctx))"

section \<open>Persistence\<close>

definition history_row ::
    "time \<Rightarrow> fire_context \<Rightarrow> id option \<Rightarrow> string \<Rightarrow> string \<Rightarrow> string \<Rightarrow> string \<Rightarrow> id \<Rightarrow> alert_event_row" where
  "history_row t ctx tid key handle disposition detail n =
     \<lparr>ae_id = n, ae_rule_id = ri_id (fc_rule ctx), ae_target_id = tid, ae_fired_at = t,
      ae_source = ev_source (fc_event ctx), ae_summary = firing_summary ctx,
      ae_sample = [(''handle'', PStr handle), (''disposition'', PStr disposition), (''detail'', PStr detail),
                   (''line'', PStr (take 500 (or_else (ev_raw (fc_event ctx)) [])))],
      ae_key = Key_Text key, ae_notified = (disposition \<in> {''opened'', ''fed'', ''ntfy''}),
      ae_disposition = disposition\<rparr>"

definition recorded ::
    "time \<Rightarrow> fire_context \<Rightarrow> id option \<Rightarrow> string \<Rightarrow> string \<Rightarrow> string \<Rightarrow> string \<Rightarrow> db \<Rightarrow> db" where
  "recorded t ctx tid key handle disposition detail d =
     add_audit ''collector'' ''dispatch''
        [(''rule_id'', opt_int (ri_id (fc_rule ctx))), (''target_id'', opt_int tid),
         (''disposition'', PStr disposition), (''source'', opt_str (ev_source (fc_event ctx))),
         (''handle'', PStr handle), (''detail'', PStr (take 200 detail))]
        (disposition \<in> {''opened'', ''fed'', ''throttled''})
        (d\<lparr>alert_events := alert_events d @ [history_row t ctx tid key handle disposition detail (next_alert_event d)],
           next_alert_event := next_alert_event d + 1\<rparr>)"

text \<open>The history row's references are checked, so a rule deleted meanwhile makes it fail.\<close>

definition record_firing ::
    "time \<Rightarrow> fire_context \<Rightarrow> id option \<Rightarrow> string \<Rightarrow> string \<Rightarrow> string \<Rightarrow> string \<Rightarrow> db \<Rightarrow> exn + db" where
  "record_firing t ctx tid key handle disposition detail d =
     (if refs_exist d (ri_id (fc_rule ctx)) tid
      then Inr (recorded t ctx tid key handle disposition detail d)
      else Inl (Exn ''ForeignKeyViolation'' []))"

definition upsert_incident ::
    "time \<Rightarrow> string \<Rightarrow> fire_context \<Rightarrow> id option \<Rightarrow> string \<Rightarrow> db \<Rightarrow> exn + db" where
  "upsert_incident t key ctx tid handle d =
     (let owner = (if fc_owner_user ctx = [] then None else Some (fc_owner_user ctx)) in
      if find_row (\<lambda>i. in_key i = key) (alert_incidents d) \<noteq> None
      then Inr (d\<lparr>alert_incidents := update_where (\<lambda>i. in_key i = key)
             (\<lambda>i. i\<lparr>in_handle := Some handle, in_owner_user := owner, in_opened_at := t, in_last_event_at := t,
                    in_last_fed_at := Some t, in_event_count := 1, in_status := ''open''\<rparr>) (alert_incidents d)\<rparr>)
      else if \<not> refs_exist d (ri_id (fc_rule ctx)) tid then Inl (Exn ''ForeignKeyViolation'' [])
      else Inr (d\<lparr>alert_incidents := alert_incidents d @
             [\<lparr>in_key = key, in_rule_id = ri_id (fc_rule ctx), in_target_id = tid,
               in_source = ev_source (fc_event ctx), in_handle = Some handle, in_owner_user = owner,
               in_opened_at = t, in_last_event_at = t, in_last_fed_at = Some t, in_event_count = 1,
               in_status = ''open''\<rparr>]\<rparr>))"

definition bump_incident :: "time \<Rightarrow> string \<Rightarrow> bool \<Rightarrow> db \<Rightarrow> db" where
  "bump_incident t key was_fed d = d\<lparr>alert_incidents := update_where (\<lambda>i. in_key i = key)
     (\<lambda>i. i\<lparr>in_last_event_at := t, in_event_count := in_event_count i + 1,
            in_last_fed_at := (if was_fed then Some t else in_last_fed_at i)\<rparr>) (alert_incidents d)\<rparr>"

definition mark_fired :: "time \<Rightarrow> id option \<Rightarrow> db \<Rightarrow> db" where
  "mark_fired t rid d = d\<lparr>alert_rules := update_where (\<lambda>r. Some (r_id r) = rid)
     (\<lambda>r. r\<lparr>r_last_fired := Some t\<rparr>) (alert_rules d)\<rparr>"

section \<open>The fallback push\<close>

definition fallback_body :: "fire_context \<Rightarrow> string \<Rightarrow> string" where
  "fallback_body ctx reason =
     ''['' @ or_else (ev_severity_text (fc_event ctx)) ''?'' @ ''] dispatch degraded: '' @ take 120 reason
     @ ''. Investigate in Ringdown (source '' @ show_str (ev_source (fc_event ctx)) @ '').''"

definition fallback_target :: "coord_config \<Rightarrow> target_info" where
  "fallback_target C = \<lparr>ti_id = None, ti_type = ''ntfy'',
     ti_config = [(''topic'', PStr (fallback_topic C))], ti_project_id = None\<rparr>"

text \<open>Best effort: an exception of the push is dropped.\<close>

definition fallback :: "'w env \<Rightarrow> coord_config \<Rightarrow> fire_context \<Rightarrow> string \<Rightarrow> 'w qstate \<Rightarrow> 'w qstate" where
  "fallback E C ctx reason s =
     (case e_registry E ''ntfy'' of
        None \<Rightarrow> s
      | Some disp \<Rightarrow>
        if fallback_topic C = [] then s
        else snd (quietly (d_open disp
               ((fire_context_init (fc_rule ctx) (fc_event ctx))\<lparr>fc_safe_summary := fallback_body ctx reason\<rparr>)
               (fallback_target C)) s))"

definition log_firing ::
    "'w env \<Rightarrow> fire_context \<Rightarrow> id option \<Rightarrow> string \<Rightarrow> string \<Rightarrow> string \<Rightarrow> string \<Rightarrow> 'w qstate
     \<Rightarrow> (exn + unit) \<times> 'w qstate" where
  "log_firing E ctx tid key handle disposition detail s =
     try_db (record_firing (now E s) ctx tid key handle disposition detail) s"

section \<open>Dispatching one firing\<close>

definition open_incident ::
    "'w env \<Rightarrow> coord_config \<Rightarrow> fire_context \<Rightarrow> target_info \<Rightarrow> 'w dispatcher \<Rightarrow> string \<Rightarrow> 'w qstate
     \<Rightarrow> (exn + string) \<times> 'w qstate" where
  "open_incident E C ctx target disp key s =
     and_then (quietly (d_open disp ctx target) s) (\<lambda>res s1.
       if \<not> dr_ok res
       then and_then (log_firing E ctx (ti_id target) key [] ''fallback'' (dr_detail res)
                        (fallback E C ctx (dr_detail res) s1)) (\<lambda>_ s2. (Inr ''fallback'', s2))
       else and_then (try_db (upsert_incident (now E s1) key ctx (ti_id target) (dr_handle res)) s1) (\<lambda>_ s2.
            and_then (log_firing E ctx (ti_id target) key (dr_handle res) ''opened'' (dr_detail res) s2) (\<lambda>_ s3.
            (Inr ''opened'', on_db (mark_fired (now E s3) (ri_id (fc_rule ctx))) s3))))"

definition feed_stateless ::
    "'w env \<Rightarrow> coord_config \<Rightarrow> fire_context \<Rightarrow> target_info \<Rightarrow> 'w dispatcher \<Rightarrow> incident_row \<Rightarrow> string \<Rightarrow> 'w qstate
     \<Rightarrow> (exn + string) \<times> 'w qstate" where
  "feed_stateless E C ctx target disp inc key s =
     (let last_fed = (case in_last_fed_at inc of None \<Rightarrow> 0 | Some t \<Rightarrow> t) in
      if now E s - last_fed < feed_every C
      then and_then (log_firing E ctx (ti_id target) key [] ''throttled'' []
                       (on_db (bump_incident (now E s) key False) s)) (\<lambda>_ s1. (Inr ''throttled'', s1))
      else and_then (quietly (d_feed disp ctx target []) s) (\<lambda>res s1.
        let outcome = (if dr_ok res then ''fed'' else ''fallback'')
        in and_then (log_firing E ctx (ti_id target) key [] outcome (dr_detail res)
                       (on_db (bump_incident (now E s1) key True) s1)) (\<lambda>_ s2. (Inr outcome, s2))))"

definition reusable :: "'w env \<Rightarrow> coord_config \<Rightarrow> string \<Rightarrow> 'w qstate \<Rightarrow> incident_row option" where
  "reusable E C key s =
     (case find_row (\<lambda>i. in_key i = key) (alert_incidents (q_db s)) of
        None \<Rightarrow> None
      | Some inc \<Rightarrow> if in_status inc = ''open'' \<and> in_handle inc \<noteq> None
                      \<and> now E s - in_last_event_at inc < reuse_ttl C
                   then Some inc else None)"

definition dispatch_locked ::
    "'w env \<Rightarrow> coord_config \<Rightarrow> fire_context \<Rightarrow> target_info \<Rightarrow> string \<Rightarrow> 'w qstate \<Rightarrow> (exn + string) \<times> 'w qstate" where
  "dispatch_locked E C ctx target key s =
     (case e_registry E (ti_type target) of
        None \<Rightarrow>
          and_then (log_firing E ctx (ti_id target) key [] ''fallback'' (''unavailable type '' @ ti_type target)
                      (fallback E C ctx (''no dispatcher for target type '' @ [CHR 0x27] @ ti_type target @ [CHR 0x27]) s))
            (\<lambda>_ s1. (Inr ''fallback'', s1))
      | Some disp \<Rightarrow>
          (case reusable E C key s of
             Some inc \<Rightarrow> feed_stateless E C ctx target disp inc key s
           | None \<Rightarrow> open_incident E C ctx target disp key s))"

definition error_detail :: "exn \<Rightarrow> string" where
  "error_detail e = exn_type e @ '': '' @ take 160 (exn_msg e)"

text \<open>
  \<open>handle\<close>: the lock of the firing's key serializes the firings of one incident, so one call
  runs to its end before the next with the same key.
\<close>

definition handle_firing ::
    "'w env \<Rightarrow> coord_config \<Rightarrow> fire_context \<Rightarrow> target_info \<Rightarrow> string option \<Rightarrow> 'w qstate \<Rightarrow> (exn + string) \<times> 'w qstate" where
  "handle_firing E C ctx target dedup_source s =
     (let key = incident_key ctx target dedup_source;
          attempt = (case e_registry E (ti_type target) of
              Some disp \<Rightarrow> if d_stateful disp then enqueue E ctx target dedup_source s
                          else dispatch_locked E C ctx target key s
            | None \<Rightarrow> dispatch_locked E C ctx target key s)
      in case attempt of
           (Inr disposition, s1) \<Rightarrow> (Inr disposition, s1)
         | (Inl e, s1) \<Rightarrow>
             and_then (log_firing E ctx (ti_id target) key [] ''error'' (error_detail e)
                         (fallback E C ctx (''coordinator error: '' @ error_detail e) s1))
               (\<lambda>_ s2. (Inr ''error'', s2)))"

text \<open>\<open>notify_ops\<close>: \<open>push\<close> is the \<open>push_system\<close> of the \<open>ntfy\<close> dispatcher, when it has one.\<close>

definition notify_ops ::
    "(target_info \<Rightarrow> string \<Rightarrow> string \<Rightarrow> string list \<Rightarrow> ('w, dispatch_result) call) option
     \<Rightarrow> coord_config \<Rightarrow> string \<Rightarrow> string \<Rightarrow> string list \<Rightarrow> 'w qstate \<Rightarrow> bool \<times> 'w qstate" where
  "notify_ops push C title body tags s =
     (case push of
        None \<Rightarrow> (False, s)
      | Some f \<Rightarrow>
        if fallback_topic C = [] then (False, s)
        else (case quietly (f (fallback_target C) title body tags) s of
                (Inl e, s1) \<Rightarrow> (False, s1)
              | (Inr res, s1) \<Rightarrow> (dr_ok res, s1)))"

section \<open>What a firing leaves behind\<close>

text \<open>The rows a firing may add: one to the history, with its rule, target and source.\<close>

definition logs_one :: "fire_context \<Rightarrow> target_info \<Rightarrow> string \<Rightarrow> db \<Rightarrow> db \<Rightarrow> bool" where
  "logs_one ctx target disposition d d' = (\<exists>e. alert_events d' = alert_events d @ [e]
     \<and> ae_disposition e = disposition \<and> ae_rule_id e = ri_id (fc_rule ctx) \<and> ae_target_id e = ti_id target
     \<and> ae_source e = ev_source (fc_event ctx))"

lemma fallback_db [simp]: "q_db (fallback E C ctx reason s) = q_db s"
  by (auto simp: fallback_def quietly_def split: option.splits prod.splits)

lemma find_target_events [simp]:
  "refs_exist (d\<lparr>alert_events := x\<rparr>) a b = refs_exist d a b" "refs_exist (d\<lparr>alert_incidents := y\<rparr>) a b = refs_exist d a b"
  by (simp_all add: refs_exist_def find_rule_def find_target_def cong: option.case_cong)

lemma upsert_incident_frame:
  "upsert_incident t key ctx tid h d = Inr d' \<Longrightarrow>
     alert_events d' = alert_events d \<and> refs_exist d' a b = refs_exist d a b"
  by (auto simp: upsert_incident_def Let_def split: if_splits)

lemma upsert_incident_ok:
  "refs_exist d (ri_id (fc_rule ctx)) tid \<Longrightarrow> \<exists>d'. upsert_incident t key ctx tid h d = Inr d'"
  unfolding upsert_incident_def Let_def by (simp split: if_split)

lemma log_firing_ok:
  assumes "refs_exist (q_db s) (ri_id (fc_rule ctx)) tid"
  shows "\<exists>s'. log_firing E ctx tid key h x detail s = (Inr (), s')
    \<and> alert_events (q_db s') = alert_events (q_db s)
        @ [history_row (now E s) ctx tid key h x detail (next_alert_event (q_db s))]"
  using assms by (simp add: log_firing_def try_db_def record_firing_def recorded_def)

lemma history_row_sel [simp]:
  "ae_disposition (history_row t ctx tid key h x detail n) = x"
  "ae_rule_id (history_row t ctx tid key h x detail n) = ri_id (fc_rule ctx)"
  "ae_target_id (history_row t ctx tid key h x detail n) = tid"
  "ae_source (history_row t ctx tid key h x detail n) = ev_source (fc_event ctx)"
  by (simp_all add: history_row_def)

lemma bump_refs [simp]: "refs_exist (bump_incident t key f d) a b = refs_exist d a b"
  "alert_events (bump_incident t key f d) = alert_events d"
  by (simp_all add: bump_incident_def)

lemma mark_fired_events [simp]: "alert_events (mark_fired t r d) = alert_events d"
  by (simp add: mark_fired_def)

text \<open>A stateless dispatch logs its firing, or raises and leaves the database as it was.\<close>

definition settled :: "fire_context \<Rightarrow> target_info \<Rightarrow> 'w qstate \<Rightarrow> (exn + string) \<times> 'w qstate \<Rightarrow> bool" where
  "settled ctx target s m = (case m of
     (Inl e, s') \<Rightarrow> q_db s' = q_db s | (Inr x, s') \<Rightarrow> logs_one ctx target x (q_db s) (q_db s'))"

lemma noted_settled:
  assumes "refs_exist (q_db u) (ri_id (fc_rule ctx)) (ti_id target)" "alert_events (q_db u) = alert_events (q_db s)"
    "\<And>v. alert_events (q_db (g v)) = alert_events (q_db v)"
  shows "settled ctx target s (and_then (log_firing E ctx (ti_id target) key h x detail u) (\<lambda>_ v. (Inr x, g v)))"
proof -
  obtain s' where n: "log_firing E ctx (ti_id target) key h x detail u = (Inr (), s')"
    "alert_events (q_db s') = alert_events (q_db u)
        @ [history_row (now E u) ctx (ti_id target) key h x detail (next_alert_event (q_db u))]"
    using log_firing_ok[OF assms(1)] by blast
  then show ?thesis using assms by (simp add: settled_def logs_one_def)
qed

lemma open_incident_settled:
  assumes r: "refs_exist (q_db s) (ri_id (fc_rule ctx)) (ti_id target)"
  shows "settled ctx target s (open_incident E C ctx target disp key s)"
proof -
  obtain r1 s1 where q: "quietly (d_open disp ctx target) s = (r1, s1)" by fastforce
  then have d: "q_db s1 = q_db s" by (rule quietlyE) simp
  show ?thesis
  proof (cases r1)
    case (Inl e) then show ?thesis using q d by (simp add: open_incident_def settled_def)
  next
    case (Inr res)
    show ?thesis
    proof (cases "dr_ok res")
      case False
      then show ?thesis using q Inr noted_settled[of "fallback E C ctx (dr_detail res) s1" ctx target s id] d r
        by (simp add: open_incident_def)
    next
      case True
      obtain d2 where u: "upsert_incident (now E s1) key ctx (ti_id target) (dr_handle res) (q_db s1) = Inr d2"
        using upsert_incident_ok[OF r] unfolding d by blast
      note f = upsert_incident_frame[OF u]
      show ?thesis
        using q Inr True noted_settled[of "s1\<lparr>q_db := d2\<rparr>" ctx target s
            "\<lambda>s3. on_db (mark_fired (now E s3) (ri_id (fc_rule ctx))) s3"] d r f
        by (simp add: open_incident_def try_db_def u[unfolded d])
    qed
  qed
qed

lemma feed_stateless_settled:
  assumes r: "refs_exist (q_db s) (ri_id (fc_rule ctx)) (ti_id target)"
  shows "settled ctx target s (feed_stateless E C ctx target disp inc key s)"
proof -
  obtain r1 s1 where q: "quietly (d_feed disp ctx target []) s = (r1, s1)" by fastforce
  then have d: "q_db s1 = q_db s" by (rule quietlyE) simp
  note k = noted_settled[of _ ctx target s id, simplified]
  show ?thesis
    using q d r by (cases r1) (simp_all add: feed_stateless_def Let_def k, simp_all add: settled_def)
qed

lemma dispatch_settled:
  assumes r: "refs_exist (q_db s) (ri_id (fc_rule ctx)) (ti_id target)"
  shows "settled ctx target s (dispatch_locked E C ctx target key s)"
  using open_incident_settled[OF r] feed_stateless_settled[OF r] r
    noted_settled[of _ ctx target s id, simplified]
  by (simp add: dispatch_locked_def split: option.split)

lemma enqueue_settled:
  assumes "enqueue E ctx target src s = (r, s')"
    and stable: "\<And>c w c' w'. e_registry E (ti_type target) = Some disp \<Longrightarrow> d_prepare disp c target w = (Inr c', w')
      \<Longrightarrow> ri_id (fc_rule c') = ri_id (fc_rule c) \<and> fc_event c' = fc_event c"
    and disp: "e_registry E (ti_type target) = Some disp"
  shows "settled ctx target s (r, s')"
proof -
  obtain rp s1 where p: "quietly (d_prepare disp ctx target) s = (rp, s1)" by fastforce
  then obtain w' where s1: "s1 = s\<lparr>q_world := w'\<rparr>" by (rule quietlyE)
  note c = assms(1)[unfolded enqueue_def disp p option.case prod.case]
  show ?thesis
  proof (cases rp)
    case (Inl e) then show ?thesis using c s1 by (auto simp: settled_def)
  next
    case (Inr ctx')
    have rid: "ri_id (fc_rule ctx') = ri_id (fc_rule ctx)" "fc_event ctx' = fc_event ctx"
      using p Inr stable[OF disp] by (auto simp: quietly_def split: prod.splits)
    show ?thesis
    proof (cases "group_key ctx' (ti_id target) src")
      case (Inl e) then show ?thesis using c s1 Inr by (auto simp: settled_def)
    next
      case key: (Inr key)
      let ?cur = "find_workstream (q_db s) ctx' (ti_id target)
          (case ri_group_by (fc_rule ctx') of None \<Rightarrow> ''host'' | Some g \<Rightarrow> g) (gk_source key)"
      note c' = c[unfolded Inr key sum.case Let_def s1, simplified]
      show ?thesis
      proof (cases "insert_firing (now E s1) ctx' target key ?cur (q_db s)")
        case (Inl e) then show ?thesis using c' by (auto simp: s1 settled_def)
      next
        case ins: (Inr d)
        have r: "r = Inr ''queued''" "s' = s1\<lparr>q_db := d\<rparr>" using c' ins by (auto simp: s1)
        show ?thesis using ins
          by (rule insert_firingE) (simp add: r settled_def logs_one_def rid firing_row_def)
      qed
    qed
  qed
qed

text \<open>So does a firing handled: it never raises, and logs one row.\<close>

lemma handle_firing_logs:
  assumes "refs_exist (q_db s) (ri_id (fc_rule ctx)) (ti_id target)"
    and "\<And>disp c w c' w'. e_registry E (ti_type target) = Some disp \<Longrightarrow> d_prepare disp c target w = (Inr c', w')
      \<Longrightarrow> ri_id (fc_rule c') = ri_id (fc_rule c) \<and> fc_event c' = fc_event c"
  shows "\<exists>disposition s'. handle_firing E C ctx target src s = (Inr disposition, s')
    \<and> logs_one ctx target disposition (q_db s) (q_db s')"
proof -
  let ?key = "incident_key ctx target src"
  define m where "m = (case e_registry E (ti_type target) of
              Some disp \<Rightarrow> if d_stateful disp then enqueue E ctx target src s
                          else dispatch_locked E C ctx target ?key s
            | None \<Rightarrow> dispatch_locked E C ctx target ?key s)"
  have m: "settled ctx target s m"
  proof (cases "e_registry E (ti_type target)")
    case None then show ?thesis using dispatch_settled[OF assms(1)] by (simp add: m_def)
  next
    case (Some disp)
    obtain r s' where q: "enqueue E ctx target src s = (r, s')" by fastforce
    show ?thesis using dispatch_settled[OF assms(1)] enqueue_settled[OF q assms(2) Some] Some q
      by (simp add: m_def)
  qed
  obtain r s1 where r: "m = (r, s1)" by fastforce
  have h: "handle_firing E C ctx target src s = (case m of
           (Inr disposition, s1) \<Rightarrow> (Inr disposition, s1)
         | (Inl e, s1) \<Rightarrow>
             and_then (log_firing E ctx (ti_id target) ?key [] ''error'' (error_detail e)
                         (fallback E C ctx (''coordinator error: '' @ error_detail e) s1))
               (\<lambda>_ s2. (Inr ''error'', s2)))"
    by (simp add: handle_firing_def Let_def m_def)
  show ?thesis
  proof (cases r)
    case (Inr x) then show ?thesis using m h r by (simp add: settled_def)
  next
    case (Inl e)
    let ?u = "fallback E C ctx (''coordinator error: '' @ error_detail e) s1"
    have d1: "q_db s1 = q_db s" using m r Inl by (simp add: settled_def)
    then have d: "q_db ?u = q_db s" by simp
    have "settled ctx target s (and_then (log_firing E ctx (ti_id target) ?key [] ''error'' (error_detail e) ?u) (\<lambda>_ v. (Inr ''error'', id v)))"
      by (rule noted_settled) (simp_all add: d1 assms(1))
    moreover obtain s' where "and_then (log_firing E ctx (ti_id target) ?key [] ''error'' (error_detail e) ?u) (\<lambda>_ v. (Inr ''error'', id v)) = (Inr ''error'', s')"
      using log_firing_ok[of ?u ctx "ti_id target" E ?key "[]" "''error''" "error_detail e"] d assms(1) by auto
    ultimately show ?thesis using h r Inl by (auto simp: settled_def)
  qed
qed

text \<open>
  C16. No firing is dropped silently. While the firing's rule and target exist, \<open>handle\<close> never
  raises, whatever the dispatchers answer or raise: it returns a disposition and has added
  exactly one row to the history, for this rule and target and for the event's source, with that
  disposition; \<open>error\<close> is the disposition when something raised.
\<close>

theorem every_firing_is_recorded:
  assumes "refs_exist (q_db s) (ri_id (fc_rule ctx)) (ti_id target)"
    and "\<And>disp c w c' w'. e_registry E (ti_type target) = Some disp \<Longrightarrow> d_prepare disp c target w = (Inr c', w')
      \<Longrightarrow> ri_id (fc_rule c') = ri_id (fc_rule c) \<and> fc_event c' = fc_event c"
  shows "\<exists>disposition s'. handle_firing E C ctx target src s = (Inr disposition, s')
    \<and> logs_one ctx target disposition (q_db s) (q_db s')"
  using handle_firing_logs[OF assms] .

definition raising_dispatcher :: "time dispatcher" where
  "raising_dispatcher = \<lparr>d_stateful = False, d_open = (\<lambda>ctx t w. (Inl (Exn ''ConnectError'' ''refused''), w + 1)),
     d_feed = base_feed (\<lambda>ctx t w. (Inl (Exn ''ConnectError'' ''refused''), w + 1)),
     d_prepare = base_prepare, d_inspect = base_inspect\<rparr>"

definition raising_env :: "time env" where
  "raising_env = demo_env\<lparr>e_registry := (\<lambda>ty. if ty = ''t'' \<or> ty = ''ntfy'' then Some raising_dispatcher else None)\<rparr>"

definition demo_coord :: coord_config where
  "demo_coord = \<lparr>reuse_ttl = seconds 7200, feed_every = seconds 60, fallback_topic = ''ops''\<rparr>"

theorem every_firing_is_recorded_witness:
  "\<exists>s'. handle_firing raising_env demo_coord demo_ctx (target_of_row demo_target) None demo_start = (Inr ''error'', s')
     \<and> logs_one demo_ctx (target_of_row demo_target) ''error'' demo_db (q_db s')"
proof -
  have r: "refs_exist (q_db demo_start) (ri_id (fc_rule demo_ctx)) (ti_id (target_of_row demo_target))" by code_simp
  have p: "ri_id (fc_rule c') = ri_id (fc_rule c) \<and> fc_event c' = fc_event c"
    if "e_registry raising_env (ti_type (target_of_row demo_target)) = Some disp"
      "d_prepare disp c (target_of_row demo_target) w = (Inr c', w')" for disp c w c' w'
    using that by (auto simp: raising_env_def raising_dispatcher_def base_prepare_def split: if_splits)
  have "fst (handle_firing raising_env demo_coord demo_ctx (target_of_row demo_target) None demo_start) = Inr ''error''" by code_simp
  moreover have "\<exists>x s'. handle_firing raising_env demo_coord demo_ctx (target_of_row demo_target) None demo_start = (Inr x, s')
     \<and> logs_one demo_ctx (target_of_row demo_target) x (q_db demo_start) (q_db s')"
    by (rule every_firing_is_recorded[OF r]) (rule p)
  moreover have "q_db demo_start = demo_db" by (simp add: demo_start_def)
  ultimately show ?thesis by auto
qed

text \<open>
  C17. The throttle. A repeat of an open stateless incident within \<open>feed_interval\<close> of the last
  push reaches no dispatcher: the world is as it was, the disposition is \<open>throttled\<close>, and the
  incident counts the event without moving its last push. A repeat that is pushed comes at least
  \<open>feed_interval\<close> after the last one.
\<close>

theorem repeats_are_throttled:
  assumes "e_registry E (ti_type target) = Some disp" "\<not> d_stateful disp"
    and "reusable E C (incident_key ctx target src) s = Some inc" "in_last_fed_at inc = Some fed_at"
    and "refs_exist (q_db s) (ri_id (fc_rule ctx)) (ti_id target)"
  shows "(now E s - fed_at < feed_every C \<longrightarrow>
      (\<exists>s'. handle_firing E C ctx target src s = (Inr ''throttled'', s') \<and> q_world s' = q_world s
         \<and> alert_incidents (q_db s') = update_where (\<lambda>i. in_key i = incident_key ctx target src)
             (\<lambda>i. i\<lparr>in_last_event_at := now E s, in_event_count := in_event_count i + 1\<rparr>) (alert_incidents (q_db s))))
    \<and> (fst (handle_firing E C ctx target src s) = Inr ''fed'' \<longrightarrow> feed_every C \<le> now E s - fed_at)"
proof -
  let ?key = "incident_key ctx target src"
  have a: "dispatch_locked E C ctx target ?key s = feed_stateless E C ctx target disp inc ?key s"
    using assms(1,3) by (simp add: dispatch_locked_def)
  have h: "handle_firing E C ctx target src s = (case feed_stateless E C ctx target disp inc ?key s of
           (Inr disposition, s1) \<Rightarrow> (Inr disposition, s1)
         | (Inl e, s1) \<Rightarrow>
             and_then (log_firing E ctx (ti_id target) ?key [] ''error'' (error_detail e)
                         (fallback E C ctx (''coordinator error: '' @ error_detail e) s1))
               (\<lambda>_ s2. (Inr ''error'', s2)))"
    using assms(1,2) a by (simp add: handle_firing_def Let_def)
  let ?b = "on_db (bump_incident (now E s) ?key False) s"
  have throttled: "\<exists>s'. handle_firing E C ctx target src s = (Inr ''throttled'', s') \<and> q_world s' = q_world s
         \<and> alert_incidents (q_db s') = update_where (\<lambda>i. in_key i = ?key)
             (\<lambda>i. i\<lparr>in_last_event_at := now E s, in_event_count := in_event_count i + 1\<rparr>) (alert_incidents (q_db s))"
    if t: "now E s - fed_at < feed_every C"
  proof -
    have "feed_stateless E C ctx target disp inc ?key s
        = (Inr ''throttled'', ?b\<lparr>q_db := recorded (now E ?b) ctx (ti_id target) ?key [] ''throttled'' [] (q_db ?b)\<rparr>)"
      using t assms(4,5) by (simp add: feed_stateless_def log_firing_def try_db_def record_firing_def)
    then show ?thesis unfolding h by (simp add: recorded_def bump_incident_def)
  qed
  then show ?thesis by force
qed

definition quiet_dispatcher :: "time dispatcher" where
  "quiet_dispatcher = \<lparr>d_stateful = False, d_open = (\<lambda>ctx t w. (Inr (result_init True), w + 1)),
     d_feed = base_feed (\<lambda>ctx t w. (Inr (result_init True), w + 1)),
     d_prepare = base_prepare, d_inspect = base_inspect\<rparr>"

definition quiet_env :: "time env" where
  "quiet_env = demo_env\<lparr>e_registry := (\<lambda>ty. if ty = ''t'' then Some quiet_dispatcher else None)\<rparr>"

definition demo_opened :: "time qstate" where
  "demo_opened = snd (handle_firing quiet_env demo_coord demo_ctx (target_of_row demo_target) None demo_start)"

theorem repeats_are_throttled_witness:
  "\<exists>s'. handle_firing quiet_env demo_coord demo_ctx (target_of_row demo_target) None demo_opened = (Inr ''throttled'', s')
     \<and> q_world s' = q_world demo_opened"
proof -
  let ?t = "target_of_row demo_target"
  have e: "e_registry quiet_env (ti_type ?t) = Some quiet_dispatcher" "\<not> d_stateful quiet_dispatcher"
    by (simp_all add: quiet_env_def target_of_row_def demo_target_def quiet_dispatcher_def)
  have "case reusable quiet_env demo_coord (incident_key demo_ctx ?t None) demo_opened of
      Some inc \<Rightarrow> in_last_fed_at inc = Some 1 | None \<Rightarrow> False" by code_simp
  then obtain inc where i: "reusable quiet_env demo_coord (incident_key demo_ctx ?t None) demo_opened = Some inc"
    "in_last_fed_at inc = Some 1" by (auto split: option.splits)
  have r: "refs_exist (q_db demo_opened) (ri_id (fc_rule demo_ctx)) (ti_id ?t)" by code_simp
  have "now quiet_env demo_opened - 1 < feed_every demo_coord" by code_simp
  then show ?thesis using repeats_are_throttled[OF e i r] by blast
qed

end
