(* ===== verification/Http.thy ===== *)
theory Http
  imports Py_Value Dispatch
begin

text \<open>
  What the source uses of the HTTP client and of \<open>urllib.parse.urlparse\<close>. The client is
  outside: a record of functions on the world; an answer has a status and a body that \<open>json()\<close>
  reads or refuses.
\<close>

section \<open>Requests and answers\<close>

datatype http_body = Body_Text string | Body_Json dict

type_synonym headers = "(string \<times> string) list"

record response =
  status_code :: int
  json_body :: "exn + pyval"

record 'w http =
  h_get :: "string \<Rightarrow> headers \<Rightarrow> ('w, response) call"
  h_post :: "string \<Rightarrow> headers \<Rightarrow> http_body \<Rightarrow> ('w, response) call"

definition is_success :: "response \<Rightarrow> bool" where
  "is_success r = (200 \<le> status_code r \<and> status_code r \<le> 299)"

text \<open>\<open>raise_for_status\<close>.\<close>

definition raise_for_status :: "response \<Rightarrow> exn + unit" where
  "raise_for_status r = (if is_success r then Inr () else Inl (Exn ''HTTPStatusError'' (int_text (status_code r))))"

definition bearer :: "string \<Rightarrow> headers" where
  "bearer token = [(''Authorization'', ''Bearer '' @ token)]"

text \<open>\<open>s.rstrip("/")\<close>.\<close>

definition rstrip_slash :: "string \<Rightarrow> string" where
  "rstrip_slash s = rev (dropWhile (\<lambda>c. c = CHR ''/'') (rev s))"

section \<open>Addresses\<close>

text \<open>
  \<open>urlparse\<close>: leading control characters and blanks are stripped and tabs and line ends
  removed; the scheme is what precedes the first colon, if it looks like one; the network
  location follows two slashes up to a slash, question mark or hash. A bracketed host is checked
  by the interpreter, which is the parameter \<open>brackets_ok\<close>.
\<close>

definition clean_url :: "string \<Rightarrow> string" where
  "clean_url u = filter (\<lambda>c. c \<notin> {CHR 0x09, CHR 0x0A, CHR 0x0D}) (dropWhile (\<lambda>c. code_point c \<le> 32) u)"

definition is_alpha :: "char \<Rightarrow> bool" where
  "is_alpha c = (is_alnum c \<and> \<not> is_digit c)"

definition scheme_char :: "char \<Rightarrow> bool" where
  "scheme_char c = (is_alnum c \<or> c \<in> {CHR ''+'', CHR ''-'', CHR ''.''})"

definition split_scheme :: "string \<Rightarrow> string \<times> string" where
  "split_scheme u =
     (let s = takeWhile (\<lambda>c. c \<noteq> CHR '':'') u in
      if s \<noteq> u \<and> s \<noteq> [] \<and> is_alpha (hd s) \<and> list_all scheme_char s
      then (py_lower s, drop (Suc (length s)) u) else ([], u))"

definition netloc_end :: "char \<Rightarrow> bool" where
  "netloc_end c = (c \<in> {CHR ''/'', CHR ''?'', CHR ''#''})"

definition netloc_of :: "string \<Rightarrow> string" where
  "netloc_of rest = (if prefix ''//'' rest then takeWhile (\<lambda>c. \<not> netloc_end c) (drop 2 rest) else [])"

text \<open>What follows the last at sign, and a host's name without port, brackets and zone case.\<close>

fun after_last_at :: "string \<Rightarrow> string \<Rightarrow> string" where
  "after_last_at acc [] = acc"
| "after_last_at acc (c # cs) = (if c = CHR ''@'' then after_last_at cs cs else after_last_at acc cs)"

definition host_name :: "string \<Rightarrow> string" where
  "host_name netloc =
     (let info = after_last_at netloc netloc;
          h = (if CHR ''['' \<in> set info
               then takeWhile (\<lambda>c. c \<noteq> CHR '']'') (tl (dropWhile (\<lambda>c. c \<noteq> CHR ''['') info))
               else takeWhile (\<lambda>c. c \<noteq> CHR '':'') info)
      in py_lower (takeWhile (\<lambda>c. c \<noteq> CHR ''%'') h) @ dropWhile (\<lambda>c. c \<noteq> CHR ''%'') h)"

record url =
  u_scheme :: string
  u_host :: string

definition urlparse :: "(string \<Rightarrow> bool) \<Rightarrow> string \<Rightarrow> exn + url" where
  "urlparse brackets_ok u =
     (case split_scheme (clean_url u) of (scheme, rest) \<Rightarrow>
        let loc = netloc_of rest in
        if (CHR ''['' \<in> set loc) \<noteq> (CHR '']'' \<in> set loc) \<or> (CHR ''['' \<in> set loc \<and> \<not> brackets_ok loc)
        then Inl (Exn ''ValueError'' ''Invalid IPv6 URL'')
        else Inr \<lparr>u_scheme = scheme, u_host = host_name loc\<rparr>)"

text \<open>A path appended after a slash changes neither the scheme nor the network location.\<close>

lemma split_scheme_append:
  assumes "split_scheme u = (s, rest)" "prefix ''//'' rest" "c = CHR ''/''"
  shows "split_scheme (u @ c # t) = (s, rest @ c # t)"
proof -
  let ?p = "\<lambda>c. c \<noteq> CHR '':''"
  show ?thesis
  proof (cases "takeWhile ?p u \<noteq> u")
    case True
    then have "takeWhile ?p (u @ c # t) = takeWhile ?p u"
      by (metis takeWhile_append1 takeWhile_eq_all_conv)
    moreover have "length (takeWhile ?p u) < length u"
      using True by (metis length_takeWhile_le le_neq_implies_less takeWhile_eq_take take_all_iff order_refl)
    moreover have "takeWhile ?p u \<noteq> u @ c # t"
      using calculation(2) by (metis length_append less_not_refl2 trans_less_add1)
    ultimately show ?thesis using assms True by (auto simp: split_scheme_def Let_def split: if_splits)
  next
    case False
    then have "split_scheme u = ([], u)" by (simp add: split_scheme_def)
    then have u: "s = []" "rest = u" using assms(1) by simp_all
    then obtain v where v: "u = ''//'' @ v" using assms(2) by (auto simp: prefix_def)
    then show ?thesis by (auto simp: u split_scheme_def Let_def is_alpha_def is_alnum_def is_digit_def code_point_def)
  qed
qed

lemma netloc_append: "prefix ''//'' rest \<Longrightarrow> netloc_end c \<Longrightarrow> netloc_of (rest @ c # t) = netloc_of rest"
  by (auto simp: netloc_of_def prefix_def takeWhile_tail)

lemma clean_append:
  assumes "clean_url u \<noteq> []" shows "clean_url (u @ t) = clean_url u @ filter (\<lambda>c. c \<notin> {CHR 0x09, CHR 0x0A, CHR 0x0D}) t"
proof -
  have "dropWhile (\<lambda>c. code_point c \<le> 32) u \<noteq> []"
    using assms unfolding clean_url_def by (metis filter.simps(1))
  then have "dropWhile (\<lambda>c. code_point c \<le> 32) (u @ t) = dropWhile (\<lambda>c. code_point c \<le> 32) u @ t"
    by (metis dropWhile_append dropWhile_eq_Nil_conv)
  then show ?thesis by (simp add: clean_url_def)
qed

lemma urlparse_append:
  assumes "urlparse b u = Inr v" "u_host v \<noteq> []"
  shows "urlparse b (u @ ''/'' @ t) = Inr v"
proof -
  obtain s rest where sp: "split_scheme (clean_url u) = (s, rest)" by fastforce
  have p: "prefix ''//'' rest"
  proof (rule ccontr)
    assume "\<not> prefix ''//'' rest"
    then show False using assms sp by (auto simp: urlparse_def netloc_of_def host_name_def Let_def py_lower_def)
  qed
  then have "clean_url u \<noteq> []" using sp by (auto simp: split_scheme_def)
  then have c: "clean_url (u @ CHR ''/'' # t) = clean_url u @ CHR ''/'' # filter (\<lambda>c. c \<notin> {CHR 0x09, CHR 0x0A, CHR 0x0D}) t"
    using clean_append[of u "CHR ''/'' # t"] by simp
  show ?thesis using assms(1) sp netloc_append[OF p, of "CHR ''/''"]
    by (simp add: urlparse_def c split_scheme_append[OF sp p refl] netloc_end_def Let_def split: if_splits)
qed

end
