(* ===== verification/Ntfy.thy ===== *)
theory Ntfy
  imports Http
begin

text \<open>
  \<open>ringdown/dispatch/ntfy.py\<close>: the push to a public topic, with its allow-list of hosts and
  its rule that the write token only travels over https.
\<close>

record ntfy =
  n_url :: string
  n_token :: string
  n_topic :: string
  n_allowed :: "string list"

definition host_of :: "(string \<Rightarrow> bool) \<Rightarrow> string \<Rightarrow> exn + string" where
  "host_of b u = (case urlparse b u of Inl e \<Rightarrow> Inl e | Inr v \<Rightarrow> Inr (py_lower (u_host v)))"

text \<open>The constructor; the empty host never enters the allow-list.\<close>

definition make_ntfy :: "(string \<Rightarrow> bool) \<Rightarrow> string \<Rightarrow> string \<Rightarrow> string \<Rightarrow> string list \<Rightarrow> exn + ntfy" where
  "make_ntfy b default_url default_token default_topic allowed_hosts =
     (let u = rstrip_slash default_url in
      case host_of b u of
        Inl e \<Rightarrow> Inl e
      | Inr h \<Rightarrow> Inr \<lparr>n_url = u, n_token = default_token, n_topic = default_topic,
                     n_allowed = filter (\<lambda>x. x \<noteq> []) (h # map py_lower allowed_hosts)\<rparr>)"

definition url_allowed :: "(string \<Rightarrow> bool) \<Rightarrow> ntfy \<Rightarrow> string \<Rightarrow> exn + bool" where
  "url_allowed b N u = (case host_of b u of Inl e \<Rightarrow> Inl e | Inr h \<Rightarrow> Inr (h \<in> set (n_allowed N)))"

text \<open>\<open>c.get(k) or default\<close>, formatted; the address must be a text, for it is stripped.\<close>

definition config_text :: "dict \<Rightarrow> string \<Rightarrow> string \<Rightarrow> string" where
  "config_text c k dflt = (if truthy (dict_get c k) then scalar_text (dict_get c k) else dflt)"

definition ntfy_cfg :: "ntfy \<Rightarrow> target_info \<Rightarrow> exn + string \<times> string \<times> string" where
  "ntfy_cfg N target =
     (let c = ti_config target in
      case dict_get c ''url'' of
        PStr u \<Rightarrow> Inr (rstrip_slash (if u = [] then n_url N else u),
                       config_text c ''token'' (n_token N), config_text c ''topic'' (n_topic N))
      | v \<Rightarrow> if truthy v then Inl (Exn ''AttributeError'' ''rstrip'')
             else Inr (rstrip_slash (n_url N), config_text c ''token'' (n_token N), config_text c ''topic'' (n_topic N)))"

definition ascii_text :: "string \<Rightarrow> string" where
  "ascii_text s = map (\<lambda>c. if ascii c then c else CHR ''?'') s"

definition refuse :: "string \<Rightarrow> dispatch_result" where
  "refuse detail = (result_init False)\<lparr>dr_detail := detail\<rparr>"

definition push_headers :: "string \<Rightarrow> string \<Rightarrow> string \<Rightarrow> string list \<Rightarrow> headers" where
  "push_headers title token priority tags =
     [(''Title'', ascii_text title), (''Priority'', priority)]
     @ (if token = [] then [] else bearer token)
     @ (if tags = [] then [] else [(''Tags'', join '','' tags)])"

definition push ::
    "(string \<Rightarrow> bool) \<Rightarrow> ntfy \<Rightarrow> 'w http \<Rightarrow> target_info \<Rightarrow> string \<Rightarrow> string \<Rightarrow> string \<Rightarrow> string list
     \<Rightarrow> ('w, dispatch_result) call" where
  "push b N H target title message priority tags w =
     (case ntfy_cfg N target of
        Inl e \<Rightarrow> (Inl e, w)
      | Inr (url, token, topic) \<Rightarrow>
        if url = [] \<or> topic = [] then (Inr (refuse ''ntfy target missing url/topic''), w)
        else
          (case host_of b url of
             Inl e \<Rightarrow> (Inl e, w)
           | Inr h \<Rightarrow>
             if h \<notin> set (n_allowed N)
             then (Inr (refuse (''ntfy url host not allow-listed: '' @ [CHR 0x27] @ h @ [CHR 0x27])), w)
             else (case urlparse b url of
                 Inl e \<Rightarrow> (Inl e, w)
               | Inr v \<Rightarrow>
                 if token \<noteq> [] \<and> u_scheme v \<noteq> ''https''
                 then (Inr (refuse ''refusing to send ntfy token over non-HTTPS''), w)
                 else (case h_post H (url @ ''/'' @ topic) (push_headers title token priority tags) (Body_Text message) w of
                     (Inl e, w') \<Rightarrow> (Inr (refuse (exn_type e @ '': '' @ take 160 (exn_msg e))), w')
                   | (Inr r, w') \<Rightarrow>
                       (case raise_for_status r of
                          Inl e \<Rightarrow> (Inr (refuse (exn_type e @ '': '' @ take 160 (exn_msg e))), w')
                        | Inr _ \<Rightarrow> (Inr ((result_init True)\<lparr>dr_detail := ''ntfy:'' @ topic\<rparr>), w'))))))"

definition safe_body :: "fire_context \<Rightarrow> string" where
  "safe_body ctx =
     (let sev = or_else (ev_severity_text (fc_event ctx)) ''?'' in
      if fc_safe_summary ctx \<noteq> [] then ''['' @ sev @ ''] '' @ fc_safe_summary ctx
      else ''Severity '' @ sev @ '' '' @ em_dash @ '' matched on '' @ show_str (ev_source (fc_event ctx))
           @ ''. See Ringdown for detail.'')"

definition ntfy_open :: "(string \<Rightarrow> bool) \<Rightarrow> ntfy \<Rightarrow> 'w http \<Rightarrow> fire_context \<Rightarrow> target_info \<Rightarrow> ('w, dispatch_result) call" where
  "ntfy_open b N H ctx target w =
     push b N H target (''Ringdown: '' @ show_str (ri_name (fc_rule ctx)) @ '' on '' @ show_str (ev_source (fc_event ctx)))
       (safe_body ctx) ''high'' [''rotating_light''] w"

definition ntfy_feed ::
    "(string \<Rightarrow> bool) \<Rightarrow> ntfy \<Rightarrow> 'w http \<Rightarrow> fire_context \<Rightarrow> target_info \<Rightarrow> string \<Rightarrow> ('w, dispatch_result) call" where
  "ntfy_feed b N H ctx target handle w =
     push b N H target
       (''Ringdown (still active): '' @ show_str (ri_name (fc_rule ctx)) @ '' on '' @ show_str (ev_source (fc_event ctx)))
       (safe_body ctx) ''default'' [''repeat''] w"

definition push_system ::
    "(string \<Rightarrow> bool) \<Rightarrow> ntfy \<Rightarrow> 'w http \<Rightarrow> target_info \<Rightarrow> string \<Rightarrow> string \<Rightarrow> string list \<Rightarrow> ('w, dispatch_result) call" where
  "push_system b N H target title message tags w = push b N H target title message ''high'' tags w"

definition ntfy_dispatcher :: "(string \<Rightarrow> bool) \<Rightarrow> ntfy \<Rightarrow> 'w http \<Rightarrow> 'w dispatcher" where
  "ntfy_dispatcher b N H = \<lparr>d_stateful = False, d_open = ntfy_open b N H, d_feed = ntfy_feed b N H,
     d_prepare = base_prepare, d_inspect = base_inspect\<rparr>"

interpretation ntfy: dispatch_contract base_prepare base_inspect
  by (rule base.dispatch_contract_axioms)

section \<open>What leaves on a push\<close>

lemma push_cases:
  obtains (kept) r where "push b N H target title message priority tags w = (r, w)"
  | (sent) url token topic v where "ntfy_cfg N target = Inr (url, token, topic)" "url \<noteq> []" "topic \<noteq> []"
      "urlparse b url = Inr v" "py_lower (u_host v) \<in> set (n_allowed N)" "token = [] \<or> u_scheme v = ''https''"
      "snd (push b N H target title message priority tags w)
         = snd (h_post H (url @ ''/'' @ topic) (push_headers title token priority tags) (Body_Text message) w)"
proof -
  show ?thesis
  proof (cases "ntfy_cfg N target")
  case (Inl e) then show ?thesis using kept by (simp add: push_def)
  next
  case (Inr cfg)
  obtain url token topic where c: "ntfy_cfg N target = Inr (url, token, topic)" using Inr by (metis prod_cases3)
  consider (none) "url = [] \<or> topic = []" | (err) e where "url \<noteq> []" "topic \<noteq> []" "urlparse b url = Inl e"
    | (ok) v where "url \<noteq> []" "topic \<noteq> []" "urlparse b url = Inr v"
    by (cases "urlparse b url") auto
  then show ?thesis
  proof cases
    case none then show ?thesis using c kept by (simp add: push_def)
  next
    case err then show ?thesis using c kept by (simp add: push_def host_of_def)
  next
    case (ok v)
    show ?thesis
    proof (cases "py_lower (u_host v) \<in> set (n_allowed N) \<and> (token = [] \<or> u_scheme v = ''https'')")
      case True
      then show ?thesis using c ok
        by (intro sent[of url token topic v]) (auto simp: push_def host_of_def split: prod.splits sum.splits)
    next
      case False
      have "\<exists>r. push b N H target title message priority tags w = (r, w)"
      proof (cases "py_lower (u_host v) \<in> set (n_allowed N)")
        case True with False show ?thesis using c ok by (simp add: push_def host_of_def)
      qed (use c ok in \<open>simp add: push_def host_of_def\<close>)
      then show ?thesis using kept by blast
    qed
  qed
  qed
qed

lemma make_ntfy_allowed:
  assumes "make_ntfy b u tok topic hosts = Inr N"
  shows "[] \<notin> set (n_allowed N)" "h \<in> set (n_allowed N) \<Longrightarrow> host_of b (rstrip_slash u) = Inr h \<or> h \<in> py_lower ` set hosts"
  using assms by (auto simp: make_ntfy_def Let_def simp del: filter.simps split: sum.splits)

text \<open>
  C20. The push goes to an allowed host and nowhere else. Whatever the target's configuration
  says, a push of a dispatcher built by the constructor either leaves the outside world untouched, or makes exactly one request, to an
  address whose host, read as the request's full address is read, is the configured ntfy host or
  an allow-listed one and never empty; and if a token rides on it, the scheme is https.
\<close>

theorem push_reaches_only_allowed_hosts:
  assumes "make_ntfy b default_url default_token default_topic hosts = Inr N"
  shows "snd (push b N H target title message priority tags w) = w
    \<or> (\<exists>u token v. snd (push b N H target title message priority tags w)
           = snd (h_post H u (push_headers title token priority tags) (Body_Text message) w)
         \<and> urlparse b u = Inr v \<and> u_host v \<noteq> []
         \<and> (host_of b (rstrip_slash default_url) = Inr (py_lower (u_host v)) \<or> py_lower (u_host v) \<in> py_lower ` set hosts)
         \<and> (token \<noteq> [] \<longrightarrow> u_scheme v = ''https''))"
proof (cases rule: push_cases[of b N H target title message priority tags w])
  case (sent url token topic v)
  have h: "u_host v \<noteq> []" using sent(5) make_ntfy_allowed(1)[OF assms] by (auto simp: py_lower_def)
  have "urlparse b (url @ ''/'' @ topic) = Inr v" using sent(4) h by (rule urlparse_append)
  then show ?thesis using sent h make_ntfy_allowed(2)[OF assms sent(5)] by blast
qed simp

definition demo_ntfy :: ntfy where
  "demo_ntfy = \<lparr>n_url = ''https://n.io'', n_token = ''tk'', n_topic = ''ops'', n_allowed = [''n.io'']\<rparr>"

definition echo_http :: "string list http" where
  "echo_http = \<lparr>h_get = (\<lambda>u h w. (Inr \<lparr>status_code = 200, json_body = Inr PNone\<rparr>, w @ [u])),
     h_post = (\<lambda>u h c w. (Inr \<lparr>status_code = 200, json_body = Inr PNone\<rparr>, w @ [u]))\<rparr>"

definition ssrf_target :: "string \<Rightarrow> target_info" where
  "ssrf_target u = \<lparr>ti_id = Some 1, ti_type = ''ntfy'', ti_config = [(''url'', PStr u)], ti_project_id = None\<rparr>"

theorem push_reaches_only_allowed_hosts_witness:
  "snd (push (\<lambda>_. True) demo_ntfy echo_http (ssrf_target ''http://169.254.169.254'') ''t'' ''m'' ''high'' [] []) = []
   \<and> (\<exists>u. snd (push (\<lambda>_. True) demo_ntfy echo_http (ssrf_target ''https://n.io'') ''t'' ''m'' ''high'' [] [])
        = snd (h_post echo_http u (push_headers ''t'' ''tk'' ''high'' []) (Body_Text ''m'') []))"
proof
  show "snd (push (\<lambda>_. True) demo_ntfy echo_http (ssrf_target ''http://169.254.169.254'') ''t'' ''m'' ''high'' [] []) = []"
    by code_simp
  have a: "make_ntfy (\<lambda>_. True) ''https://n.io'' ''tk'' ''ops'' [] = Inr demo_ntfy" by code_simp
  have "snd (push (\<lambda>_. True) demo_ntfy echo_http (ssrf_target ''https://n.io'') ''t'' ''m'' ''high'' [] []) \<noteq> []" by code_simp
  then obtain u token where "snd (push (\<lambda>_. True) demo_ntfy echo_http (ssrf_target ''https://n.io'') ''t'' ''m'' ''high'' [] [])
      = snd (h_post echo_http u (push_headers ''t'' token ''high'' []) (Body_Text ''m'') [])"
    using push_reaches_only_allowed_hosts[OF a, of echo_http "ssrf_target ''https://n.io''" "''t''" "''m''" "''high''" "[]" "[]"]
    by blast
  then show "\<exists>u. snd (push (\<lambda>_. True) demo_ntfy echo_http (ssrf_target ''https://n.io'') ''t'' ''m'' ''high'' [] [])
        = snd (h_post echo_http u (push_headers ''t'' ''tk'' ''high'' []) (Body_Text ''m'') [])"
    by (auto simp: echo_http_def)
qed

text \<open>
  Log content never reaches the public topic. An open or a repeat push depends on the
  firing only through the rule's name, the event's source and severity text and the safe
  summary: two firings that agree on these four make the same request and leave the same world,
  whatever their bodies, raw lines, programs, attributes, seeds and follow-ups are.
\<close>

theorem push_ignores_log_content:
  assumes "ri_name (fc_rule ctx) = ri_name (fc_rule ctx')" "ev_source (fc_event ctx) = ev_source (fc_event ctx')"
    "ev_severity_text (fc_event ctx) = ev_severity_text (fc_event ctx')" "fc_safe_summary ctx = fc_safe_summary ctx'"
  shows "d_open (ntfy_dispatcher b N H) ctx target w = d_open (ntfy_dispatcher b N H) ctx' target w
    \<and> d_feed (ntfy_dispatcher b N H) ctx target h w = d_feed (ntfy_dispatcher b N H) ctx' target h' w"
  by (simp add: ntfy_dispatcher_def ntfy_open_def ntfy_feed_def safe_body_def Let_def assms cong: if_cong)

definition leaky_ctx :: "string \<Rightarrow> fire_context" where
  "leaky_ctx body = (fire_context_init \<lparr>ri_id = Some 1, ri_name = Some ''r'', ri_kind = None, ri_group_by = None,
      ri_project_id = None, ri_created_by_upn = None\<rparr>
     (no_event\<lparr>ev_source := Some ''w1'', ev_body := Some body, ev_raw := Some body\<rparr>))\<lparr>fc_seed := body\<rparr>"

theorem push_ignores_log_content_witness:
  "d_open (ntfy_dispatcher (\<lambda>_. True) demo_ntfy echo_http) (leaky_ctx ''password=x'') (ssrf_target ''https://n.io'') []
     = d_open (ntfy_dispatcher (\<lambda>_. True) demo_ntfy echo_http) (leaky_ctx ''ok'') (ssrf_target ''https://n.io'') []"
  using push_ignores_log_content[of "leaky_ctx ''password=x''" "leaky_ctx ''ok''" "\<lambda>_. True" demo_ntfy echo_http]
  by (simp add: leaky_ctx_def fire_context_init_def)

end
