(* ===== verification/Turnstone.thy ===== *)
theory Turnstone
  imports Ntfy
begin

text \<open>
  \<open>ringdown/obo.py\<close> and \<open>ringdown/dispatch/turnstone.py\<close>: owners resolved to user ids, tokens
  minted to act as them, and the dispatcher that creates, feeds and checks workstreams.

  The world of the dispatcher is the admin object's caches and the outside \<open>'h\<close>. The users list
  and the token answer are read as the API documents them: names, ids and tokens are texts.
\<close>

section \<open>The admin object\<close>

record 'h ts_world =
  tw_tokens :: "(string \<times> (string \<times> time)) list"
  tw_users :: "(string \<times> string) list"
  tw_users_at :: time
  tw_out :: 'h

record 'h admin =
  ta_base :: string
  ta_token :: string
  ta_ttl :: time
  ta_scopes :: string
  ta_http :: "'h http"
  ta_clock :: "'h \<Rightarrow> time"

definition enabled :: "'h admin \<Rightarrow> bool" where
  "enabled A = (ta_token A \<noteq> [])"

definition out :: "('h, 'a) call \<Rightarrow> ('h ts_world, 'a) call" where
  "out f w = (case f (tw_out w) of (r, o') \<Rightarrow> (r, w\<lparr>tw_out := o'\<rparr>))"

text \<open>\<open>v.get(k)\<close> where \<open>v\<close> should be a dictionary.\<close>

definition jget :: "pyval \<Rightarrow> string \<Rightarrow> exn + pyval" where
  "jget v k = (case v of PDict d \<Rightarrow> Inr (dict_get d k) | _ \<Rightarrow> Inl (Exn ''AttributeError'' ''get''))"

definition user_entry :: "pyval \<Rightarrow> (string \<times> string) list" where
  "user_entry u = (case u of
     PDict d \<Rightarrow> (case dict_get d ''username'' of
        PStr n \<Rightarrow> if n = [] then []
                  else [(n, case dict_get d ''user_id'' of PStr i \<Rightarrow> i | _ \<Rightarrow> [])]
      | _ \<Rightarrow> [])
   | _ \<Rightarrow> [])"

text \<open>A dictionary comprehension: the last entry of a name counts.\<close>

definition users_of :: "pyval \<Rightarrow> exn + (string \<times> string) list" where
  "users_of v = (case jget v ''users'' of
     Inl e \<Rightarrow> Inl e
   | Inr (PList us) \<Rightarrow> Inr (rev (concat (map user_entry us)))
   | Inr PNone \<Rightarrow> Inr []
   | Inr _ \<Rightarrow> Inl (Exn ''TypeError'' ''users''))"

definition refresh_users :: "'h admin \<Rightarrow> ('h ts_world, unit) call" where
  "refresh_users A w =
     (case out (h_get (ta_http A) (ta_base A @ ''/v1/api/admin/users'') (bearer (ta_token A))) w of
        (Inl e, w1) \<Rightarrow> (Inl e, w1)
      | (Inr r, w1) \<Rightarrow>
          (case raise_for_status r of
             Inl e \<Rightarrow> (Inl e, w1)
           | Inr _ \<Rightarrow>
             (case json_body r of
                Inl e \<Rightarrow> (Inl e, w1)
              | Inr v \<Rightarrow>
                (case users_of v of
                   Inl e \<Rightarrow> (Inl e, w1)
                 | Inr us \<Rightarrow> (Inr (), w1\<lparr>tw_users := us, tw_users_at := ta_clock A (tw_out w1)\<rparr>)))))"

definition ts_safe_char :: "char \<Rightarrow> bool" where
  "ts_safe_char c = (is_alnum c \<or> c \<in> {CHR ''.'', CHR ''_'', CHR ''-''})"

definition derived_username :: "string \<Rightarrow> string" where
  "derived_username upn = take 64 (filter ts_safe_char upn)"

definition candidates :: "string \<Rightarrow> string list" where
  "candidates upn = [derived_username upn, before_char CHR ''@'' upn, upn]"

fun first_user :: "(string \<times> string) list \<Rightarrow> string list \<Rightarrow> string" where
  "first_user us [] = []"
| "first_user us (c # cs) =
     (case map_of us c of None \<Rightarrow> first_user us cs | Some uid \<Rightarrow> if uid = [] then first_user us cs else uid)"

definition resolve_owner :: "'h admin \<Rightarrow> string \<Rightarrow> 'h ts_world \<Rightarrow> string \<times> 'h ts_world" where
  "resolve_owner A upn0 w =
     (let upn = strip upn0 in
      if upn = [] then ([], w)
      else
        (let w1 = (if list_ex (\<lambda>c. map_of (tw_users w) c \<noteq> None) (candidates upn)
                      \<and> \<not> ta_clock A (tw_out w) - tw_users_at w > seconds 300
                   then w else snd (refresh_users A w))
         in (first_user (tw_users w1) (candidates upn), w1)))"

definition token_for :: "'h admin \<Rightarrow> string \<Rightarrow> ('h ts_world, string) call" where
  "token_for A uid w =
     (let cached = (case map_of (tw_tokens w) uid of
            None \<Rightarrow> None
          | Some (tok, at) \<Rightarrow> if ta_clock A (tw_out w) - at < ta_ttl A then Some tok else None)
      in case cached of
           Some tok \<Rightarrow> (Inr tok, w)
         | None \<Rightarrow>
           (case out (h_post (ta_http A) (ta_base A @ ''/v1/api/admin/users/'' @ uid @ ''/tokens'') (bearer (ta_token A))
                   (Body_Json [(''name'', PStr ''ringdown-runas''), (''scopes'', PStr (ta_scopes A)), (''expires_days'', PInt 1)])) w of
              (Inl e, w1) \<Rightarrow> (Inl e, w1)
            | (Inr r, w1) \<Rightarrow>
                (case raise_for_status r of
                   Inl e \<Rightarrow> (Inl e, w1)
                 | Inr _ \<Rightarrow>
                   (case json_body r of
                      Inr (PDict d) \<Rightarrow>
                        (case map_of d ''token'' of
                           Some (PStr tok) \<Rightarrow> (Inr tok, w1\<lparr>tw_tokens := (uid, tok, ta_clock A (tw_out w1)) # tw_tokens w1\<rparr>)
                         | _ \<Rightarrow> (Inl (Exn ''KeyError'' ''token''), w1))
                    | Inl e \<Rightarrow> (Inl e, w1)
                    | _ \<Rightarrow> (Inl (Exn ''TypeError'' []), w1)))))"

section \<open>The dispatcher\<close>

text \<open>Besides its own settings: \<open>secrets.token_hex(16)\<close> and \<open>datetime.fromisoformat\<close>.\<close>

record 'h turnstone =
  ts_admin :: "'h admin"
  ts_base :: string
  ts_default_owner :: string
  ts_default_project :: string
  ts_hex :: "'h \<Rightarrow> string \<times> 'h"
  ts_fromiso :: "string \<Rightarrow> time option"

definition owner_of :: "'h turnstone \<Rightarrow> fire_context \<Rightarrow> 'h ts_world \<Rightarrow> string \<times> 'h ts_world" where
  "owner_of T ctx w =
     (if fc_owner_user ctx \<noteq> [] then (fc_owner_user ctx, w)
      else
        (let upn = or_else (ri_created_by_upn (fc_rule ctx)) [] in
         if upn = [] then (ts_default_owner T, w)
         else (case resolve_owner (ts_admin T) upn w of
                 (uid, w1) \<Rightarrow> ((if uid = [] then ts_default_owner T else uid), w1))))"

text \<open>\<open>_ws_name\<close>: a run of characters outside the safe set becomes one hyphen.\<close>

fun slug :: "bool \<Rightarrow> string \<Rightarrow> string" where
  "slug gap [] = []"
| "slug gap (c # cs) =
     (if ts_safe_char c then c # slug False cs
      else if gap then slug True cs else CHR ''-'' # slug True cs)"

definition ws_name :: "'h turnstone \<Rightarrow> fire_context \<Rightarrow> string" where
  "ws_name T ctx =
     (let ev = fc_event ctx;
          iso = (case ev_ts ev of
                   Ts_Time t \<Rightarrow> strftime_iso t
                 | Ts_Text s \<Rightarrow> (case ts_fromiso T s of None \<Rightarrow> ''?'' | Some t \<Rightarrow> strftime_iso t)
                 | No_Ts \<Rightarrow> ''?'')
      in ''ringdown/'' @ show_str (ev_source ev) @ ''/'' @ or_else (ev_severity_text ev) ''?'' @ ''/''
         @ take 32 (slug False (or_else (ri_name (fc_rule ctx)) [])) @ ''/'' @ iso)"

definition opt_text :: "string option \<Rightarrow> string" where
  "opt_text x = strip (or_else x [])"

definition project_of :: "'h turnstone \<Rightarrow> fire_context \<Rightarrow> target_info \<Rightarrow> string" where
  "project_of T ctx target =
     (let a = opt_text (ri_project_id (fc_rule ctx)); b = opt_text (ti_project_id target) in
      if a \<noteq> [] then a else if b \<noteq> [] then b else strip (ts_default_project T))"

definition config_item :: "dict \<Rightarrow> string \<Rightarrow> dict" where
  "config_item cfg k = (if truthy (dict_get cfg k) then [(k, PStr (scalar_text (dict_get cfg k)))] else [])"

definition create_body :: "'h turnstone \<Rightarrow> fire_context \<Rightarrow> target_info \<Rightarrow> string \<Rightarrow> dict" where
  "create_body T ctx target ws_id =
     [(''ws_id'', PStr ws_id), (''name'', PStr (ws_name T ctx)), (''kind'', PStr ''interactive'')]
     @ config_item (ti_config target) ''auto_approve_tools''
     @ config_item (ti_config target) ''skill'' @ config_item (ti_config target) ''model''
     @ (if project_of T ctx target = [] then [] else [(''project_id'', PStr (project_of T ctx target))])"

definition retryable :: meta where "retryable = no_meta\<lparr>m_retry_create := True\<rparr>"
definition ambiguous :: meta where "ambiguous = no_meta\<lparr>m_ambiguous := True\<rparr>"

definition failed :: "string \<Rightarrow> string \<Rightarrow> meta \<Rightarrow> dispatch_result" where
  "failed handle detail m = (result_init False)\<lparr>dr_handle := handle, dr_detail := detail, dr_meta := m\<rparr>"

definition create_url :: "'h turnstone \<Rightarrow> string" where
  "create_url T = ts_base T @ ''/v1/api/route/workstreams/new''"

definition accepted_ws_id :: "pyval \<Rightarrow> string \<Rightarrow> exn + string" where
  "accepted_ws_id v ws_id =
     (if \<not> truthy v then Inr ws_id
      else case v of
        PDict d \<Rightarrow> (case map_of d ''ws_id'' of
            Some x \<Rightarrow> Inr (if truthy x then scalar_text x else ws_id) | None \<Rightarrow> Inr ws_id)
      | _ \<Rightarrow> Inl (Exn ''AttributeError'' ''get''))"

text \<open>What the create's answer means: only a 4xx other than 409 says that nothing was created.\<close>

definition open_outcome ::
    "'h turnstone \<Rightarrow> fire_context \<Rightarrow> target_info \<Rightarrow> string \<Rightarrow> string \<Rightarrow> exn + response \<Rightarrow> exn + dispatch_result" where
  "open_outcome T ctx target owner ws_id answer =
     (case answer of
        Inl e \<Rightarrow> Inr (failed ws_id (''create outcome unknown ('' @ exn_type e @ ''); reconcile'') ambiguous)
      | Inr r \<Rightarrow>
        if status_code r = 409 then Inr (failed ws_id ''create id already exists; reconcile'' ambiguous)
        else if 400 \<le> status_code r \<and> status_code r < 500
        then Inr (failed ws_id (''create refused (HTTP '' @ int_text (status_code r) @ '')'') retryable)
        else
          (case raise_for_status r of
             Inl e \<Rightarrow> Inr (failed ws_id (''create outcome unknown ('' @ exn_type e @ ''); reconcile'') ambiguous)
           | Inr _ \<Rightarrow>
             (case json_body r of
                Inl e \<Rightarrow> Inl e
              | Inr v \<Rightarrow>
                (case accepted_ws_id v ws_id of
                   Inl e \<Rightarrow> Inl e
                 | Inr h \<Rightarrow> Inr ((result_init True)\<lparr>dr_handle := h,
                     dr_detail := ''opened ws '' @ h @ '' as '' @ owner,
                     dr_meta := no_meta\<lparr>m_project_id := Some (project_of T ctx target)\<rparr>\<rparr>)))))"

definition ts_open :: "'h turnstone \<Rightarrow> fire_context \<Rightarrow> target_info \<Rightarrow> ('h ts_world, dispatch_result) call" where
  "ts_open T ctx target w =
     (case owner_of T ctx w of (owner, w1) \<Rightarrow>
        if owner = [] then (Inr (failed [] ''no resolvable owner for the rule (fail-closed)'' retryable), w1)
        else
          (case token_for (ts_admin T) owner w1 of
             (Inl e, w2) \<Rightarrow> (Inr (failed [] (''owner-token mint failed ('' @ exn_type e @ '')'') retryable), w2)
           | (Inr token, w2) \<Rightarrow>
             (case (if fc_request_id ctx \<noteq> [] then (fc_request_id ctx, w2)
                    else case ts_hex T (tw_out w2) of (h, o') \<Rightarrow> (h, w2\<lparr>tw_out := o'\<rparr>)) of (ws_id, w3) \<Rightarrow>
              (case out (h_post (ta_http (ts_admin T)) (create_url T) (bearer token)
                      (Body_Json (create_body T ctx target ws_id))) w3 of
                 (answer, w4) \<Rightarrow> (open_outcome T ctx target owner ws_id answer, w4)))))"

definition send_body :: "fire_context \<Rightarrow> dict" where
  "send_body ctx = [(''message'', PStr (if fc_follow_up ctx \<noteq> [] then fc_follow_up ctx else fc_seed ctx))]
     @ (if fc_delivery_id ctx = [] then [] else [(''client_send_id'', PStr (fc_delivery_id ctx))])"

definition send_status_of :: "pyval \<Rightarrow> exn + pyval" where
  "send_status_of v = (if \<not> truthy v then Inr PNone else jget v ''status'')"

definition status_text :: "pyval \<Rightarrow> string option" where
  "status_text v = (case v of PNone \<Rightarrow> None | _ \<Rightarrow> Some (scalar_text v))"

definition ts_feed :: "'h turnstone \<Rightarrow> fire_context \<Rightarrow> target_info \<Rightarrow> string \<Rightarrow> ('h ts_world, dispatch_result) call" where
  "ts_feed T ctx target handle w =
     (case owner_of T ctx w of (owner, w1) \<Rightarrow>
        if owner = [] then (Inr (failed [] ''no resolvable owner for the rule (fail-closed)'' no_meta), w1)
        else
          (case token_for (ts_admin T) owner w1 of
             (Inl e, w2) \<Rightarrow> (Inr (failed [] (''feed outcome unknown ('' @ exn_type e @ '')'') no_meta), w2)
           | (Inr token, w2) \<Rightarrow>
             (case out (h_post (ta_http (ts_admin T)) (ts_base T @ ''/v1/api/route/workstreams/'' @ handle @ ''/send'')
                     (bearer token) (Body_Json (send_body ctx))) w2 of
                (Inl e, w3) \<Rightarrow> (Inr (failed [] (''feed outcome unknown ('' @ exn_type e @ '')'') no_meta), w3)
              | (Inr r, w3) \<Rightarrow>
                if status_code r = 404 \<or> status_code r = 410
                then (Inr ((failed [] (''ws '' @ handle @ '' gone ('' @ int_text (status_code r) @ '')'') no_meta)\<lparr>dr_gone := True\<rparr>), w3)
                else if \<not> is_success r
                then (Inr (failed [] (''feed refused (HTTP '' @ int_text (status_code r) @ '')'') no_meta), w3)
                else
                  (case json_body r of
                     Inl e \<Rightarrow> (Inl e, w3)
                   | Inr v \<Rightarrow>
                     (case send_status_of v of
                        Inl e \<Rightarrow> (Inl e, w3)
                      | Inr st \<Rightarrow>
                        if st = PStr ''ok'' \<or> st = PStr ''queued''
                        then (Inr ((result_init True)\<lparr>dr_handle := handle,
                               dr_detail := ''send accepted ('' @ scalar_text st @ '')'',
                               dr_meta := no_meta\<lparr>m_send_status := status_text st\<rparr>\<rparr>), w3)
                        else (Inr (failed handle
                               (''send not accepted ('' @ (if truthy st then scalar_text st else ''unknown response'') @ '')'')
                               (no_meta\<lparr>m_send_status := status_text st\<rparr>)), w3))))))"

definition ts_prepare :: "'h turnstone \<Rightarrow> fire_context \<Rightarrow> target_info \<Rightarrow> ('h ts_world, fire_context) call" where
  "ts_prepare T ctx target w =
     (case owner_of T ctx w of (owner, w1) \<Rightarrow>
        if owner = [] then (Inl (Exn ''ValueError'' ''no resolvable owner for the rule (fail-closed)''), w1)
        else
          (let project = (if or_else (ri_project_id (fc_rule ctx)) [] \<noteq> [] then or_else (ri_project_id (fc_rule ctx)) []
                          else or_else (ti_project_id target) (ts_default_project T))
           in (Inr (ctx\<lparr>fc_owner_user := owner, fc_rule := (fc_rule ctx)\<lparr>ri_project_id := Some project\<rparr>\<rparr>), w1)))"

text \<open>What the lifecycle answer says of workstream \<open>handle\<close> run as \<open>owner\<close>.\<close>

definition or_empty :: "pyval \<Rightarrow> pyval" where
  "or_empty v = (if truthy v then v else PDict [])"

definition terminal :: "string \<Rightarrow> bool" where
  "terminal state = (state = ''closed'' \<or> state = ''deleted'')"

definition terminal_state :: "pyval \<Rightarrow> bool" where
  "terminal_state st = (case st of PStr s \<Rightarrow> terminal s | _ \<Rightarrow> False)"

lemma terminal_state_iff: "terminal_state st \<longleftrightarrow> (\<exists>s. st = PStr s \<and> terminal s)"
  by (cases st) (simp_all add: terminal_state_def)

definition bind_exn :: "exn + 'a \<Rightarrow> ('a \<Rightarrow> exn + 'b) \<Rightarrow> exn + 'b" where
  "bind_exn r f = (case r of Inl e \<Rightarrow> Inl e | Inr x \<Rightarrow> f x)"

definition read_lifecycle :: "string \<Rightarrow> string \<Rightarrow> pyval \<Rightarrow> exn + dispatch_result" where
  "read_lifecycle owner handle data =
     bind_exn (jget data ''persisted'') (\<lambda>p0. bind_exn (jget data ''live'') (\<lambda>l0.
     let p = or_empty p0; l = or_empty l0 in
     bind_exn (jget p ''user_id'') (\<lambda>uid.
     if uid \<noteq> PStr owner then Inr (failed handle ''workstream owner mismatch'' no_meta)
     else bind_exn (jget p ''ws_id'') (\<lambda>wid.
     if wid \<noteq> PStr handle then Inr (failed handle ''workstream identity mismatch'' no_meta)
     else bind_exn (jget l ''state'') (\<lambda>ls. bind_exn (jget p ''state'') (\<lambda>ps.
     let st = (if truthy ls then ls else ps) in
     if \<not> truthy st then Inr (failed handle ''lifecycle state missing'' no_meta)
     else bind_exn (jget p ''project_id'') (\<lambda>pr. bind_exn (jget p ''updated'') (\<lambda>up.
     let state = scalar_text st; gone = terminal_state st in
     Inr ((result_init True)\<lparr>dr_handle := handle, dr_gone := gone, dr_detail := ''workstream '' @ state,
       dr_meta := no_meta\<lparr>m_state := Some state, m_live := truthy l,
         m_project_id := Some (if truthy pr then scalar_text pr else []),
         m_closed_at := (if gone then status_text up else None)\<rparr>\<rparr>)))))))))"

definition ts_inspect :: "'h turnstone \<Rightarrow> fire_context \<Rightarrow> target_info \<Rightarrow> string \<Rightarrow> ('h ts_world, dispatch_result) call" where
  "ts_inspect T ctx target handle w =
     (case owner_of T ctx w of (owner, w1) \<Rightarrow>
        if owner = [] then (Inr (failed [] ''no inspection identity'' no_meta), w1)
        else
          (case token_for (ts_admin T) owner w1 of
             (Inl e, w2) \<Rightarrow> (Inr (failed handle (''lifecycle unknown ('' @ exn_type e @ '')'') no_meta), w2)
           | (Inr token, w2) \<Rightarrow>
             (case out (h_get (ta_http (ts_admin T)) (ts_base T @ ''/v1/api/cluster/ws/'' @ handle @ ''/detail?limit=0'')
                     (bearer token)) w2 of
                (Inl e, w3) \<Rightarrow> (Inr (failed handle (''lifecycle unknown ('' @ exn_type e @ '')'') no_meta), w3)
              | (Inr r, w3) \<Rightarrow>
                if status_code r \<noteq> 200
                then (Inr (failed handle (''lifecycle unknown (HTTP '' @ int_text (status_code r) @ '')'') no_meta), w3)
                else
                  (case bind_exn (json_body r) (read_lifecycle owner handle) of
                     Inl e \<Rightarrow> (Inr (failed handle (''lifecycle unknown ('' @ exn_type e @ '')'') no_meta), w3)
                   | Inr res \<Rightarrow> (Inr res, w3)))))"

definition turnstone_dispatcher :: "'h turnstone \<Rightarrow> 'h ts_world dispatcher" where
  "turnstone_dispatcher T = \<lparr>d_stateful = True, d_open = ts_open T, d_feed = ts_feed T,
     d_prepare = ts_prepare T, d_inspect = ts_inspect T\<rparr>"

text \<open>
  \<open>build_registry\<close>: a type is there only when its prerequisites are. Both dispatchers share the
  HTTP client, which is \<open>lifted\<close> to the world with the admin object's caches.
\<close>

definition lifted :: "'h http \<Rightarrow> 'h ts_world http" where
  "lifted H = \<lparr>h_get = (\<lambda>u hs. out (h_get H u hs)), h_post = (\<lambda>u hs c. out (h_post H u hs c))\<rparr>"

definition build_registry ::
    "(string \<Rightarrow> bool) \<Rightarrow> 'h http \<Rightarrow> 'h turnstone option \<Rightarrow> string \<Rightarrow> string \<Rightarrow> string \<Rightarrow> string list
     \<Rightarrow> exn + 'h ts_world registry" where
  "build_registry b H turnstone ntfy_url ntfy_token ntfy_topic ntfy_allowed_hosts =
     (let ts = (case turnstone of
                  Some T \<Rightarrow> if enabled (ts_admin T) then Some (turnstone_dispatcher T) else None
                | None \<Rightarrow> None);
          with_ntfy = (\<lambda>nd ty. if ty = ''ntfy'' then nd else if ty = ''turnstone'' then ts else None)
      in if ntfy_url \<noteq> [] \<and> ntfy_token \<noteq> []
         then (case make_ntfy b ntfy_url ntfy_token ntfy_topic ntfy_allowed_hosts of
                 Inl e \<Rightarrow> Inl e
               | Inr N \<Rightarrow> Inr (with_ntfy (Some (ntfy_dispatcher b N (lifted H)))))
         else Inr (with_ntfy None))"

section \<open>Lifecycle\<close>

lemma failed_sel [simp]: "dr_ok (failed h d m) = False" "dr_gone (failed h d m) = False"
  "dr_handle (failed h d m) = h" "dr_meta (failed h d m) = m" "dr_detail (failed h d m) = d"
  by (simp_all add: failed_def)

lemma bind_exn_Inr: "bind_exn r f = Inr y \<longleftrightarrow> (\<exists>x. r = Inr x \<and> f x = Inr y)"
  by (cases r) (simp_all add: bind_exn_def)

lemma read_lifecycle_cases:
  assumes "read_lifecycle owner handle data = Inr res"
  obtains (failed) d m where "res = failed handle d m"
  | (known) p l ls ps st where "jget data ''persisted'' = Inr p" "jget data ''live'' = Inr l"
      "jget (or_empty p) ''user_id'' = Inr (PStr owner)" "jget (or_empty p) ''ws_id'' = Inr (PStr handle)"
      "jget (or_empty l) ''state'' = Inr ls" "jget (or_empty p) ''state'' = Inr ps"
      "st = (if truthy ls then ls else ps)" "truthy st"
      "dr_ok res" "dr_handle res = handle" "dr_gone res = terminal_state st"
proof -
  obtain p l uid where 1: "jget data ''persisted'' = Inr p" "jget data ''live'' = Inr l" "jget (or_empty p) ''user_id'' = Inr uid"
    using assms unfolding read_lifecycle_def Let_def bind_exn_Inr by blast
  note a = assms[unfolded read_lifecycle_def Let_def 1 bind_exn_def sum.case, folded bind_exn_def]
  show ?thesis
  proof (cases "uid = PStr owner")
    case False then show ?thesis using a failed by auto
  next
    case u: True
    then obtain wid where 2: "jget (or_empty p) ''ws_id'' = Inr wid"
      using a by (cases "jget (or_empty p) ''ws_id''") (simp_all add: bind_exn_def)
    show ?thesis
    proof (cases "wid = PStr handle")
      case False then show ?thesis using a u 2 failed by (auto simp: bind_exn_def)
    next
      case w: True
      obtain ls where 3: "jget (or_empty l) ''state'' = Inr ls"
        using a u 2 w by (cases "jget (or_empty l) ''state''") (simp_all add: bind_exn_def)
      obtain ps where 4: "jget (or_empty p) ''state'' = Inr ps"
        using a u 2 w 3 by (cases "jget (or_empty p) ''state''") (simp_all add: bind_exn_def)
      define st where "st = (if truthy ls then ls else ps)"
      show ?thesis
      proof (cases "truthy st")
        case False then show ?thesis using a u 2 w 3 4 failed by (auto simp: bind_exn_def st_def)
      next
        case True
        obtain pr where 5: "jget (or_empty p) ''project_id'' = Inr pr"
          using a u 2 w 3 4 True by (cases "jget (or_empty p) ''project_id''") (simp_all add: bind_exn_def st_def)
        obtain up where 6: "jget (or_empty p) ''updated'' = Inr up"
          using a u 2 w 3 4 5 True by (cases "jget (or_empty p) ''updated''") (simp_all add: bind_exn_def st_def)
        have "res = (result_init True)\<lparr>dr_handle := handle, dr_gone := terminal_state st,
            dr_detail := ''workstream '' @ scalar_text st,
            dr_meta := no_meta\<lparr>m_state := Some (scalar_text st), m_live := truthy (or_empty l),
              m_project_id := Some (if truthy pr then scalar_text pr else []),
              m_closed_at := (if terminal_state st then status_text up else None)\<rparr>\<rparr>"
          using a u 2 w 3 4 5 6 True by (simp add: bind_exn_def st_def)
        then show ?thesis using known[OF 1(1,2) 1(3)[unfolded u] 2[unfolded w] 3 4 st_def True] by simp
      qed
    qed
  qed
qed

lemma ts_prepare_keeps:
  assumes "ts_prepare T ctx target w = (Inr ctx', w')"
  obtains owner project where "owner \<noteq> []"
    "ctx' = ctx\<lparr>fc_owner_user := owner, fc_rule := (fc_rule ctx)\<lparr>ri_project_id := Some project\<rparr>\<rparr>"
  using assms by (auto simp: ts_prepare_def Let_def split: prod.splits if_splits)

text \<open>What an inspection was: no confirmed answer, or one read from a status 200.\<close>

lemma ts_inspectE:
  assumes "ts_inspect T ctx target handle w = (r, w')"
  obtains (unknown) h d where "r = Inr (failed h d no_meta)"
  | (answered) owner w1 token w2 resp res where
      "owner_of T ctx w = (owner, w1)" "owner \<noteq> []" "token_for (ts_admin T) owner w1 = (Inr token, w2)"
      "out (h_get (ta_http (ts_admin T)) (ts_base T @ ''/v1/api/cluster/ws/'' @ handle @ ''/detail?limit=0'') (bearer token)) w2 = (Inr resp, w')"
      "status_code resp = 200" "bind_exn (json_body resp) (read_lifecycle owner handle) = Inr res" "r = Inr res"
proof -
  obtain owner w1 where o: "owner_of T ctx w = (owner, w1)" by fastforce
  note c = assms[unfolded ts_inspect_def o prod.case]
  show ?thesis
  proof (cases "owner = []")
    case True then show ?thesis using c unknown by auto
  next
    case False
    obtain rt w2 where t: "token_for (ts_admin T) owner w1 = (rt, w2)" by fastforce
    note c2 = c[unfolded t prod.case]
    show ?thesis
    proof (cases rt)
      case (Inl e) then show ?thesis using c2 False unknown by auto
    next
      case (Inr token)
      obtain rg w3 where g: "out (h_get (ta_http (ts_admin T)) (ts_base T @ ''/v1/api/cluster/ws/'' @ handle @ ''/detail?limit=0'') (bearer token)) w2 = (rg, w3)"
        by fastforce
      note c3 = c2[unfolded Inr sum.case g prod.case]
      show ?thesis
      proof (cases rg)
        case (Inl e) then show ?thesis using c3 False unknown by auto
      next
        case resp: (Inr resp)
        show ?thesis
        proof (cases "status_code resp = 200")
          case False then show ?thesis using c3 resp \<open>owner \<noteq> []\<close> unknown by auto
        next
          case True
          show ?thesis
          proof (cases "bind_exn (json_body resp) (read_lifecycle owner handle)")
            case (Inl e) then show ?thesis using c3 resp \<open>owner \<noteq> []\<close> True unknown by auto
          next
            case (Inr res)
            then have "r = Inr res" "w' = w3" using c3 resp \<open>owner \<noteq> []\<close> True by auto
            then show ?thesis using answered[OF o False t[unfolded \<open>rt = Inr token\<close>] _ True Inr] g resp by simp
          qed
        qed
      qed
    qed
  qed
qed

lemma ts_inspect_unknown:
  assumes "ts_inspect T ctx t h w = (Inr r, w')" "\<not> dr_ok r" shows "\<not> dr_gone r"
  using assms(1)
proof (cases rule: ts_inspectE)
  case (answered owner w1 token w2 resp res)
  then obtain data where "read_lifecycle owner h data = Inr r" by (auto simp: bind_exn_Inr)
  then show ?thesis using assms(2) by (cases rule: read_lifecycle_cases) simp_all
qed simp

interpretation turnstone: dispatch_contract "ts_prepare T" "ts_inspect T" for T :: "'h turnstone"
proof
  fix ctx t w ctx' w'
  assume "ts_prepare T ctx t w = (Inr ctx', w')"
  then obtain owner project where
    "ctx' = ctx\<lparr>fc_owner_user := owner, fc_rule := (fc_rule ctx)\<lparr>ri_project_id := Some project\<rparr>\<rparr>"
    by (rule ts_prepare_keeps)
  then show "fc_event ctx' = fc_event ctx"
    "fc_seed ctx' = fc_seed ctx \<and> fc_follow_up ctx' = fc_follow_up ctx \<and> fc_safe_summary ctx' = fc_safe_summary ctx"
    "ri_id (fc_rule ctx') = ri_id (fc_rule ctx) \<and> ri_group_by (fc_rule ctx') = ri_group_by (fc_rule ctx)"
    by simp_all
qed (rule ts_inspect_unknown)

text \<open>
  C22. A closure is never guessed. A lifecycle check reports a workstream as gone only when the
  API answered 200 with a record of this very workstream, owned by the identity the check ran
  as, whose state (the live one, else the stored one) is \<open>closed\<close> or \<open>deleted\<close>; an exception,
  any other status, another owner or id, or a missing state is an unknown that frees nothing.
\<close>

theorem gone_is_confirmed:
  assumes "d_inspect (turnstone_dispatcher T) ctx target handle w = (Inr res, w')" "dr_gone res"
  shows "dr_ok res \<and> dr_handle res = handle
    \<and> (\<exists>owner w1 w2 token resp data p l s. owner_of T ctx w = (owner, w1) \<and> owner \<noteq> []
       \<and> out (h_get (ta_http (ts_admin T)) (ts_base T @ ''/v1/api/cluster/ws/'' @ handle @ ''/detail?limit=0'') (bearer token)) w2
           = (Inr resp, w')
       \<and> status_code resp = 200 \<and> json_body resp = Inr data
       \<and> jget data ''persisted'' = Inr p \<and> jget data ''live'' = Inr l
       \<and> jget (or_empty p) ''user_id'' = Inr (PStr owner) \<and> jget (or_empty p) ''ws_id'' = Inr (PStr handle)
       \<and> terminal s \<and> (jget (or_empty l) ''state'' = Inr (PStr s) \<or> jget (or_empty p) ''state'' = Inr (PStr s)))"
proof -
  have i: "ts_inspect T ctx target handle w = (Inr res, w')" using assms(1) by (simp add: turnstone_dispatcher_def)
  show ?thesis using i
  proof (cases rule: ts_inspectE)
    case unknown then show ?thesis using assms(2) by simp
  next
    case (answered owner w1 token w2 resp res')
    then have "res' = res" by simp
    from answered(6) obtain data where data: "json_body resp = Inr data" "read_lifecycle owner handle data = Inr res"
      unfolding \<open>res' = res\<close> by (auto simp: bind_exn_Inr)
    from data(2) show ?thesis
    proof (cases rule: read_lifecycle_cases)
      case failed then show ?thesis using assms(2) by simp
    next
      case (known p l ls ps st)
      obtain s where s: "st = PStr s" "terminal s" using known(11) assms(2) by (auto simp: terminal_state_iff)
      have "jget (or_empty l) ''state'' = Inr (PStr s) \<or> jget (or_empty p) ''state'' = Inr (PStr s)"
        using known(5-7) s(1) by (auto split: if_splits)
      then show ?thesis using answered(1-5) data(1) known s(2) by blast
    qed
  qed
qed


text \<open>An API for the concrete runs: every request is logged, a closed workstream is on record.\<close>

type_synonym api_log = "(string \<times> http_body option) list"

definition demo_detail :: pyval where
  "demo_detail = PDict [(''persisted'', PDict [(''user_id'', PStr ''u1''), (''ws_id'', PStr ''h''), (''state'', PStr ''closed'')]),
     (''live'', PNone)]"

definition api_http :: "int \<Rightarrow> api_log http" where
  "api_http create_status = \<lparr>h_get = (\<lambda>u h l. (Inr \<lparr>status_code = 200, json_body = Inr demo_detail\<rparr>, l @ [(u, None)])),
     h_post = (\<lambda>u h c l. (Inr (if contains ''/tokens'' u
          then \<lparr>status_code = 200, json_body = Inr (PDict [(''token'', PStr ''tk'')])\<rparr>
          else \<lparr>status_code = create_status, json_body = Inr (PDict [])\<rparr>), l @ [(u, Some c)]))\<rparr>"

definition demo_turnstone :: "int \<Rightarrow> api_log turnstone" where
  "demo_turnstone create_status = \<lparr>ts_admin = \<lparr>ta_base = [], ta_token = ''adm'', ta_ttl = seconds 60, ta_scopes = ''run'',
       ta_http = api_http create_status, ta_clock = (\<lambda>_. seconds 1000)\<rparr>,
     ts_base = [], ts_default_owner = [], ts_default_project = ''p0'', ts_hex = (\<lambda>l. (''id0'', l)),
     ts_fromiso = (\<lambda>_. None)\<rparr>"

definition no_cache :: "api_log ts_world" where
  "no_cache = \<lparr>tw_tokens = [], tw_users = [], tw_users_at = 0, tw_out = []\<rparr>"

definition owned_ctx :: "string \<Rightarrow> fire_context" where
  "owned_ctx owner = (fire_context_init \<lparr>ri_id = Some 1, ri_name = Some ''r'', ri_kind = None, ri_group_by = None,
      ri_project_id = None, ri_created_by_upn = None\<rparr> no_event)\<lparr>fc_owner_user := owner, fc_request_id := ''h''\<rparr>"

definition ws_target :: "dict \<Rightarrow> target_info" where
  "ws_target cfg = \<lparr>ti_id = Some 1, ti_type = ''turnstone'', ti_config = cfg, ti_project_id = None\<rparr>"

lemma demo_inspect:
  "case ts_inspect (demo_turnstone 200) (owned_ctx ''u1'') (ws_target []) ''h'' no_cache of
     (Inr res, w') \<Rightarrow> dr_gone res | _ \<Rightarrow> False"
  by code_simp


theorem gone_is_confirmed_witness:
  "\<exists>res w'. ts_inspect (demo_turnstone 200) (owned_ctx ''u1'') (ws_target []) ''h'' no_cache = (Inr res, w')
     \<and> dr_ok res \<and> dr_handle res = ''h''"
proof -
  obtain res w' where r: "ts_inspect (demo_turnstone 200) (owned_ctx ''u1'') (ws_target []) ''h'' no_cache = (Inr res, w')" "dr_gone res"
    using demo_inspect by (auto split: prod.splits sum.splits)
  then have "d_inspect (turnstone_dispatcher (demo_turnstone 200)) (owned_ctx ''u1'') (ws_target []) ''h'' no_cache = (Inr res, w')"
    by (simp add: turnstone_dispatcher_def)
  from gone_is_confirmed[OF this r(2)] r(1) show ?thesis by blast
qed

section \<open>Creation\<close>

lemma ts_openE:
  assumes "ts_open T ctx target w = (r, w')"
  obtains (unsent) d where "r = Inr (failed [] d retryable)"
      "(\<exists>owner. owner_of T ctx w = (owner, w') \<and> owner = [])
       \<or> (\<exists>owner w1 e. owner_of T ctx w = (owner, w1) \<and> token_for (ts_admin T) owner w1 = (Inl e, w'))"
  | (posted) owner w1 token w2 ws_id w3 answer where
      "owner_of T ctx w = (owner, w1)" "owner \<noteq> []" "token_for (ts_admin T) owner w1 = (Inr token, w2)"
      "fc_request_id ctx \<noteq> [] \<Longrightarrow> ws_id = fc_request_id ctx \<and> w3 = w2"
      "out (h_post (ta_http (ts_admin T)) (create_url T) (bearer token) (Body_Json (create_body T ctx target ws_id))) w3 = (answer, w')"
      "r = open_outcome T ctx target owner ws_id answer"
proof -
  obtain owner w1 where o: "owner_of T ctx w = (owner, w1)" by fastforce
  obtain rt w2 where t: "token_for (ts_admin T) owner w1 = (rt, w2)" by fastforce
  show ?thesis
  proof (cases "owner = []")
    case True then show ?thesis using assms o unsent[of "''no resolvable owner for the rule (fail-closed)''"] by (simp add: ts_open_def)
  next
    case False
    show ?thesis
    proof (cases rt)
      case (Inl e)
      then show ?thesis using assms o t False unsent[of "''owner-token mint failed ('' @ exn_type e @ '')''"] by (simp add: ts_open_def)
    next
      case (Inr token)
      obtain ws_id w3 where i: "(if fc_request_id ctx \<noteq> [] then (fc_request_id ctx, w2)
          else case ts_hex T (tw_out w2) of (h, o') \<Rightarrow> (h, w2\<lparr>tw_out := o'\<rparr>)) = (ws_id, w3)" by fastforce
      obtain answer w4 where p: "out (h_post (ta_http (ts_admin T)) (create_url T) (bearer token)
          (Body_Json (create_body T ctx target ws_id))) w3 = (answer, w4)" by fastforce
      have "r = open_outcome T ctx target owner ws_id answer" "w4 = w'"
        using assms[unfolded ts_open_def o t Inr prod.case sum.case i p] False by simp_all
      then show ?thesis using posted[OF o False t[unfolded Inr] _ p[unfolded \<open>w4 = w'\<close>]] i by fastforce
    qed
  qed
qed

text \<open>The answers after which a workstream of that id may exist, and those after which none does.\<close>

definition surely_not_created :: "exn + response \<Rightarrow> bool" where
  "surely_not_created answer =
     (case answer of Inl _ \<Rightarrow> False
      | Inr r \<Rightarrow> 400 \<le> status_code r \<and> status_code r < 500 \<and> status_code r \<noteq> 409)"

lemma open_outcome_flags:
  assumes "open_outcome T ctx target owner ws_id answer = Inr res"
  shows "m_retry_create (dr_meta res) = surely_not_created answer"
    "dr_ok res = (\<exists>r. answer = Inr r \<and> is_success r)"
    "dr_ok res \<or> dr_handle res = ws_id" "\<not> dr_gone res"
  using assms
  by (auto simp: open_outcome_def surely_not_created_def retryable_def ambiguous_def no_meta_def raise_for_status_def
      is_success_def split: sum.splits if_splits)

lemma create_body_keys:
  "fst ` set (create_body T ctx target ws_id)
     \<subseteq> {''ws_id'', ''name'', ''kind'', ''auto_approve_tools'', ''skill'', ''model'', ''project_id''}"
  by (auto simp: create_body_def config_item_def)

lemma create_body_ws_id: "map_of (create_body T ctx target ws_id) ''ws_id'' = Some (PStr ws_id)"
  by (simp add: create_body_def)

text \<open>
  C23. Runs are fail-closed. Opening a workstream either makes no create request at all (no
  owner could be resolved, or no token could be minted for it) and says that a create may be
  retried, or makes exactly one, with a token minted for the non-empty resolved owner, under the
  reserved id when the firing carries one, and with a body in which the blanket
  \<open>auto_approve\<close> does not occur, whatever the target's configuration holds.
\<close>

theorem open_runs_as_owner_or_not_at_all:
  assumes "ts_open T ctx target w = (r, w')"
  shows "(\<exists>d. r = Inr (failed [] d retryable)
       \<and> ((\<exists>owner. owner_of T ctx w = (owner, w') \<and> owner = [])
          \<or> (\<exists>owner w1 e. owner_of T ctx w = (owner, w1) \<and> token_for (ts_admin T) owner w1 = (Inl e, w'))))
    \<or> (\<exists>owner w1 token w2 w3 ws_id body answer.
        owner_of T ctx w = (owner, w1) \<and> owner \<noteq> [] \<and> token_for (ts_admin T) owner w1 = (Inr token, w2)
      \<and> out (h_post (ta_http (ts_admin T)) (create_url T) (bearer token) (Body_Json body)) w3 = (answer, w')
      \<and> map_of body ''ws_id'' = Some (PStr ws_id) \<and> (fc_request_id ctx \<noteq> [] \<longrightarrow> ws_id = fc_request_id ctx \<and> w3 = w2)
      \<and> map_of body ''auto_approve'' = None)"
  using assms
proof (cases rule: ts_openE)
  case (posted owner w1 token w2 ws_id w3 answer)
  have "map_of (create_body T ctx target ws_id) ''auto_approve'' = None"
    using create_body_keys[of T ctx target ws_id] by (auto simp: map_of_eq_None_iff)
  then show ?thesis using posted create_body_ws_id[of T ctx target ws_id] by blast
qed blast

text \<open>
  A create is repeated only when none can exist. When an open fails after its request was
  sent, the result invites another create exactly when the answer was a 4xx other than 409; a
  lost answer, a 409, a redirect or a server error is left for reconciliation, under the id the
  create was made with. Success is reported only for a 2xx.
\<close>

theorem recreate_only_when_refused:
  assumes "ts_open T ctx target w = (Inr res, w')" "fc_request_id ctx \<noteq> []"
  shows "(\<exists>d. res = failed [] d retryable)
    \<or> (\<exists>token w3 answer.
         out (h_post (ta_http (ts_admin T)) (create_url T) (bearer token)
            (Body_Json (create_body T ctx target (fc_request_id ctx)))) w3 = (answer, w')
       \<and> (m_retry_create (dr_meta res) \<longleftrightarrow> surely_not_created answer)
       \<and> (dr_ok res \<longleftrightarrow> (\<exists>r. answer = Inr r \<and> is_success r))
       \<and> (dr_ok res \<or> dr_handle res = fc_request_id ctx) \<and> \<not> dr_gone res)"
  using assms(1)
proof (cases rule: ts_openE)
  case (unsent d)
  then show ?thesis by blast
next
  case (posted owner w1 token w2 ws_id w3 answer)
  have "ws_id = fc_request_id ctx" using posted(4) assms(2) by simp
  then show ?thesis using posted(5) open_outcome_flags[OF posted(6)[symmetric]] by metis
qed

lemma demo_open:
  "case ts_open (demo_turnstone 409) (owned_ctx ''u1'') (ws_target [(''auto_approve'', PBool True)]) no_cache of
     (Inr res, w') \<Rightarrow> \<not> m_retry_create (dr_meta res) \<and> dr_handle res = ''h'' \<and> length (tw_out w') = 2 | _ \<Rightarrow> False"
  "case ts_open (demo_turnstone 200) (owned_ctx []) (ws_target []) no_cache of
     (Inr res, w') \<Rightarrow> tw_out w' = [] \<and> m_retry_create (dr_meta res) | _ \<Rightarrow> False"
  by code_simp+

theorem open_runs_as_owner_or_not_at_all_witness:
  "\<exists>r w' body. ts_open (demo_turnstone 409) (owned_ctx ''u1'') (ws_target [(''auto_approve'', PBool True)]) no_cache = (r, w')
     \<and> tw_out w' = [(''/v1/api/admin/users/u1/tokens'', Some (Body_Json [(''name'', PStr ''ringdown-runas''), (''scopes'', PStr ''run''), (''expires_days'', PInt 1)])),
          (''/v1/api/route/workstreams/new'', Some (Body_Json body))]
     \<and> map_of body ''ws_id'' = Some (PStr ''h'') \<and> map_of body ''auto_approve'' = None"
proof -
  obtain r w' where o: "ts_open (demo_turnstone 409) (owned_ctx ''u1'') (ws_target [(''auto_approve'', PBool True)]) no_cache = (r, w')" by fastforce
  have own: "owner_of (demo_turnstone 409) (owned_ctx ''u1'') no_cache = (''u1'', no_cache)" by code_simp
  obtain w2 where tok: "token_for (ts_admin (demo_turnstone 409)) ''u1'' no_cache = (Inr ''tk'', w2)"
     "tw_out w2 = [(''/v1/api/admin/users/u1/tokens'', Some (Body_Json [(''name'', PStr ''ringdown-runas''), (''scopes'', PStr ''run''), (''expires_days'', PInt 1)]))]"
    by (simp add: token_for_def no_cache_def demo_turnstone_def api_http_def out_def raise_for_status_def is_success_def)
  from open_runs_as_owner_or_not_at_all[OF o] own tok(1)
  obtain body w3 answer where
    "out (h_post (ta_http (ts_admin (demo_turnstone 409))) (create_url (demo_turnstone 409)) (bearer ''tk'') (Body_Json body)) w3 = (answer, w')"
    "w3 = w2" "map_of body ''ws_id'' = Some (PStr ''h'')" "map_of body ''auto_approve'' = None"
    by (auto simp: owned_ctx_def)
  then show ?thesis using o tok(2) by (auto simp: out_def demo_turnstone_def api_http_def create_url_def)
qed

theorem recreate_only_when_refused_witness:
  "\<exists>res w'. ts_open (demo_turnstone 409) (owned_ctx ''u1'') (ws_target [(''auto_approve'', PBool True)]) no_cache = (Inr res, w')
     \<and> \<not> m_retry_create (dr_meta res) \<and> \<not> dr_gone res"
proof -
  obtain res w' where o: "ts_open (demo_turnstone 409) (owned_ctx ''u1'') (ws_target [(''auto_approve'', PBool True)]) no_cache = (Inr res, w')"
    "\<not> m_retry_create (dr_meta res)"
    using demo_open(1) by (auto split: prod.splits sum.splits)
  have "fc_request_id (owned_ctx ''u1'') \<noteq> []" by (simp add: owned_ctx_def)
  from recreate_only_when_refused[OF o(1) this] o show ?thesis by (auto simp: retryable_def)
qed

end
