(* ===== verification/Json.thy ===== *)
theory Json
  imports Py_Value
begin

text \<open>
  \<open>json.loads\<close> and \<open>json.dumps\<close> as the source uses them. The reader recurses under fuel;
  twice the length of the text is always enough (\<open>fuel_enough\<close>), and what \<open>dumps\<close> writes is read back
  (\<open>loads_dumps\<close>). The text of a float literal is made a float by the parameter \<open>fl\<close>; an escape of
  a code point beyond the model's characters reads as the substitute character.
\<close>

section \<open>Reading\<close>

definition json_ws :: "char \<Rightarrow> bool" where
  "json_ws c = (c \<in> {CHR 0x20, CHR 0x09, CHR 0x0A, CHR 0x0D})"

definition skip_ws :: "string \<Rightarrow> string" where
  "skip_ws s = dropWhile json_ws s"

definition hex_val :: "char \<Rightarrow> nat option" where
  "hex_val c =
     (let n = code_point c in
      if 48 \<le> n \<and> n \<le> 57 then Some (n - 48)
      else if 65 \<le> n \<and> n \<le> 70 then Some (n - 55)
      else if 97 \<le> n \<and> n \<le> 102 then Some (n - 87)
      else None)"

definition hex4 :: "char \<Rightarrow> char \<Rightarrow> char \<Rightarrow> char \<Rightarrow> nat option" where
  "hex4 a b c d =
     (case (hex_val a, hex_val b, hex_val c, hex_val d) of
        (Some a, Some b, Some c, Some d) \<Rightarrow> Some (((a * 16 + b) * 16 + c) * 16 + d)
      | _ \<Rightarrow> None)"

definition code_char :: "nat \<Rightarrow> char" where
  "code_char n = (if n < 256 then char_of n else CHR 0x1A)"

definition plain_escape :: "char \<Rightarrow> char option" where
  "plain_escape e =
     (if e = CHR 0x22 \<or> e = CHR 0x5C \<or> e = CHR ''/'' then Some e
      else if e = CHR ''b'' then Some (CHR 0x08) else if e = CHR ''f'' then Some (CHR 0x0C)
      else if e = CHR ''n'' then Some (CHR 0x0A) else if e = CHR ''r'' then Some (CHR 0x0D)
      else if e = CHR ''t'' then Some (CHR 0x09) else None)"

definition put :: "char \<Rightarrow> (string \<times> string) option \<Rightarrow> (string \<times> string) option" where
  "put c r = map_option (\<lambda>(s, rest). (c # s, rest)) r"

text \<open>The text after an opening quote: the string and what follows its closing quote.\<close>

fun scan_string :: "string \<Rightarrow> (string \<times> string) option" where
  "scan_string [] = None"
| "scan_string (c # cs) =
     (if c = CHR 0x22 then Some ([], cs)
      else if c = CHR 0x5C then
        (case cs of
           [] \<Rightarrow> None
         | e # r1 \<Rightarrow>
           if e = CHR ''u'' then
             (case r1 of
                h1 # h2 # h3 # h4 # r2 \<Rightarrow>
                  (case hex4 h1 h2 h3 h4 of None \<Rightarrow> None | Some n \<Rightarrow> put (code_char n) (scan_string r2))
              | _ \<Rightarrow> None)
           else (case plain_escape e of None \<Rightarrow> None | Some x \<Rightarrow> put x (scan_string r1)))
      else if code_point c < 32 then None
      else put c (scan_string cs))"

definition digits_value :: "string \<Rightarrow> nat" where
  "digits_value s = foldl (\<lambda>a c. a * 10 + (code_point c - 48)) 0 s"

definition scan_frac :: "string \<Rightarrow> string \<times> string" where
  "scan_frac s = (case s of
     p # d # r \<Rightarrow> if p = CHR ''.'' \<and> is_digit d then (p # takeWhile is_digit (d # r), dropWhile is_digit (d # r)) else ([], s)
   | _ \<Rightarrow> ([], s))"

definition scan_exp :: "string \<Rightarrow> string \<times> string" where
  "scan_exp s = (case s of
     e # r \<Rightarrow>
       if e = CHR ''e'' \<or> e = CHR ''E'' then
         (let sign = (case r of x # _ \<Rightarrow> if x = CHR ''+'' \<or> x = CHR ''-'' then [x] else [] | [] \<Rightarrow> []);
              t = drop (length sign) r
          in if takeWhile is_digit t = [] then ([], s)
             else (e # sign @ takeWhile is_digit t, dropWhile is_digit t))
       else ([], s)
   | [] \<Rightarrow> ([], s))"

definition scan_nat :: "string \<Rightarrow> (string \<times> string) option" where
  "scan_nat s = (case s of
     d # r \<Rightarrow> if d = CHR ''0'' then Some ([d], r)
              else if is_digit d then Some (takeWhile is_digit s, dropWhile is_digit s) else None
   | [] \<Rightarrow> None)"

definition finish_number :: "(string \<Rightarrow> string) \<Rightarrow> bool \<Rightarrow> string \<Rightarrow> string \<Rightarrow> pyval \<times> string" where
  "finish_number fl neg i r =
     (case scan_frac r of (fr, r1) \<Rightarrow> case scan_exp r1 of (ex, r2) \<Rightarrow>
        (if fr = [] \<and> ex = [] then PInt (if neg then - int (digits_value i) else int (digits_value i))
         else PFloat (fl ((if neg then ''-'' else []) @ i @ fr @ ex)), r2))"

definition scan_number :: "(string \<Rightarrow> string) \<Rightarrow> string \<Rightarrow> (pyval \<times> string) option" where
  "scan_number fl s =
     (let neg = (s \<noteq> [] \<and> hd s = CHR ''-''); t = (if neg then tl s else s)
      in map_option (\<lambda>(i, r). finish_number fl neg i r) (scan_nat t))"

definition literals :: "(string \<times> pyval) list" where
  "literals = [(''null'', PNone), (''true'', PBool True), (''false'', PBool False), (''NaN'', PFloat ''nan''),
     (''Infinity'', PFloat ''inf''), (''-Infinity'', PFloat ''-inf'')]"

definition scan_literal :: "string \<Rightarrow> (pyval \<times> string) option" where
  "scan_literal s = map_option (\<lambda>(w, v). (v, drop (length w) s)) (find (\<lambda>(w, v). prefix w s) literals)"

text \<open>The value at the front of a text; the elements after \<open>[\<close>; the members after \<open>{\<close>.\<close>

fun parse_value :: "(string \<Rightarrow> string) \<Rightarrow> nat \<Rightarrow> string \<Rightarrow> (pyval \<times> string) option"
and parse_elems :: "(string \<Rightarrow> string) \<Rightarrow> nat \<Rightarrow> string \<Rightarrow> (pyval list \<times> string) option"
and parse_members :: "(string \<Rightarrow> string) \<Rightarrow> nat \<Rightarrow> dict \<Rightarrow> string \<Rightarrow> (dict \<times> string) option" where
  "parse_value fl 0 s = None"
| "parse_value fl (Suc n) s =
     (case s of
        [] \<Rightarrow> None
      | c # cs \<Rightarrow>
        if c = CHR 0x22 then map_option (\<lambda>(x, r). (PStr x, r)) (scan_string cs)
        else if c = CHR ''['' then
          (if skip_ws cs \<noteq> [] \<and> hd (skip_ws cs) = CHR '']'' then Some (PList [], tl (skip_ws cs))
           else map_option (\<lambda>(xs, r). (PList xs, r)) (parse_elems fl n (skip_ws cs)))
        else if c = CHR ''{'' then
          (if skip_ws cs \<noteq> [] \<and> hd (skip_ws cs) = CHR ''}'' then Some (PDict [], tl (skip_ws cs))
           else map_option (\<lambda>(d, r). (PDict d, r)) (parse_members fl n [] (skip_ws cs)))
        else (case scan_literal s of Some r \<Rightarrow> Some r | None \<Rightarrow> scan_number fl s))"
| "parse_elems fl 0 s = None"
| "parse_elems fl (Suc n) s =
     (case parse_value fl n s of
        None \<Rightarrow> None
      | Some (x, r) \<Rightarrow>
        (case skip_ws r of
           [] \<Rightarrow> None
         | c # cs \<Rightarrow> if c = CHR '']'' then Some ([x], cs)
                     else if c = CHR '','' then map_option (\<lambda>(xs, r). (x # xs, r)) (parse_elems fl n (skip_ws cs))
                     else None))"
| "parse_members fl 0 d s = None"
| "parse_members fl (Suc n) d s =
     (case s of
        [] \<Rightarrow> None
      | q # qs \<Rightarrow>
        if q \<noteq> CHR 0x22 then None
        else (case scan_string qs of
           None \<Rightarrow> None
         | Some (k, r) \<Rightarrow>
           (case skip_ws r of
              [] \<Rightarrow> None
            | c # cs \<Rightarrow>
              if c \<noteq> CHR '':'' then None
              else (case parse_value fl n (skip_ws cs) of
                 None \<Rightarrow> None
               | Some (v, r2) \<Rightarrow>
                 (case skip_ws r2 of
                    [] \<Rightarrow> None
                  | e # es \<Rightarrow> if e = CHR ''}'' then Some (dict_set d k v, es)
                              else if e = CHR '','' then parse_members fl n (dict_set d k v) (skip_ws es)
                              else None)))))"

declare parse_value.simps [simp del] parse_elems.simps [simp del] parse_members.simps [simp del]

definition json_loads :: "(string \<Rightarrow> string) \<Rightarrow> string \<Rightarrow> exn + pyval" where
  "json_loads fl s =
     (case parse_value fl (2 * length s + 2) (skip_ws s) of
        None \<Rightarrow> Inl (Exn ''JSONDecodeError'' ''Expecting value'')
      | Some (v, r) \<Rightarrow> if skip_ws r = [] then Inr v else Inl (Exn ''JSONDecodeError'' ''Extra data''))"

section \<open>Writing\<close>

definition escape_char :: "bool \<Rightarrow> char \<Rightarrow> string" where
  "escape_char ascii_only c =
     (if c = CHR 0x22 \<or> c = CHR 0x5C then [CHR 0x5C, c]
      else if c = CHR 0x0A then [CHR 0x5C, CHR ''n''] else if c = CHR 0x0D then [CHR 0x5C, CHR ''r'']
      else if c = CHR 0x09 then [CHR 0x5C, CHR ''t''] else if c = CHR 0x08 then [CHR 0x5C, CHR ''b'']
      else if c = CHR 0x0C then [CHR 0x5C, CHR ''f'']
      else if code_point c < 32 \<or> (ascii_only \<and> 126 < code_point c)
      then [CHR 0x5C, CHR ''u'', CHR ''0'', CHR ''0'', hex_digit (code_point c div 16), hex_digit (code_point c mod 16)]
      else [c])"

definition dump_string :: "bool \<Rightarrow> string \<Rightarrow> string" where
  "dump_string asc s = [CHR 0x22] @ concat (map (escape_char asc) s) @ [CHR 0x22]"

text \<open>\<open>json.dumps\<close> with compact separators, or with the default ones.\<close>

definition float_json :: "string \<Rightarrow> string" where
  "float_json r = (if r = ''inf'' then ''Infinity'' else if r = ''-inf'' then ''-Infinity'' else if r = ''nan'' then ''NaN'' else r)"

fun json_dumps :: "bool \<Rightarrow> bool \<Rightarrow> pyval \<Rightarrow> string" where
  "json_dumps asc spaced PNone = ''null''"
| "json_dumps asc spaced (PBool b) = (if b then ''true'' else ''false'')"
| "json_dumps asc spaced (PInt i) = int_text i"
| "json_dumps asc spaced (PFloat r) = float_json r"
| "json_dumps asc spaced (PStr s) = dump_string asc s"
| "json_dumps asc spaced (PList xs) =
     ''['' @ join (if spaced then '', '' else '','') (map (json_dumps asc spaced) xs) @ '']''"
| "json_dumps asc spaced (PDict d) =
     ''{'' @ join (if spaced then '', '' else '','')
       (map (\<lambda>(k, v). dump_string asc k @ (if spaced then '': '' else '':'') @ json_dumps asc spaced v) d) @ ''}''"


section \<open>The fuel is enough\<close>

lemma put_Some: "put c r = Some (s, rest) \<longleftrightarrow> (\<exists>s'. r = Some (s', rest) \<and> s = c # s')"
  by (cases r) (auto simp: put_def)

lemma scan_string_shrinks: "scan_string s = Some (x, r) \<Longrightarrow> length r < length s"
proof (induction s arbitrary: x rule: scan_string.induct)
  case (2 c cs)
  then show ?case
    by (fastforce simp: put_Some split: if_splits list.splits option.splits)
qed simp

lemma length_skip_ws: "length (skip_ws s) \<le> length s"
  by (simp add: skip_ws_def length_dropWhile_le)

lemma scan_literal_shrinks: "scan_literal s = Some (v, r) \<Longrightarrow> length r < length s"
  by (auto simp: scan_literal_def literals_def prefix_def split: if_splits)

lemma scan_frac_le: "length (snd (scan_frac s)) \<le> length s"
  using length_dropWhile_le by (fastforce simp: scan_frac_def split: list.split intro: le_SucI le_trans)

lemma scan_exp_le: "length (snd (scan_exp s)) \<le> length s"
proof (cases s)
  case (Cons e r)
  have "length (dropWhile is_digit (drop k r)) \<le> length r" for k
    by (rule le_trans[OF length_dropWhile_le]) simp
  then show ?thesis by (auto simp: scan_exp_def Cons Let_def intro: le_SucI)
qed (simp add: scan_exp_def)

lemma scan_nat_shrinks: "scan_nat s = Some (i, r) \<Longrightarrow> length r < length s"
  by (auto simp: scan_nat_def le_imp_less_Suc length_dropWhile_le split: list.splits if_splits)

lemma finish_number_le: "length (snd (finish_number fl neg i r)) \<le> length r"
proof -
  obtain fr r1 ex r2 where e: "scan_frac r = (fr, r1)" "scan_exp r1 = (ex, r2)" by (metis surj_pair)
  then show ?thesis using scan_frac_le[of r] scan_exp_le[of r1] by (simp add: finish_number_def)
qed

lemma scan_number_shrinks: "scan_number fl s = Some (v, r) \<Longrightarrow> length r < length s"
proof -
  assume a: "scan_number fl s = Some (v, r)"
  define t where "t = (if s \<noteq> [] \<and> hd s = CHR ''-'' then tl s else s)"
  obtain i r0 where n: "scan_nat t = Some (i, r0)" "r = snd (finish_number fl (s \<noteq> [] \<and> hd s = CHR ''-'') i r0)"
    using a by (auto simp: scan_number_def Let_def t_def)
  have "length r \<le> length r0" unfolding n(2) by (rule finish_number_le)
  also have "\<dots> < length t" using n(1) by (rule scan_nat_shrinks)
  also have "\<dots> \<le> length s" by (simp add: t_def)
  finally show ?thesis .
qed

lemma parse_shrinks:
  "parse_value fl n s = Some (v, r) \<Longrightarrow> length r < length s"
  "parse_elems fl n s = Some (xs, r) \<Longrightarrow> length r < length s"
  "parse_members fl n d s = Some (d', r) \<Longrightarrow> length r < length s"
proof (induction fl n s and fl n s and fl n d s arbitrary: v r and xs r and d' r
    rule: parse_value_parse_elems_parse_members.induct)
  case (2 fl n s)
  show ?case
  proof (cases s)
    case (Cons c cs)
    have l: "length (skip_ws cs) < length s" using length_skip_ws[of cs] by (simp add: Cons)
    note p = 2(3)[unfolded Cons parse_value.simps list.case]
    consider (str) "c = CHR 0x22" | (arr) "c = CHR ''[''" | (obj) "c = CHR ''{''" | (other) "c \<noteq> CHR 0x22" "c \<noteq> CHR ''[''" "c \<noteq> CHR ''{''"
      by blast
    then show ?thesis
    proof cases
      case str
      then show ?thesis using p Cons by (auto dest: scan_string_shrinks)
    next
      case arr
      show ?thesis
      proof (cases "skip_ws cs \<noteq> [] \<and> hd (skip_ws cs) = CHR '']''")
        case True
        then have "r = tl (skip_ws cs)" using p arr by simp
        then show ?thesis using l by simp
      next
        case False
        then obtain xs where x: "parse_elems fl n (skip_ws cs) = Some (xs, r)" using p arr by auto
        have "length r < length (skip_ws cs)" by (rule 2(1)[OF Cons _ arr False x]) (simp add: arr)
        then show ?thesis using l by simp
      qed
    next
      case obj
      show ?thesis
      proof (cases "skip_ws cs \<noteq> [] \<and> hd (skip_ws cs) = CHR ''}''")
        case True
        then have "r = tl (skip_ws cs)" using p obj by simp
        then show ?thesis using l by simp
      next
        case False
        then obtain d where x: "parse_members fl n [] (skip_ws cs) = Some (d, r)" using p obj by auto
        have "length r < length (skip_ws cs)" by (rule 2(2)[OF Cons _ _ obj False x]) (simp_all add: obj)
        then show ?thesis using l by simp
      qed
    next
      case other
      then have "(case scan_literal s of Some r \<Rightarrow> Some r | None \<Rightarrow> scan_number fl s) = Some (v, r)" using p unfolding Cons by simp
      then show ?thesis by (auto dest: scan_literal_shrinks scan_number_shrinks split: option.splits)
    qed
  qed (use 2(3) in \<open>simp add: parse_value.simps\<close>)
next
  case (4 fl n s)
  from 4(3) obtain x r1 c cs where v: "parse_value fl n s = Some (x, r1)" "skip_ws r1 = c # cs"
    by (auto simp: parse_elems.simps split: option.splits list.splits)
  have "length r1 < length s" using 4(1) v(1) .
  then have l: "length cs < length s" using length_skip_ws[of r1] v(2) by simp
  show ?case
  proof (cases "c = CHR '']''")
    case True then show ?thesis using 4(3) v l by (simp add: parse_elems.simps)
  next
    case False
    then obtain xs' where "parse_elems fl n (skip_ws cs) = Some (xs', r)" "c = CHR '',''"
      using 4(3) v by (auto simp: parse_elems.simps split: if_splits)
    then have "length r < length (skip_ws cs)" using 4(2)[OF v(1) _ v(2)] False by auto
    then show ?thesis using l length_skip_ws[of cs] by simp
  qed
next
  case (6 fl n d s)
  from 6(3) obtain qs k r1 cs v r2 e es where v: "s = CHR 0x22 # qs" "scan_string qs = Some (k, r1)" "skip_ws r1 = CHR '':'' # cs"
      "parse_value fl n (skip_ws cs) = Some (v, r2)" "skip_ws r2 = e # es"
    by (auto simp: parse_members.simps split: option.splits list.splits if_splits)
  have "length r1 < length s" using scan_string_shrinks[OF v(2)] v(1) by simp
  then have l1: "length cs < length s" using length_skip_ws[of r1] v(3) by simp
  have "length r2 < length (skip_ws cs)" using 6(1)[OF v(1) _ v(2) _ v(3) _ v(4)] by simp
  then have l2: "length es < length s" using l1 length_skip_ws[of cs] length_skip_ws[of r2] v(5) by simp
  show ?case
  proof (cases "e = CHR ''}''")
    case True then show ?thesis using 6(3) v l2 by (simp add: parse_members.simps)
  next
    case False
    then have "parse_members fl n (dict_set d k v) (skip_ws es) = Some (d', r)" "e = CHR '',''"
      using 6(3) v by (auto simp: parse_members.simps split: if_splits)
    then have "length r < length (skip_ws es)" using 6(2)[OF v(1) _ v(2) _ v(3) _ v(4) _ v(5)] False by auto
    then show ?thesis using l2 length_skip_ws[of es] by simp
  qed
qed (simp_all add: parse_value.simps parse_elems.simps parse_members.simps)

text \<open>Past twice the length of the text, fuel makes no difference.\<close>

lemma fuel_irrelevant:
  "2 * length s < n \<Longrightarrow> 2 * length s < m \<Longrightarrow> parse_value fl n s = parse_value fl m s"
  "2 * length s + 1 < n \<Longrightarrow> 2 * length s + 1 < m \<Longrightarrow> parse_elems fl n s = parse_elems fl m s"
  "2 * length s + 1 < n \<Longrightarrow> 2 * length s + 1 < m \<Longrightarrow> parse_members fl n d s = parse_members fl m d s"
proof (induction n arbitrary: m s d)
  case (Suc n)
  {
    case 1
    then obtain m' where m: "m = Suc m'" by (cases m) auto
    show ?case
    proof (cases s)
      case (Cons c cs)
      have "2 * length (skip_ws cs) + 1 < n" "2 * length (skip_ws cs) + 1 < m'"
        using 1 m Cons length_skip_ws[of cs] by simp_all
      from Suc(2)[OF this] Suc(3)[OF this] show ?thesis by (simp only: m Cons parse_value.simps list.case)
    qed (simp add: m parse_value.simps)
  next
    case 2
    then obtain m' where m: "m = Suc m'" by (cases m) auto
    have v: "parse_value fl n s = parse_value fl m' s" by (rule Suc(1)) (use 2 m in simp_all)
    have "parse_elems fl n (skip_ws cs) = parse_elems fl m' (skip_ws cs)"
      if "parse_value fl m' s = Some (x, r)" "skip_ws r = c # cs" for x r c cs
    proof (rule Suc(2))
      have "length r < length s" using that(1) by (rule parse_shrinks)
      then have "length (skip_ws cs) < length s" using that(2) length_skip_ws[of r] length_skip_ws[of cs] by simp
      then show "2 * length (skip_ws cs) + 1 < n" "2 * length (skip_ws cs) + 1 < m'" using 2 m by simp_all
    qed
    then show ?case by (simp add: m parse_elems.simps v split: option.split list.split)
  next
    case 3
    then obtain m' where m: "m = Suc m'" by (cases m) auto
    have v: "parse_value fl n (skip_ws cs) = parse_value fl m' (skip_ws cs)"
      if "s = q # qs" "scan_string qs = Some (k, r)" "skip_ws r = c # cs" for q qs k r c cs
    proof (rule Suc(1))
      have "length (skip_ws cs) < length s"
        using that scan_string_shrinks[OF that(2)] length_skip_ws[of r] length_skip_ws[of cs] by simp
      then show "2 * length (skip_ws cs) < n" "2 * length (skip_ws cs) < m'" using 3 m by simp_all
    qed
    have e: "parse_members fl n d2 (skip_ws es) = parse_members fl m' d2 (skip_ws es)"
      if "s = q # qs" "scan_string qs = Some (k, r)" "skip_ws r = c # cs"
        "parse_value fl m' (skip_ws cs) = Some (x, r2)" "skip_ws r2 = e # es" for q qs k r c cs x r2 e es d2
    proof (rule Suc(3))
      have "length (skip_ws es) < length s"
        using that scan_string_shrinks[OF that(2)] parse_shrinks(1)[OF that(4)] length_skip_ws[of r] length_skip_ws[of cs]
          length_skip_ws[of r2] length_skip_ws[of es] by simp
      then show "2 * length (skip_ws es) + 1 < n" "2 * length (skip_ws es) + 1 < m'" using 3 m by simp_all
    qed
    show ?case
    proof (cases s)
      case (Cons q qs)
      note s = Cons
      show ?thesis
      proof (cases "q = CHR 0x22")
        case True
        show ?thesis
        proof (cases "scan_string qs")
          case (Some kr)
          obtain k r where kr: "scan_string qs = Some (k, r)" using Some by (cases kr) simp
          show ?thesis
          proof (cases "skip_ws r")
            case (Cons c cs)
            note vv = v[OF s kr Cons]
            show ?thesis
            proof (cases "parse_value fl m' (skip_ws cs)")
              case None then show ?thesis by (simp add: m s True kr Cons parse_members.simps vv)
            next
              case (Some xr)
              then obtain x r2 where xr: "parse_value fl m' (skip_ws cs) = Some (x, r2)" by (cases xr) simp
              show ?thesis
              proof (cases "skip_ws r2")
                case Nil then show ?thesis by (simp add: m s True kr Cons parse_members.simps vv xr)
              next
                case e': (Cons f es)
                show ?thesis
                  by (simp only: m s True kr Cons parse_members.simps vv xr e' list.case option.case prod.case e[OF s kr Cons xr e'])
              qed
            qed
          qed (simp add: m s True kr parse_members.simps)
        qed (simp add: m s True parse_members.simps)
      qed (simp add: m s parse_members.simps)
    qed (simp add: m parse_members.simps)
  }
qed simp_all

lemma fuel_enough:
  "n \<ge> 2 * length s + 2 \<Longrightarrow> json_loads fl s =
     (case parse_value fl n (skip_ws s) of
        None \<Rightarrow> Inl (Exn ''JSONDecodeError'' ''Expecting value'')
      | Some (v, r) \<Rightarrow> if skip_ws r = [] then Inr v else Inl (Exn ''JSONDecodeError'' ''Extra data''))"
  using fuel_irrelevant(1)[of "skip_ws s" n "2 * length s + 2" fl] length_skip_ws[of s] by (simp add: json_loads_def)


section \<open>What is written is read back\<close>

text \<open>Values without floats whose dictionaries have distinct keys.\<close>

fun json_ok :: "pyval \<Rightarrow> bool" where
  "json_ok (PFloat r) = False"
| "json_ok (PList xs) = list_all json_ok xs"
| "json_ok (PDict d) = (distinct (map fst d) \<and> list_all (\<lambda>(k, v). json_ok v) d)"
| "json_ok v = True"

lemma hex_val_digit: "n < 16 \<Longrightarrow> hex_val (hex_digit n) = Some n"
  by (auto simp: hex_val_def hex_digit_def Let_def)

lemma put_map: "put c (Some (s, r)) = Some (c # s, r)"
  by (simp add: put_def)

lemma scan_escape: "scan_string (escape_char asc c @ t) = put c (scan_string t)"
proof -
  have h: "hex4 (CHR ''0'') (CHR ''0'') (hex_digit (code_point c div 16)) (hex_digit (code_point c mod 16)) = Some (code_point c)"
    using code_point_lt[of c] by (simp add: hex4_def hex_val_digit) (simp add: hex_val_def Let_def code_point_def)
  have "code_char (code_point c) = c" using code_point_lt[of c] by (simp add: code_char_def code_point_def)
  then show ?thesis
    by (auto simp: escape_char_def plain_escape_def h)
qed

lemma scan_dump: "scan_string (concat (map (escape_char asc) s) @ CHR 0x22 # t) = Some (s, t)"
  by (induction s) (simp_all add: scan_escape put_map)

lemma digits_snoc: "digits_value (s @ [c]) = digits_value s * 10 + (code_point c - 48)"
  by (simp add: digits_value_def)

lemma digit_code: "n < 10 \<Longrightarrow> code_point (char_of (48 + n)) = 48 + n"
  by simp

lemma zero_char: "char_of (48 :: nat) = CHR ''0''"
  by code_simp

lemma nat_digits_props:
  "digits_value (nat_digits n) = n \<and> nat_digits n \<noteq> [] \<and> list_all is_digit (nat_digits n)
   \<and> (hd (nat_digits n) = CHR ''0'' \<longrightarrow> n = 0)"
proof (induction n rule: nat_digits.induct)
  case (1 n)
  have z: "char_of (48 + m) = CHR ''0'' \<longleftrightarrow> m = 0" if "m < 10" for m :: nat
  proof
    assume "char_of (48 + m) = CHR ''0''"
    then have "code_point (char_of (48 + m)) = code_point (CHR ''0'')" by simp
    then show "m = 0" using digit_code[OF that] by (simp add: code_point_def)
  qed (simp add: zero_char)
  have d: "is_digit (char_of (48 + m))" if "m < 10" for m :: nat
    using that by (simp add: is_digit_def)
  show ?case
  proof (cases "n < 10")
    case True
    then show ?thesis using z[OF True] d[OF True] digit_code[OF True]
      by (subst (1 2 3 4) nat_digits.simps) (simp add: digits_value_def)
  next
    case False
    have m: "n mod 10 < 10" by simp
    have e: "nat_digits n = nat_digits (n div 10) @ [char_of (48 + n mod 10)]" using False by (subst nat_digits.simps) simp
    show ?thesis using 1[OF False] d[OF m] digit_code[OF m] False by (auto simp: e digits_snoc)
  qed
qed

text \<open>What may follow a value inside a document.\<close>

definition ends_value :: "string \<Rightarrow> bool" where
  "ends_value r = (r = [] \<or> hd r \<in> {CHR '','', CHR '']'', CHR ''}''})"

lemma ends_value_number:
  assumes "ends_value r"
  shows "scan_frac r = ([], r)" "scan_exp r = ([], r)" "takeWhile is_digit r = []"
proof -
  have "r = [] \<or> (\<exists>c t. r = c # t \<and> c \<noteq> CHR ''.'' \<and> c \<noteq> CHR ''e'' \<and> c \<noteq> CHR ''E'' \<and> \<not> is_digit c)"
    using assms by (cases r) (auto simp: ends_value_def is_digit_def code_point_def)
  then show "scan_frac r = ([], r)" "scan_exp r = ([], r)" "takeWhile is_digit r = []"
    by (auto simp: scan_frac_def scan_exp_def split: list.split)
qed

lemma scan_nat_digits:
  assumes "ends_value r" shows "scan_nat (nat_digits n @ r) = Some (nat_digits n, r)"
proof -
  note p = nat_digits_props[of n]
  have all: "\<And>x. x \<in> set (nat_digits n) \<Longrightarrow> is_digit x" using p by (simp add: list_all_iff)
  have tw: "takeWhile is_digit (nat_digits n @ r) = nat_digits n"
    using all ends_value_number(3)[OF assms] by (simp add: takeWhile_append2)
  have dw: "dropWhile is_digit (nat_digits n @ r) = r"
  proof -
    have "dropWhile is_digit r = r" using ends_value_number(3)[OF assms] by (metis takeWhile_dropWhile_id append_Nil)
    then show ?thesis using all by (simp add: dropWhile_append2)
  qed
  obtain d ds where d: "nat_digits n = d # ds" using p by (cases "nat_digits n") auto
  show ?thesis
  proof (cases "d = CHR ''0''")
    case True
    then have "n = 0" using p d by simp
    then have "nat_digits n = [CHR ''0'']" by (simp add: nat_digits.simps zero_char)
    then show ?thesis by (simp add: scan_nat_def)
  next
    case False
    then show ?thesis using tw dw d all[of d] by (simp add: scan_nat_def)
  qed
qed

lemma scan_int:
  assumes "ends_value r"
  shows "scan_number fl (int_text i @ r) = Some (PInt i, r)"
proof -
  have h: "hd (nat_digits n @ r) \<noteq> CHR ''-''" for n
    using nat_digits_props[of n] by (cases "nat_digits n") (auto simp: is_digit_def code_point_def)
  show ?thesis
    using h[of "nat i"] by (auto simp: scan_number_def int_text_def scan_nat_digits[OF assms] finish_number_def
      ends_value_number[OF assms] nat_digits_props)
qed

lemma int_hd: "\<exists>c t. int_text i @ r = c # t \<and> (is_digit c \<or> c = CHR ''-'' \<and> (\<exists>d u. t = d # u \<and> is_digit d))"
proof -
  have "\<exists>d u. nat_digits n = d # u \<and> is_digit d" for n
    using nat_digits_props[of n] by (cases "nat_digits n") auto
  then show ?thesis by (metis append_Cons int_text_def)
qed

lemma scan_literal_digit: "is_digit d \<Longrightarrow> scan_literal (d # u) = None"
proof -
  assume "is_digit d"
  then have "d \<noteq> CHR ''n''" "d \<noteq> CHR ''t''" "d \<noteq> CHR ''f''" "d \<noteq> CHR ''N''" "d \<noteq> CHR ''I''" "d \<noteq> CHR ''-''"
    by (auto simp: is_digit_def code_point_def)
  then show ?thesis by (simp add: scan_literal_def literals_def)
qed

lemma scan_literal_int: "scan_literal (int_text i @ r) = None"
proof -
  obtain c t where c: "int_text i @ r = c # t" "is_digit c \<or> c = CHR ''-'' \<and> (\<exists>d u. t = d # u \<and> is_digit d)"
    using int_hd[of i r] by (elim exE conjE) (rule that)
  show ?thesis
  proof (cases "is_digit c")
    case True then show ?thesis unfolding c(1) by (rule scan_literal_digit)
  next
    case False
    then obtain d u where d: "c = CHR ''-''" "t = d # u" "is_digit d" using c(2) by blast
    then have "d \<noteq> CHR ''I''" by (auto simp: is_digit_def code_point_def)
    then show ?thesis unfolding c(1) d(1,2) by (simp add: scan_literal_def literals_def)
  qed
qed

definition sep :: "bool \<Rightarrow> string" where
  "sep spaced = (if spaced then '', '' else '','')"

definition member :: "bool \<Rightarrow> bool \<Rightarrow> string \<times> pyval \<Rightarrow> string" where
  "member asc spaced = (\<lambda>(k, v). dump_string asc k @ (if spaced then '': '' else '':'') @ json_dumps asc spaced v)"

text \<open>The first character of a written value is no blank and opens or ends nothing else.\<close>

lemma dumps_hd:
  assumes "json_ok v"
  shows "\<exists>c t. json_dumps asc spaced v = c # t \<and> \<not> json_ws c \<and> c \<noteq> CHR '']'' \<and> c \<noteq> CHR ''}''"
proof (cases v)
  case (PInt i)
  obtain c t where c: "int_text i = c # t" "is_digit c \<or> c = CHR ''-''" using int_hd[of i "[]"] by auto
  then have "\<not> json_ws c" "c \<noteq> CHR '']''" "c \<noteq> CHR ''}''" by (auto simp: is_digit_def code_point_def json_ws_def)
  then show ?thesis using PInt c by simp
qed (use assms in \<open>auto simp: json_ws_def dump_string_def\<close>)

lemma skip_dumps: "json_ok v \<Longrightarrow> skip_ws (json_dumps asc spaced v @ r) = json_dumps asc spaced v @ r"
  using dumps_hd[of v asc spaced] by (auto simp: skip_ws_def)

lemma join_Cons: "xs \<noteq> [] \<Longrightarrow> join s (x # xs) = x @ s @ join s xs"
  by (cases xs) simp_all

lemma ends_value_simps [simp]: "ends_value (CHR '','' # r)" "ends_value (CHR '']'' # r)" "ends_value (CHR ''}'' # r)" "ends_value []"
  by (simp_all add: ends_value_def)

lemma skip_ws_nonblank [simp]: "\<not> json_ws c \<Longrightarrow> skip_ws (c # s) = c # s"
  by (simp add: skip_ws_def)

lemma json_ws_simps [simp]: "\<not> json_ws (CHR '','')" "\<not> json_ws (CHR '']'')" "\<not> json_ws (CHR ''}'')" "\<not> json_ws (CHR '':'')"
  "\<not> json_ws (CHR 0x22)" "json_ws (CHR 0x20)"
  by (simp_all add: json_ws_def)

lemma skip_sep: "\<exists>u. sep spaced @ t = CHR '','' # u \<and> skip_ws u = skip_ws t"
  by (auto simp: sep_def skip_ws_def)

definition reads_back :: "(string \<Rightarrow> string) \<Rightarrow> bool \<Rightarrow> bool \<Rightarrow> pyval \<Rightarrow> bool" where
  "reads_back fl asc spaced v = (\<forall>n r. length (json_dumps asc spaced v) \<le> n \<longrightarrow> ends_value r \<longrightarrow>
     parse_value fl n (json_dumps asc spaced v @ r) = Some (v, r))"

lemma reads_backD:
  "reads_back fl asc spaced v \<Longrightarrow> length (json_dumps asc spaced v) \<le> n \<Longrightarrow> ends_value r
   \<Longrightarrow> parse_value fl n (json_dumps asc spaced v @ r) = Some (v, r)"
  by (simp add: reads_back_def)

lemma elems_back:
  assumes "xs \<noteq> []" "\<And>x. x \<in> set xs \<Longrightarrow> json_ok x \<and> reads_back fl asc spaced x"
    and "length (join (sep spaced) (map (json_dumps asc spaced) xs)) < n"
  shows "parse_elems fl n (join (sep spaced) (map (json_dumps asc spaced) xs) @ CHR '']'' # r) = Some (xs, r)"
  using assms
proof (induction xs arbitrary: n)
  case (Cons x xs)
  then obtain m where n: "n = Suc m" by (cases n) auto
  have x: "reads_back fl asc spaced x" using Cons.prems(2) by simp
  show ?case
  proof (cases "xs = []")
    case True
    then show ?thesis using Cons.prems(3) reads_backD[OF x, of m "CHR '']'' # r"] by (simp add: n parse_elems.simps)
  next
    case False
    let ?rest = "join (sep spaced) (map (json_dumps asc spaced) xs) @ CHR '']'' # r"
    have j: "join (sep spaced) (map (json_dumps asc spaced) (x # xs)) = json_dumps asc spaced x @ sep spaced
        @ join (sep spaced) (map (json_dumps asc spaced) xs)" using False by (simp add: join_Cons)
    obtain u where u: "sep spaced @ ?rest = CHR '','' # u" "skip_ws u = skip_ws ?rest" using skip_sep by blast
    obtain y ys where y: "xs = y # ys" using False by (cases xs) auto
    have "skip_ws ?rest = ?rest"
      using Cons.prems(2)[of y] skip_dumps[of y asc spaced] unfolding y by (cases ys) simp_all
    then have ie: "parse_elems fl m (skip_ws u) = Some (xs, r)"
      unfolding u(2) using Cons.IH[OF False, of m] Cons.prems(2,3) unfolding j n by (simp add: sep_def split: if_splits)
    have "length (json_dumps asc spaced x) \<le> m" using Cons.prems(3) unfolding j n by (simp add: sep_def split: if_splits)
    then have "parse_value fl m (json_dumps asc spaced x @ CHR '','' # u) = Some (x, CHR '','' # u)"
      by (rule reads_backD[OF x]) simp
    then show ?thesis unfolding j n using u(1) ie by (simp add: parse_elems.simps)
  qed
qed simp

lemma dict_set_fresh: "k \<notin> fst ` set d \<Longrightarrow> dict_set d k v = d @ [(k, v)]"
  by (induction d k v rule: dict_set.induct) auto

lemma member_parts:
  "\<exists>u. member asc spaced (k, v) @ t = CHR 0x22 # concat (map (escape_char asc) k) @ CHR 0x22 # CHR '':'' # u
     \<and> skip_ws u = skip_ws (json_dumps asc spaced v @ t)"
  by (auto simp: member_def dump_string_def skip_ws_def)

lemma members_back:
  assumes "d \<noteq> []" "\<And>k v. (k, v) \<in> set d \<Longrightarrow> json_ok v \<and> reads_back fl asc spaced v"
    and "length (join (sep spaced) (map (member asc spaced) d)) < n"
    and "distinct (map fst d)" "fst ` set d0 \<inter> fst ` set d = {}"
  shows "parse_members fl n d0 (join (sep spaced) (map (member asc spaced) d) @ CHR ''}'' # r) = Some (d0 @ d, r)"
  using assms
proof (induction d arbitrary: n d0)
  case (Cons kv d)
  obtain k v where kv: "kv = (k, v)" by (cases kv)
  obtain m where n: "n = Suc m" using Cons.prems(3) by (cases n) auto
  have x: "json_ok v" "reads_back fl asc spaced v" using Cons.prems(2)[of k v] kv by simp_all
  have ds: "dict_set d0 k v = d0 @ [(k, v)]" using Cons.prems(5) kv by (intro dict_set_fresh) auto
  have step: "parse_members fl n d0 (member asc spaced (k, v) @ e # es)
      = (if e = CHR ''}'' then Some (d0 @ [(k, v)], es)
         else if e = CHR '','' then parse_members fl m (d0 @ [(k, v)]) (skip_ws es) else None)"
    if "length (member asc spaced (k, v)) \<le> n" "ends_value (e # es)" "\<not> json_ws e" for e es
  proof -
    obtain u where u: "member asc spaced (k, v) @ e # es = CHR 0x22 # concat (map (escape_char asc) k) @ CHR 0x22 # CHR '':'' # u"
        "skip_ws u = skip_ws (json_dumps asc spaced v @ e # es)" using member_parts by blast
    have "length (json_dumps asc spaced v) \<le> m" using that(1) by (simp add: n member_def dump_string_def)
    then have "parse_value fl m (skip_ws u) = Some (v, e # es)"
      unfolding u(2) skip_dumps[OF x(1)] by (rule reads_backD[OF x(2) _ that(2)])
    then show ?thesis unfolding u(1) n using that(3) by (simp add: parse_members.simps scan_dump ds)
  qed
  show ?case
  proof (cases "d = []")
    case True
    then show ?thesis using Cons.prems(3) step[of "CHR ''}''" r] by (simp add: kv)
  next
    case False
    let ?rest = "join (sep spaced) (map (member asc spaced) d) @ CHR ''}'' # r"
    have j: "join (sep spaced) (map (member asc spaced) (kv # d)) = member asc spaced (k, v) @ sep spaced
        @ join (sep spaced) (map (member asc spaced) d)" using False by (simp add: join_Cons kv)
    obtain u where u: "sep spaced @ ?rest = CHR '','' # u" "skip_ws u = skip_ws ?rest" using skip_sep by blast
    obtain y ys where y: "d = y # ys" using False by (cases d) auto
    have "skip_ws ?rest = ?rest"
      unfolding y by (cases y; cases ys) (simp_all add: member_def dump_string_def)
    then have ie: "parse_members fl m (d0 @ [(k, v)]) (skip_ws u) = Some ((d0 @ [(k, v)]) @ d, r)"
      unfolding u(2) using Cons.prems unfolding j n
      by (simp only: , intro Cons.IH[OF False]) (auto simp: kv sep_def split: if_splits)
    have "length (member asc spaced (k, v)) \<le> n" using Cons.prems(3) unfolding j n by simp
    then show ?thesis unfolding j append_assoc u(1) using step[of "CHR '',''" u] ie by (simp add: kv)
  qed
qed simp

lemma json_dumps_sep:
  "json_dumps asc spaced (PList xs) = ''['' @ join (sep spaced) (map (json_dumps asc spaced) xs) @ '']''"
  "json_dumps asc spaced (PDict d) = ''{'' @ join (sep spaced) (map (member asc spaced) d) @ ''}''"
  by (simp_all add: sep_def member_def)

lemma all_read_back: "json_ok v \<Longrightarrow> reads_back fl asc spaced v"
proof (induction v)
  case (PList xs)
  show ?case unfolding reads_back_def
  proof (intro allI impI)
    fix n r assume n: "length (json_dumps asc spaced (PList xs)) \<le> n"
    then obtain m where m: "n = Suc m" unfolding json_dumps_sep by (cases n) auto
    show "parse_value fl n (json_dumps asc spaced (PList xs) @ r) = Some (PList xs, r)"
    proof (cases "xs = []")
      case False
      then obtain y ys where y: "xs = y # ys" by (cases xs) auto
      obtain c t where c: "json_dumps asc spaced y = c # t" "\<not> json_ws c" "c \<noteq> CHR '']''"
        using dumps_hd[of y asc spaced] PList.prems y by auto
      then have "\<exists>t'. join (sep spaced) (map (json_dumps asc spaced) xs) @ '']'' @ r = c # t'" unfolding y by (cases ys) auto
      then have s: "skip_ws (join (sep spaced) (map (json_dumps asc spaced) xs) @ '']'' @ r) = join (sep spaced) (map (json_dumps asc spaced) xs) @ '']'' @ r"
        "hd (join (sep spaced) (map (json_dumps asc spaced) xs) @ '']'' @ r) = c" using c(2) by auto
      have "parse_elems fl m (join (sep spaced) (map (json_dumps asc spaced) xs) @ CHR '']'' # r) = Some (xs, r)"
        using n[unfolded json_dumps_sep m] PList by (intro elems_back[OF False]) (auto simp: list_all_iff)
      then show ?thesis unfolding json_dumps_sep m using s c(3) by (simp add: parse_value.simps)
    qed (simp add: m parse_value.simps)
  qed
next
  case (PDict d)
  show ?case unfolding reads_back_def
  proof (intro allI impI)
    fix n r assume n: "length (json_dumps asc spaced (PDict d)) \<le> n"
    then obtain m where m: "n = Suc m" unfolding json_dumps_sep by (cases n) auto
    show "parse_value fl n (json_dumps asc spaced (PDict d) @ r) = Some (PDict d, r)"
    proof (cases "d = []")
      case False
      then obtain y ys where y: "d = y # ys" by (cases d) auto
      have "\<exists>t'. join (sep spaced) (map (member asc spaced) d) @ ''}'' @ r = CHR 0x22 # t'"
        unfolding y by (cases y; cases ys) (auto simp: member_def dump_string_def)
      then have s: "skip_ws (join (sep spaced) (map (member asc spaced) d) @ ''}'' @ r) = join (sep spaced) (map (member asc spaced) d) @ ''}'' @ r"
        "hd (join (sep spaced) (map (member asc spaced) d) @ ''}'' @ r) = CHR 0x22" by auto
      have "parse_members fl m [] (join (sep spaced) (map (member asc spaced) d) @ CHR ''}'' # r) = Some ([] @ d, r)"
        using n[unfolded json_dumps_sep m] PDict by (intro members_back[OF False]) (auto simp: list_all_iff)
      then show ?thesis unfolding json_dumps_sep m using s by (simp add: parse_value.simps)
    qed (simp add: m parse_value.simps)
  qed
next
  case (PInt i)
  show ?case unfolding reads_back_def
  proof (intro allI impI)
    fix n r assume n: "length (json_dumps asc spaced (PInt i)) \<le> n" and r: "ends_value r"
    obtain c t where c: "int_text i @ r = c # t" "is_digit c \<or> c = CHR ''-''" using int_hd[of i r] by blast
    have "int_text i \<noteq> []" using int_hd[of i "[]"] by auto
    then obtain m where m: "n = Suc m" using n by (cases n) auto
    have "c \<noteq> CHR 0x22" "c \<noteq> CHR ''[''" "c \<noteq> CHR ''{''" using c(2) by (auto simp: is_digit_def code_point_def)
    then show "parse_value fl n (json_dumps asc spaced (PInt i) @ r) = Some (PInt i, r)"
      using scan_literal_int[of i r] scan_int[OF r, of fl i] by (simp add: m parse_value.simps c(1))
  qed
next
  case (PStr s)
  show ?case unfolding reads_back_def
  proof (intro allI impI)
    fix n r assume "length (json_dumps asc spaced (PStr s)) \<le> n"
    then obtain m where m: "n = Suc m" by (cases n) (auto simp: dump_string_def)
    show "parse_value fl n (json_dumps asc spaced (PStr s) @ r) = Some (PStr s, r)"
      by (simp add: m parse_value.simps dump_string_def scan_dump)
  qed
next
  case PNone
  show ?case unfolding reads_back_def
  proof (intro allI impI)
    fix n r assume "length (json_dumps asc spaced PNone) \<le> n"
    then obtain m where m: "n = Suc m" by (cases n) auto
    show "parse_value fl n (json_dumps asc spaced PNone @ r) = Some (PNone, r)"
      by (simp add: m parse_value.simps scan_literal_def literals_def)
  qed
next
  case (PBool b)
  show ?case unfolding reads_back_def
  proof (intro allI impI)
    fix n r assume "length (json_dumps asc spaced (PBool b)) \<le> n"
    then obtain m where m: "n = Suc m" by (cases n) (auto split: if_splits)
    show "parse_value fl n (json_dumps asc spaced (PBool b) @ r) = Some (PBool b, r)"
      by (cases b) (simp_all add: m parse_value.simps scan_literal_def literals_def)
  qed
qed simp

lemma loads_dumps: "json_ok v \<Longrightarrow> json_loads fl (json_dumps asc spaced v) = Inr v"
proof -
  assume v: "json_ok v"
  let ?s = "json_dumps asc spaced v"
  have "parse_value fl (2 * length ?s + 2) (?s @ []) = Some (v, [])"
    by (rule reads_backD[OF all_read_back[OF v]]) simp_all
  moreover have "skip_ws ?s = ?s" using skip_dumps[OF v, of asc spaced "[]"] by simp
  ultimately show ?thesis by (simp add: json_loads_def skip_ws_def)
qed

end
