(* ===== verification/Judge_Props.thy ===== *)
theory Judge_Props
  imports Judge Turnstone
begin

text \<open>
  What the semantic judge guarantees: a rule's cursor moves only past a window the model gave a
  valid verdict on, after every target was handled; consecutive windows cover the stream without
  a gap; a failed window is retained and retried within bounds; the per-minute ceiling holds in
  every minute; a verdict is found wherever the model puts it last.
\<close>

section \<open>A firing is in the history, or nothing is\<close>


text \<open>Whatever happens, an exception leaves the history as it was and a disposition means one row.\<close>

definition kept_or_logged :: "fire_context \<Rightarrow> target_info \<Rightarrow> 'w qstate \<Rightarrow> (exn + string) \<times> 'w qstate \<Rightarrow> bool" where
  "kept_or_logged ctx target s m = (case m of
     (Inl e, s') \<Rightarrow> alert_events (q_db s') = alert_events (q_db s) | (Inr x, s') \<Rightarrow> logs_one ctx target x (q_db s) (q_db s'))"

lemma noted_kept:
  assumes "alert_events (q_db u) = alert_events (q_db s)" "\<And>v. alert_events (q_db (g v)) = alert_events (q_db v)"
  shows "kept_or_logged ctx target s (and_then (log_firing E ctx (ti_id target) key h x detail u) (\<lambda>_ v. (Inr x, g v)))"
  using assms by (simp add: kept_or_logged_def log_firing_def try_db_def record_firing_def recorded_def logs_one_def and_then_def)

lemmas noted_kept_id = noted_kept[where g = id, simplified]

lemma open_incident_kept: "kept_or_logged ctx target s (open_incident E C ctx target disp key s)"
proof -
  obtain r1 s1 where q: "quietly (d_open disp ctx target) s = (r1, s1)" by fastforce
  then have d: "q_db s1 = q_db s" by (rule quietlyE) simp
  show ?thesis
  proof (cases r1)
    case (Inl e) then show ?thesis using q d by (simp add: open_incident_def kept_or_logged_def)
  next
    case (Inr res)
    show ?thesis
    proof (cases "upsert_incident (now E s1) key ctx (ti_id target) (dr_handle res) (q_db s1)")
      case (Inl e)
      then show ?thesis using q d \<open>r1 = Inr res\<close> by (auto simp: open_incident_def try_db_def noted_kept_id) (simp add: kept_or_logged_def)
    next
      case u: (Inr d2)
      note f = upsert_incident_frame[OF u]
      show ?thesis
        using q Inr u noted_kept[of "s1\<lparr>q_db := d2\<rparr>" s
            "\<lambda>s3. on_db (mark_fired (now E s3) (ri_id (fc_rule ctx))) s3"] d f noted_kept_id[of _ s]
        by (simp add: open_incident_def try_db_def)
    qed
  qed
qed

lemma feed_stateless_kept: "kept_or_logged ctx target s (feed_stateless E C ctx target disp inc key s)"
proof -
  obtain r1 s1 where q: "quietly (d_feed disp ctx target []) s = (r1, s1)" by fastforce
  then have d: "q_db s1 = q_db s" by (rule quietlyE) simp
  show ?thesis
    using q d by (cases r1) (simp_all add: feed_stateless_def Let_def noted_kept_id, simp_all add: kept_or_logged_def)
qed

lemma dispatch_kept: "kept_or_logged ctx target s (dispatch_locked E C ctx target key s)"
  by (simp add: dispatch_locked_def noted_kept_id open_incident_kept feed_stateless_kept split: option.split)

lemma settled_kept: "settled ctx target s m \<Longrightarrow> kept_or_logged ctx target s m"
  by (auto simp: settled_def kept_or_logged_def split: prod.splits sum.splits)

lemma handle_firing_kept:
  assumes "\<And>disp c w c' w'. e_registry E (ti_type target) = Some disp \<Longrightarrow> d_prepare disp c target w = (Inr c', w')
      \<Longrightarrow> ri_id (fc_rule c') = ri_id (fc_rule c) \<and> fc_event c' = fc_event c"
  shows "kept_or_logged ctx target s (handle_firing E C ctx target src s)"
proof -
  let ?key = "incident_key ctx target src"
  define m where "m = (case e_registry E (ti_type target) of
              Some disp \<Rightarrow> if d_stateful disp then enqueue E ctx target src s
                          else dispatch_locked E C ctx target ?key s
            | None \<Rightarrow> dispatch_locked E C ctx target ?key s)"
  have m: "kept_or_logged ctx target s m"
  proof (cases "e_registry E (ti_type target)")
    case None then show ?thesis using dispatch_kept by (simp add: m_def)
  next
    case (Some disp)
    obtain r s' where q: "enqueue E ctx target src s = (r, s')" by fastforce
    have "settled ctx target s (r, s')" by (rule enqueue_settled[OF q assms Some])
    then show ?thesis using Some q by (simp add: m_def dispatch_kept settled_kept)
  qed
  obtain r s1 where r: "m = (r, s1)" by fastforce
  show ?thesis
  proof (cases r)
    case (Inr x) then show ?thesis using m r by (simp add: handle_firing_def Let_def m_def[symmetric])
  next
    case (Inl e)
    then have "alert_events (q_db s1) = alert_events (q_db s)" using m r by (simp add: kept_or_logged_def)
    then show ?thesis using Inl r by (simp add: handle_firing_def Let_def m_def[symmetric] noted_kept_id)
  qed
qed


section \<open>What the steps of an evaluation leave alone\<close>

text \<open>The cursors, the spine and the history; \<open>ops_push\<close> and the model's call touch the world only.\<close>

definition same_tables :: "'w jstate \<Rightarrow> 'w jstate \<Rightarrow> bool" where
  "same_tables s s' \<longleftrightarrow> js_cursors s' = js_cursors s \<and> js_events s' = js_events s \<and> q_db (js_q s') = q_db (js_q s)"

lemma same_tables_refl [simp]: "same_tables s s"
  by (simp add: same_tables_def)

lemma same_tables_trans: "same_tables s t \<Longrightarrow> same_tables t u \<Longrightarrow> same_tables s u"
  by (simp add: same_tables_def)

lemma same_tables_on_mem [simp]: "same_tables s (on_mem f u) = same_tables s u"
  by (simp add: same_tables_def on_mem_def)

lemma same_tables_trace [simp]: "same_tables s (trace J row u) = same_tables s u"
  by (simp add: same_tables_def trace_def)

lemma notify_ops_db: "q_db (snd (notify_ops f C title body tags q)) = q_db q"
  by (auto simp: notify_ops_def quietly_def split: option.splits prod.splits sum.splits)

lemma same_tables_push [simp]: "same_tables s (ops_push J a b c u) = same_tables s u"
  by (simp add: same_tables_def ops_push_def notify_ops_db)

lemma same_tables_health [simp]: "same_tables s (track_llm_health J ok u) = same_tables s u"
  by (simp add: track_llm_health_def Let_def)

lemma judge_llm_tables: "judge_llm J cond txt s = (r, s') \<Longrightarrow> same_tables s s' \<and> js_mem s' = js_mem s \<and> js_evals s' = js_evals s"
  by (auto simp: judge_llm_def Let_def quietly_def same_tables_def split: prod.splits sum.splits)

lemma judge_llm_ok: "judge_llm J cond txt s = (r, s') \<Longrightarrow> lr_ok r \<Longrightarrow> lr_verdict r \<noteq> None"
  by (auto simp: judge_llm_def Let_def split: prod.splits sum.splits)

lemma find_cursor_on_mem [simp]: "find_cursor rid (on_mem f s) = find_cursor rid s"
  by (simp add: find_cursor_def on_mem_def)

lemma same_tables_cursor: "same_tables s s' \<Longrightarrow> find_cursor rid s' = find_cursor rid s"
  by (simp add: same_tables_def find_cursor_def)

lemma fire_targets_frame:
  "fire_targets J ctx ts s = (r, s') \<Longrightarrow>
     js_cursors s' = js_cursors s \<and> js_events s' = js_events s \<and> js_mem s' = js_mem s \<and> js_evals s' = js_evals s"
  by (induction ts arbitrary: s) (fastforce split: prod.splits sum.splits)+

text \<open>The history rows of a firing at each of these targets, in order.\<close>

definition fired_at :: "id option \<Rightarrow> id list \<Rightarrow> db \<Rightarrow> db \<Rightarrow> bool" where
  "fired_at rid tids d d' \<longleftrightarrow> (\<exists>es. alert_events d' = alert_events d @ es
     \<and> map ae_target_id es = map Some tids \<and> map ae_rule_id es = map (\<lambda>_. rid) tids)"

lemma fire_targets_logged:
  assumes "fire_targets J ctx ts s = (Inr (), s')"
    and "\<And>ty disp c t w c' w'. e_registry (jd_env J) ty = Some disp \<Longrightarrow> d_prepare disp c t w = (Inr c', w')
      \<Longrightarrow> ri_id (fc_rule c') = ri_id (fc_rule c) \<and> fc_event c' = fc_event c"
  shows "fired_at (ri_id (fc_rule ctx)) (map bt_id ts) (q_db (js_q s)) (q_db (js_q s'))"
  using assms(1)
proof (induction ts arbitrary: s)
  case Nil then show ?case by (simp add: fired_at_def)
next
  case (Cons t ts)
  obtain r q where h: "handle_firing (jd_env J) (jd_coord J) ctx (target_info_of t) (Some ''semantic'') (js_q s) = (r, q)"
    by fastforce
  have k: "kept_or_logged ctx (target_info_of t) (js_q s) (r, q)"
    unfolding h[symmetric] by (rule handle_firing_kept) (rule assms(2))
  obtain x where r: "r = Inr x" using Cons.prems h by (cases r) auto
  then have rest: "fire_targets J ctx ts (s\<lparr>js_q := q\<rparr>) = (Inr (), s')" using Cons.prems h by simp
  obtain es where es: "alert_events (q_db (js_q s')) = alert_events (q_db q) @ es"
    "map ae_target_id es = map Some (map bt_id ts)" "map ae_rule_id es = map (\<lambda>_. ri_id (fc_rule ctx)) (map bt_id ts)"
    using Cons.IH[OF rest] by (auto simp: fired_at_def)
  obtain e where e: "alert_events (q_db q) = alert_events (q_db (js_q s)) @ [e]"
    "ae_rule_id e = ri_id (fc_rule ctx)" "ae_target_id e = Some (bt_id t)"
    using k by (auto simp: r kept_or_logged_def logs_one_def target_info_of_def)
  show ?case unfolding fired_at_def by (rule exI[of _ "e # es"]) (use es e in simp)
qed


section \<open>The cursor\<close>

lemma find_row_update:
  assumes "find_row p rows = Some r0" "\<And>r. p (f r)"
  shows "find_row p (update_where p f rows) = Some (f r0)"
  using assms by (induction rows) (auto simp: find_row_def update_where_def split: if_splits)

lemma checkpoint_cursor:
  assumes "checkpoint rid to_id t s = Inr s'"
  shows "find_cursor rid s' = Some \<lparr>cu_rule = rid, cu_event = to_id, cu_at = t\<rparr> \<and> js_q s' = js_q s"
proof -
  obtain c where c: "find_cursor rid s = Some c" using assms by (cases "find_cursor rid s") (auto simp: checkpoint_def)
  have u: "find_row (\<lambda>x. cu_rule x = rid) (update_where (\<lambda>x. cu_rule x = rid)
      (\<lambda>_. \<lparr>cu_rule = rid, cu_event = to_id, cu_at = t\<rparr>) (js_cursors s)) = Some \<lparr>cu_rule = rid, cu_event = to_id, cu_at = t\<rparr>"
    using c by (intro find_row_update) (auto simp: find_cursor_def)
  show ?thesis using assms c u by (auto simp: checkpoint_def Let_def find_cursor_def on_mem_def)
qed

text \<open>What a window that moves the cursor has been through.\<close>

definition dispatched :: "rule_row \<Rightarrow> bound_target list \<Rightarrow> verdict \<Rightarrow> 'w jstate \<Rightarrow> 'w jstate \<Rightarrow> bool" where
  "dispatched r ts v s s' \<longleftrightarrow>
     (if vd_fire v then fired_at (Some (r_id r)) (map bt_id ts) (q_db (js_q s)) (q_db (js_q s'))
      else q_db (js_q s') = q_db (js_q s))"

text \<open>The state once the call is noted, and what follows the model's answer.\<close>

definition calling :: "'w judge_env \<Rightarrow> 'w jstate \<Rightarrow> 'w jstate" where
  "calling J s = on_mem (\<lambda>m. m\<lparr>jm_calls := note_call (mono J s) (jm_calls m)\<rparr>) s"

lemma calling_frame [simp]: "js_events (calling J s) = js_events s" "same_tables s (calling J s)"
  by (simp_all add: calling_def) (simp add: on_mem_def)

lemmas judge_window_calling = judge_window_def[folded calling_def, unfolded Let_def, folded calling_def, unfolded calling_frame]

lemma judge_window_step:
  assumes "window_rows r seen (js_events s) \<noteq> []"
    and "judge_llm J (r_pattern r) (summarize (window_rows r seen (js_events s))) (calling J s) = (answer, s1)"
  shows "\<exists>s3. same_tables s s3 \<and> judge_window J t r ts seen trig el s =
     (case (if lr_ok answer then lr_verdict answer else None) of
        None \<Rightarrow> (Inr True, on_mem (note_failure (jd_cfg J) (r_id r) (mono J s3)) s3)
      | Some v \<Rightarrow> settle_window J t r ts (window_rows r seen (js_events s)) (summarize (window_rows r seen (js_events s))) v
          (on_mem (clear_failure (r_id r)) s3))"
proof -
  have "same_tables s s1" using judge_llm_tables[OF assms(2)] same_tables_trans[of s "calling J s" s1] by simp
  then show ?thesis using assms
    by (intro exI[of _ "trace J (eval_record J r (window_rows r seen (js_events s)) trig seen el
        (summarize (window_rows r seen (js_events s))) answer (wall J (track_llm_health J (lr_transport answer) s1)))
        (track_llm_health J (lr_transport answer) s1)"])
      (simp add: judge_window_calling cong: option.case_cong)
qed

locale prepares_own_rule =
  fixes J :: "'w judge_env"
  assumes prepare_rule: "e_registry (jd_env J) ty = Some disp \<Longrightarrow> d_prepare disp c t w = (Inr c', w')
      \<Longrightarrow> ri_id (fc_rule c') = ri_id (fc_rule c) \<and> fc_event c' = fc_event c"
begin

lemma settled_or_pending:
  assumes "settle_window J t r ts evs summary v s = (res, s')"
  shows "find_cursor (r_id r) s' = find_cursor (r_id r) s
    \<or> (res = Inr True \<and> find_cursor (r_id r) s' = Some \<lparr>cu_rule = r_id r, cu_event = max_id evs, cu_at = t\<rparr>
       \<and> dispatched r ts v s s')"
proof -
  let ?ev = "fire_event r (top_source evs) v summary (wall J s)"
  let ?ctx = "semantic_ctx r ?ev v summary"
  define m where "m = (if vd_fire v then fire_targets J ?ctx ts s else (Inr (), s))"
  obtain x s1 where m1: "m = (x, s1)" by fastforce
  have frame: "find_cursor (r_id r) s1 = find_cursor (r_id r) s"
    using m1 by (auto simp: m_def find_cursor_def split: if_splits dest: fire_targets_frame)
  have step: "settle_window J t r ts evs summary v s = (case m of (Inl e, s1) \<Rightarrow> (Inl e, s1)
      | (Inr _, s1) \<Rightarrow> (case checkpoint (r_id r) (max_id evs) t s1 of Inl e \<Rightarrow> (Inl e, s1) | Inr s2 \<Rightarrow> (Inr True, s2)))"
    by (simp add: settle_window_def m_def Let_def)
  show ?thesis
  proof (cases x)
    case (Inl e) then show ?thesis using assms m1 step frame by simp
  next
    case (Inr u)
    have d: "dispatched r ts v s s1"
    proof (cases "vd_fire v")
      case True
      then have f: "fire_targets J ?ctx ts s = (Inr (), s1)" using m1 Inr by (simp add: m_def)
      have "fired_at (ri_id (fc_rule ?ctx)) (map bt_id ts) (q_db (js_q s)) (q_db (js_q s1))"
        using f by (rule fire_targets_logged) (rule prepare_rule)
      then show ?thesis using True
        by (simp add: dispatched_def semantic_ctx_def fire_context_init_def semantic_rule_info_def)
    next
      case False then show ?thesis using m1 Inr by (simp add: m_def dispatched_def)
    qed
    show ?thesis
    proof (cases "checkpoint (r_id r) (max_id evs) t s1")
      case (Inl e) then show ?thesis using assms m1 step frame Inr by simp
    next
      case c: (Inr s2)
      have "s' = s2" "res = Inr True" using assms m1 step c Inr by simp_all
      then show ?thesis using checkpoint_cursor[OF c] d by (simp add: dispatched_def)
    qed
  qed
qed

lemma window_settles:
  assumes "judge_window J t r ts seen trig el s = (res, s')" "find_cursor (r_id r) s' \<noteq> find_cursor (r_id r) s"
  defines "evs \<equiv> window_rows r seen (js_events s)"
  shows "evs \<noteq> [] \<and> find_cursor (r_id r) s' = Some \<lparr>cu_rule = r_id r, cu_event = max_id evs, cu_at = t\<rparr>
    \<and> (\<exists>s1 s2 answer v. judge_llm J (r_pattern r) (summarize evs) s1 = (answer, s2)
        \<and> lr_ok answer \<and> lr_verdict answer = Some v \<and> dispatched r ts v s s')"
proof -
  have ne: "evs \<noteq> []"
  proof
    assume "evs = []"
    then have "s' = calling J s" using assms(1) by (simp add: judge_window_calling Let_def evs_def)
    then show False using assms(2) by (simp add: calling_def)
  qed
  obtain answer s1 where l: "judge_llm J (r_pattern r) (summarize evs) (calling J s) = (answer, s1)" by fastforce
  obtain s3 where s3: "same_tables s s3"
    and step: "judge_window J t r ts seen trig el s = (case (if lr_ok answer then lr_verdict answer else None) of
      None \<Rightarrow> (Inr True, on_mem (note_failure (jd_cfg J) (r_id r) (mono J s3)) s3)
    | Some v \<Rightarrow> settle_window J t r ts evs (summarize evs) v (on_mem (clear_failure (r_id r)) s3))"
    using judge_window_step[OF ne[unfolded evs_def] l[unfolded evs_def]] unfolding evs_def by blast
  show ?thesis
  proof (cases "if lr_ok answer then lr_verdict answer else None")
    case None then show ?thesis using assms(1,2) step same_tables_cursor[OF s3] by auto
  next
    case (Some v)
    then have sw: "settle_window J t r ts evs (summarize evs) v (on_mem (clear_failure (r_id r)) s3) = (res, s')"
      using assms(1) step by simp
    have v: "lr_ok answer" "lr_verdict answer = Some v" using Some by (auto split: if_splits)
    have moved: "find_cursor (r_id r) s' \<noteq> find_cursor (r_id r) (on_mem (clear_failure (r_id r)) s3)"
      using assms(2) same_tables_cursor[OF s3] by simp
    have "dispatched r ts v s s'" "find_cursor (r_id r) s' = Some \<lparr>cu_rule = r_id r, cu_event = max_id evs, cu_at = t\<rparr>"
      using settled_or_pending[OF sw] moved s3 by (auto simp: dispatched_def same_tables_def on_mem_def)
    then show ?thesis using ne l v by blast
  qed
qed

end


text \<open>The registry the collector builds: \<open>ntfy\<close> and \<open>turnstone\<close> keep the contract.\<close>

definition served_by ::
    "(string \<Rightarrow> bool) \<Rightarrow> 'h http \<Rightarrow> 'h turnstone option \<Rightarrow> string \<Rightarrow> string \<Rightarrow> string \<Rightarrow> string list \<Rightarrow> 'h ts_world registry" where
  "served_by b H T url token topic hosts =
     (case build_registry b H T url token topic hosts of Inl e \<Rightarrow> (\<lambda>_. None) | Inr reg \<Rightarrow> reg)"

definition with_registry :: "'w judge_env \<Rightarrow> 'w registry \<Rightarrow> 'w judge_env" where
  "with_registry J reg = J\<lparr>jd_env := (jd_env J)\<lparr>e_registry := reg\<rparr>\<rparr>"

lemma served_prepare:
  assumes "served_by b H T url token topic hosts ty = Some disp" "d_prepare disp c t w = (Inr c', w')"
  shows "ri_id (fc_rule c') = ri_id (fc_rule c) \<and> fc_event c' = fc_event c"
proof -
  have "d_prepare disp = base_prepare \<or> (\<exists>T. d_prepare disp = ts_prepare T)"
    using assms(1) by (auto simp: served_by_def build_registry_def Let_def ntfy_dispatcher_def turnstone_dispatcher_def
      split: sum.splits if_splits option.splits) blast+
  then show ?thesis using assms(2) base.prepare_rule turnstone.prepare_rule base.prepare_event turnstone.prepare_event by metis
qed

interpretation served: prepares_own_rule "with_registry J (served_by b H T url token topic hosts)"
  for J b H T url token topic hosts
  by unfold_locales (auto simp: with_registry_def dest: served_prepare)

lemma ensure_known_rule:
  assumes "find_cursor (r_id r) s = Some c" "jm_last (js_mem s) (r_id r) = None \<or> jm_seen (js_mem s) (r_id r) = Some (cu_event c)"
  shows "\<exists>s1. ensure_rule_state r t s = (False, s1) \<and> same_tables s s1 \<and> jm_seen (js_mem s1) (r_id r) = Some (cu_event c)"
proof -
  have "cu_rule c = r_id r" using assms(1) by (auto simp: find_cursor_def dest: find_row_SomeD)
  then show ?thesis using assms by (auto simp: ensure_rule_state_def) (simp_all add: on_mem_def load_cursor_def)
qed

lemma rule_settles:
  assumes own: "prepares_own_rule J"
    and step: "eval_rule J t (r, ts) s = (res, s')"
    and before: "find_cursor (r_id r) s = Some c"
    and cache: "jm_last (js_mem s) (r_id r) = None \<or> jm_seen (js_mem s) (r_id r) = Some (cu_event c)"
    and moved: "find_cursor (r_id r) s' \<noteq> Some c"
  defines "evs \<equiv> window_rows r (cu_event c) (js_events s)"
  shows "evs \<noteq> [] \<and> find_cursor (r_id r) s' = Some \<lparr>cu_rule = r_id r, cu_event = max_id evs, cu_at = t\<rparr>
    \<and> (\<exists>s1 s2 answer v. judge_llm J (r_pattern r) (summarize evs) s1 = (answer, s2)
        \<and> lr_ok answer \<and> lr_verdict answer = Some v \<and> dispatched r ts v s s')"
proof -
  obtain s1 where e: "ensure_rule_state r t s = (False, s1)" "same_tables s s1" "jm_seen (js_mem s1) (r_id r) = Some (cu_event c)"
    using ensure_known_rule[OF before cache] by blast
  obtain ok calls where q: "rate_ok (jd_cfg J) (mono J s1) (jm_calls (js_mem s1)) = (ok, calls)" by fastforce
  define s2 where "s2 = on_mem (\<lambda>m. m\<lparr>jm_calls := calls\<rparr>) s1"
  have s2: "same_tables s s2" using e(2) by (simp add: s2_def)
  have c2: "find_cursor (r_id r) s1 = Some c" "find_cursor (r_id r) s2 = Some c"
    using same_tables_cursor[OF e(2)] same_tables_cursor[OF s2] before by simp_all
  have "(\<exists>x. res = x \<and> s' = s1) \<or> s' = s2 \<or> (\<exists>trig el. judge_window J t r ts (cu_event c) trig el s2 = (res, s'))"
    using step e(1,3) q by (auto simp: eval_rule_def Let_def s2_def split: option.splits if_splits)
  then obtain trig el where w: "judge_window J t r ts (cu_event c) trig el s2 = (res, s')"
    using moved c2 by auto
  have "find_cursor (r_id r) s' \<noteq> find_cursor (r_id r) s2" using moved c2 by simp
  note settled = prepares_own_rule.window_settles[OF own w this]
  have "window_rows r (cu_event c) (js_events s2) = evs" "\<And>v. dispatched r ts v s2 s' = dispatched r ts v s s'"
    using s2 by (simp_all add: evs_def same_tables_def dispatched_def)
  then show ?thesis using settled by simp
qed


section \<open>The properties of an evaluation\<close>

text \<open>
  C25. A rule's cursor waits for the dispatch. When an evaluation moves the durable cursor of a
  rule, the window past the old cursor was not empty, the judge model was asked about exactly
  that window's digest and gave a valid verdict, a positive verdict has added one history row for
  each of the rule's targets, in order (a negative one none), and only then the cursor stands at
  the window's last event. In every other case (a failed request, a malformed verdict, a closed
  rate gate, a dispatch that raised) the cursor is where it was.
\<close>

theorem cursor_waits_for_dispatch:
  assumes "build_registry b H T url token topic hosts = Inr (e_registry (jd_env J))"
    and "eval_rule J t (r, ts) s = (res, s')"
    and "find_cursor (r_id r) s = Some c" "find_cursor (r_id r) s' \<noteq> Some c"
    and "jm_last (js_mem s) (r_id r) = None \<or> jm_seen (js_mem s) (r_id r) = Some (cu_event c)"
  shows "window_rows r (cu_event c) (js_events s) \<noteq> []
    \<and> find_cursor (r_id r) s' = Some \<lparr>cu_rule = r_id r, cu_event = max_id (window_rows r (cu_event c) (js_events s)), cu_at = t\<rparr>
    \<and> (\<exists>s1 s2 answer v. judge_llm J (r_pattern r) (summarize (window_rows r (cu_event c) (js_events s))) s1 = (answer, s2)
        \<and> lr_ok answer \<and> lr_verdict answer = Some v
        \<and> (if vd_fire v
           then \<exists>es. alert_events (q_db (js_q s')) = alert_events (q_db (js_q s)) @ es
                  \<and> map ae_target_id es = map (\<lambda>t. Some (bt_id t)) ts \<and> map ae_rule_id es = map (\<lambda>_. Some (r_id r)) ts
           else q_db (js_q s') = q_db (js_q s)))"
proof -
  have "with_registry J (served_by b H T url token topic hosts) = J"
    using assms(1) by (simp add: with_registry_def served_by_def)
  then have "prepares_own_rule J" using served.prepares_own_rule_axioms[of J b H T url token topic hosts] by simp
  from rule_settles[OF this assms(2,3,5,4)] show ?thesis
    unfolding dispatched_def fired_at_def map_map comp_def .
qed

lemma max_id_Max: "evs \<noteq> [] \<Longrightarrow> max_id evs = Max (sp_id ` set evs)"
proof (cases evs)
  case (Cons e es)
  have "fold (\<lambda>x m. max m (sp_id x)) es n = Max (insert n (sp_id ` set es))" for n
  proof (induction es arbitrary: n)
    case (Cons a es)
    have "Max (insert (max n (sp_id a)) X) = Max (insert n (insert (sp_id a) X))" if "finite X" for X
      using that by (cases "X = {}") (simp_all add: max.assoc)
    then show ?case using Cons by simp
  qed simp
  then show ?thesis by (simp add: max_id_def Cons)
qed simp

lemma take_sorted_below:
  assumes "sorted (map k xs)" "distinct (map k xs)" "x \<in> set xs" "y \<in> set (take n xs)" "k x \<le> k y"
  shows "x \<in> set (take n xs)"
proof (rule ccontr)
  assume "x \<notin> set (take n xs)"
  then have x: "x \<in> set (drop n xs)" using assms(3) by (metis UnE append_take_drop_id set_append)
  have "sorted (map k (take n xs) @ map k (drop n xs))" "distinct (map k (take n xs) @ map k (drop n xs))"
    using assms(1,2) by (simp_all flip: map_append)
  then have "k y \<le> k x" "k y \<noteq> k x" using x assms(4) by (auto simp: sorted_append)
  then show False using assms(5) by simp
qed

text \<open>
  C26. No event is skipped. The window a rule is judged on holds exactly the events of its scope
  past the cursor up to the window's last one, in id order, and at most 5000 of them; so once the
  cursor stands there, every event of the scope behind it has been in a judged window.
\<close>

theorem window_is_next_stretch:
  assumes "distinct (map sp_id evs)" "window_rows r seen evs \<noteq> []"
  shows "set (window_rows r seen evs) = {e \<in> set evs. in_scope r e \<and> seen < sp_id e \<and> sp_id e \<le> max_id (window_rows r seen evs)}
    \<and> sorted (map sp_id (window_rows r seen evs)) \<and> length (window_rows r seen evs) \<le> 5000"
proof -
  let ?N = "sort_key sp_id (new_events r seen evs)" and ?W = "window_rows r seen evs"
  have W: "?W = take 5000 ?N" by (simp add: window_rows_def)
  have N: "sorted (map sp_id ?N)" "distinct (map sp_id ?N)" "set ?N = {e \<in> set evs. in_scope r e \<and> seen < sp_id e}"
    using assms(1) by (auto simp: new_events_def distinct_map_filter distinct_map intro: inj_on_subset)
  have m: "max_id ?W = Max (sp_id ` set ?W)" by (rule max_id_Max[OF assms(2)])
  have "sp_id e \<le> max_id ?W" if "e \<in> set ?W" for e using that by (simp add: m)
  moreover have "e \<in> set ?W" if e: "e \<in> set ?N" "sp_id e \<le> max_id ?W" for e
  proof -
    have "max_id ?W \<in> sp_id ` set ?W" unfolding m by (rule Max_in) (use assms(2) in simp_all)
    then obtain y where y: "y \<in> set ?W" "max_id ?W = sp_id y" by blast
    show ?thesis unfolding W by (rule take_sorted_below[OF N(1,2) e(1)]) (use y e(2) W in simp_all)
  qed
  moreover have "set ?W \<subseteq> set ?N" unfolding W by (rule set_take_subset)
  moreover have "sorted (map sp_id ?W)" unfolding W using N(1) by (metis sorted_wrt_take take_map)
  ultimately show ?thesis using N(3) W by auto
qed

section \<open>A failed window\<close>

definition backoff_base :: "judge_config \<Rightarrow> time" where
  "backoff_base c = max (sem_tick c) (seconds 1)"

lemma backoff_alt:
  "backoff c n = min (backoff_base c * 2 ^ min (n - 1) 10) (max (backoff_base c) (sem_min_interval c))"
  by (simp add: backoff_def Let_def backoff_base_def)

lemma backoff_base_pos: "0 \<le> backoff_base c"
  by (simp add: backoff_base_def)

lemma backoff_within: "backoff_base c \<le> backoff c n" "backoff c n \<le> max (backoff_base c) (sem_min_interval c)"
proof -
  have "backoff_base c * 1 \<le> backoff_base c * 2 ^ min (n - 1) 10"
    by (rule mult_left_mono) (simp_all add: backoff_base_pos)
  then show "backoff_base c \<le> backoff c n" by (simp add: backoff_alt)
  show "backoff c n \<le> max (backoff_base c) (sem_min_interval c)" by (simp add: backoff_alt)
qed

lemma backoff_mono:
  assumes "m \<le> n"
  shows "backoff c m \<le> backoff c n"
proof -
  have "(2 :: int) ^ min (m - 1) 10 \<le> 2 ^ min (n - 1) 10" using assms by (intro power_increasing) auto
  then have "backoff_base c * 2 ^ min (m - 1) 10 \<le> backoff_base c * 2 ^ min (n - 1) 10"
    by (rule mult_left_mono) (rule backoff_base_pos)
  then show ?thesis unfolding backoff_alt by (rule min.mono) simp
qed

lemma health_mem [simp]:
  "jm_seen (js_mem (track_llm_health J ok s)) = jm_seen (js_mem s)"
  "jm_last (js_mem (track_llm_health J ok s)) = jm_last (js_mem s)"
  "jm_failures (js_mem (track_llm_health J ok s)) = jm_failures (js_mem s)"
  "js_evals (track_llm_health J ok s) = js_evals s"
  by (simp_all add: track_llm_health_def Let_def on_mem_def ops_push_def)

text \<open>
  C27. A failed window is retained. When the model's answer to a window is not a valid verdict,
  nothing is dispatched, the rule's cursor stays, in the table and in memory, the evaluation is
  traced as failed, and the rule waits: its next attempt is refused until the delay of its
  failure count has passed, a delay of at least the tick (and one second) and at most the
  per-rule floor, never shorter than after fewer failures.
\<close>

theorem failed_window_is_retained:
  assumes "judge_window J t r ts seen trig el s = (res, s')"
    and "window_rows r seen (js_events s) \<noteq> []"
    and "judge_llm J (r_pattern r) (summarize (window_rows r seen (js_events s)))
          (calling J s) = (answer, s1)" "\<not> lr_ok answer"
    and "find_rule (q_db (js_q s)) (r_id r) \<noteq> None"
  defines "n \<equiv> (case jm_failures (js_mem s) (r_id r) of None \<Rightarrow> 0 | Some k \<Rightarrow> k) + 1"
  shows "res = Inr True \<and> js_cursors s' = js_cursors s \<and> q_db (js_q s') = q_db (js_q s)
    \<and> jm_seen (js_mem s') = jm_seen (js_mem s)
    \<and> (\<exists>row. js_evals s' = js_evals s @ [row] \<and> el_rule row = r_id r \<and> \<not> el_ok row \<and> el_from row = Some seen)
    \<and> jm_failures (js_mem s') (r_id r) = Some n
    \<and> (\<forall>u. retry_ready (r_id r) u (js_mem s') \<longleftrightarrow> mono J s' + backoff (jd_cfg J) n \<le> u)
    \<and> max (sem_tick (jd_cfg J)) (seconds 1) \<le> backoff (jd_cfg J) n
    \<and> backoff (jd_cfg J) n \<le> max (max (sem_tick (jd_cfg J)) (seconds 1)) (sem_min_interval (jd_cfg J))
    \<and> (\<forall>m \<le> n. backoff (jd_cfg J) m \<le> backoff (jd_cfg J) n)"
proof -
  define s0 where "s0 = calling J s"
  define evs where "evs = window_rows r seen (js_events s)"
  define s2 where "s2 = track_llm_health J (lr_transport answer) s1"
  define row where "row = eval_record J r evs trig seen el (summarize evs) answer (wall J s2)"
  define s3 where "s3 = trace J row s2"
  have ev0: "window_rows r seen (js_events s0) = evs" by (simp add: s0_def evs_def)
  have l: "judge_llm J (r_pattern r) (summarize evs) s0 = (answer, s1)" using assms(3) by (simp add: s0_def evs_def)
  have s': "res = Inr True" "s' = on_mem (note_failure (jd_cfg J) (r_id r) (mono J s3)) s3"
    using assms(1,2,4) l by (simp_all add: judge_window_calling s0_def[symmetric] evs_def[symmetric] s2_def s3_def row_def)
  have t01: "same_tables s s1" using judge_llm_tables[OF l] same_tables_trans[of s s0 s1] by (simp add: s0_def)
  then have t2: "same_tables s s2" by (simp add: s2_def)
  have m: "jm_seen (js_mem s2) = jm_seen (js_mem s)" "jm_failures (js_mem s2) = jm_failures (js_mem s)" "js_evals s2 = js_evals s"
    using judge_llm_tables[OF l] by (simp_all add: s2_def) (simp_all add: s0_def calling_def on_mem_def)
  have row: "el_rule row = r_id r" "\<not> el_ok row" "el_from row = Some seen"
    using assms(4) by (simp_all add: row_def eval_record_def Let_def)
  have s3: "s3 = s2\<lparr>js_evals := js_evals s2 @ [row]\<rparr>"
    using assms(5) t2 row(1) by (simp add: s3_def trace_def same_tables_def)
  have mono: "mono J s' = mono J s3" unfolding s'(2) by (simp add: mono_def on_mem_def)
  have fail: "jm_failures (js_mem s') (r_id r) = Some n" "jm_retry_after (js_mem s') (r_id r) = Some (mono J s' + backoff (jd_cfg J) n)"
    unfolding mono unfolding s'(2) using m(2) by (simp_all add: on_mem_def note_failure_def Let_def n_def s3)
  have ready: "\<forall>u. retry_ready (r_id r) u (js_mem s') \<longleftrightarrow> mono J s' + backoff (jd_cfg J) n \<le> u"
    by (simp add: retry_ready_def fail(2))
  have evals: "js_evals s' = js_evals s @ [row]" unfolding s'(2) using m(3) by (simp add: on_mem_def s3)
  have rest: "js_cursors s' = js_cursors s" "q_db (js_q s') = q_db (js_q s)" "jm_seen (js_mem s') = jm_seen (js_mem s)"
    unfolding s'(2) using t2 m(1) by (simp_all add: on_mem_def s3 same_tables_def note_failure_def Let_def)
  show ?thesis
    using s'(1) rest row evals fail(1) ready backoff_within[of "jd_cfg J" n] backoff_mono[of _ n "jd_cfg J"]
    unfolding backoff_base_def by blast
qed

section \<open>The ceiling on the calls of the judge model\<close>

text \<open>The calls admitted among attempts at these times, as \<open>_eval\<close> asks and notes them.\<close>

fun admissions :: "judge_config \<Rightarrow> time list \<Rightarrow> time list \<Rightarrow> time list" where
  "admissions c calls [] = []"
| "admissions c calls (t # ts) =
     (case rate_ok c t calls of (ok, calls1) \<Rightarrow>
        if ok then t # admissions c (note_call t calls1) ts else admissions c calls1 ts)"

abbreviation minute :: time where "minute \<equiv> seconds 60"

definition ceiling_kept :: "int \<Rightarrow> time list \<Rightarrow> bool" where
  "ceiling_kept n H \<longleftrightarrow> (\<forall>H1 x H2. H = H1 @ x # H2 \<longrightarrow> int (length (filter (\<lambda>u. x - minute \<le> u) (H1 @ [x]))) \<le> n)"

lemma ceiling_snoc:
  assumes "ceiling_kept n H" "int (length (filter (\<lambda>u. t - minute \<le> u) H)) < n"
  shows "ceiling_kept n (H @ [t])"
  unfolding ceiling_kept_def
proof (intro allI impI)
  fix H1 x H2 assume e: "H @ [t] = H1 @ x # H2"
  show "int (length (filter (\<lambda>u. x - minute \<le> u) (H1 @ [x]))) \<le> n"
  proof (cases H2 rule: rev_cases)
    case Nil then show ?thesis using e assms(2) by simp
  next
    case (snoc H3 y)
    then have "H = H1 @ x # H3" using e by simp
    then show ?thesis using assms(1) by (simp add: ceiling_kept_def)
  qed
qed

lemma filter_sorted_dropWhile:
  "sorted (xs :: int list) \<Longrightarrow> filter (\<lambda>u. t - minute \<le> u) xs = dropWhile (\<lambda>u. t - u > minute) xs"
proof (induction xs)
  case (Cons a xs)
  show ?case
  proof (cases "t - a > minute")
    case True then show ?thesis using Cons by simp
  next
    case False
    then have "\<forall>u \<in> set (a # xs). t - minute \<le> u" using Cons.prems by fastforce
    then have "filter (\<lambda>u. t - minute \<le> u) (a # xs) = a # xs" by (simp only: filter_id_conv)
    then show ?thesis using False by simp
  qed
qed simp

lemma admissions_ceiling:
  assumes "0 < sem_max_per_min c"
    and "sorted (D @ calls)" "\<forall>d \<in> set D. \<forall>t \<in> set ts. t - d > minute" "\<forall>h \<in> set calls. \<forall>t \<in> set ts. h \<le> t"
    and "sorted ts" "ceiling_kept (sem_max_per_min c) (D @ calls)"
  shows "ceiling_kept (sem_max_per_min c) (D @ calls @ admissions c calls ts) \<and> sorted (D @ calls @ admissions c calls ts)"
  using assms(2-)
proof (induction ts arbitrary: D calls)
  case (Cons t ts)
  let ?p = "\<lambda>u. t - u > minute"
  define E where "E = D @ takeWhile ?p calls"
  define rest where "rest = dropWhile ?p calls"
  have split: "D @ calls = E @ rest" by (simp add: E_def rest_def)
  have old: "\<forall>d \<in> set E. \<forall>u \<in> set ts. u - d > minute"
  proof (intro ballI)
    fix d u assume d: "d \<in> set E" and u: "u \<in> set ts"
    have "t \<le> u" using Cons.prems(4) u by simp
    then show "u - d > minute" using d u Cons.prems(2) by (auto simp: E_def dest!: set_takeWhileD)
  qed
  have newer: "\<forall>d \<in> set E. t - d > minute" using Cons.prems(2) by (auto simp: E_def dest: set_takeWhileD)
  have "filter (\<lambda>u. t - minute \<le> u) D = []" using Cons.prems(2) by (auto simp: filter_empty_conv)
  moreover have "filter (\<lambda>u. t - minute \<le> u) calls = rest"
    unfolding rest_def by (rule filter_sorted_dropWhile) (use Cons.prems(1) in \<open>simp add: sorted_append\<close>)
  ultimately have count: "filter (\<lambda>u. t - minute \<le> u) (D @ calls) = rest" by (simp only: filter_append append_Nil)
  have le: "\<forall>h \<in> set rest. \<forall>u \<in> set (t # ts). h \<le> u"
    using Cons.prems(3) unfolding rest_def by (meson set_dropWhileD)
  show ?case
  proof (cases "int (length rest) < sem_max_per_min c")
    case False
    then have a: "admissions c calls (t # ts) = admissions c rest ts" using assms(1) by (simp add: rate_ok_def Let_def rest_def)
    show ?thesis using Cons.IH[of E rest] Cons.prems(1,4,5) old le split
      unfolding a by (simp add: append_assoc[symmetric] del: append_assoc admissions.simps)
  next
    case True
    then have a: "admissions c calls (t # ts) = t # admissions c (rest @ [t]) ts"
      using assms(1) by (simp add: rate_ok_def Let_def rest_def note_call_def)
    have sp: "ceiling_kept (sem_max_per_min c) ((E @ rest) @ [t])"
      by (rule ceiling_snoc) (use Cons.prems(5) count True in \<open>simp_all only: flip: split\<close>)
    have so: "sorted ((E @ rest) @ [t])"
    proof -
      have "\<forall>h \<in> set E. h \<le> t" using newer by fastforce
      then show ?thesis using Cons.prems(1) le unfolding split by (simp add: sorted_append)
    qed
    have "D @ calls @ admissions c calls (t # ts) = E @ (rest @ [t]) @ admissions c (rest @ [t]) ts"
      unfolding a append_assoc[symmetric] split by simp
    then show ?thesis using Cons.IH[of E "rest @ [t]"] Cons.prems(4) old le sp so by simp
  qed
qed simp

text \<open>
  C28. The per-minute ceiling. Over any run of attempts at times that do not decrease, of the
  calls the guard admits at most \<open>SEMANTIC_MAX_PER_MIN\<close> fall into any closed minute, not only
  into calendar minutes.
\<close>

theorem ceiling_holds_every_minute:
  assumes "0 < sem_max_per_min c" "sorted ts"
  shows "int (length (filter (\<lambda>u. a \<le> u \<and> u \<le> a + seconds 60) (admissions c [] ts))) \<le> sem_max_per_min c"
proof -
  let ?in = "\<lambda>u. a \<le> u \<and> u \<le> a + seconds 60" and ?H = "admissions c [] ts"
  have H: "ceiling_kept (sem_max_per_min c) ?H" "sorted ?H"
    using admissions_ceiling[OF assms(1), of "[]" "[]" ts] assms(2) by (simp_all add: ceiling_kept_def)
  show ?thesis
  proof (cases "\<exists>u \<in> set ?H. ?in u")
    case False
    then have "filter ?in ?H = []" by (simp only: filter_empty_conv) blast
    then show ?thesis using assms(1) by simp
  next
    case True
    then obtain H1 x H2 where s: "?H = H1 @ x # H2" "?in x" "\<forall>u \<in> set H2. \<not> ?in u"
      using split_list_last_prop[of ?H ?in] by blast
    have "filter ?in H2 = []" using s(3) unfolding filter_empty_conv by assumption
    then have "filter ?in ?H = filter ?in (H1 @ [x])" using s(1) by simp
    also have "length (filter ?in (H1 @ [x])) \<le> length (filter (\<lambda>u. x - minute \<le> u) (H1 @ [x]))"
    proof -
      have e: "filter ?in (H1 @ [x]) = filter ?in (filter (\<lambda>u. x - minute \<le> u) (H1 @ [x]))"
        unfolding filter_filter by (rule filter_cong) (use s(2) in auto)
      show ?thesis unfolding e by (rule length_filter_le)
    qed
    finally have "int (length (filter ?in ?H)) \<le> int (length (filter (\<lambda>u. x - minute \<le> u) (H1 @ [x])))"
      by (simp only: of_nat_le_iff)
    also have "\<dots> \<le> sem_max_per_min c" by (rule H(1)[unfolded ceiling_kept_def, rule_format, OF s(1)])
    finally show ?thesis .
  qed
qed

section \<open>Verdicts\<close>

definition verdict_value :: "verdict \<Rightarrow> pyval" where
  "verdict_value v = PDict [(''fire'', PBool (vd_fire v)), (''severity'', PStr (vd_severity v)), (''why'', PStr (vd_why v))]"

abbreviation no_braces :: "string \<Rightarrow> bool" where
  "no_braces s \<equiv> CHR ''{'' \<notin> set s \<and> CHR ''}'' \<notin> set s"

lemma flat_chunks_inside:
  "no_braces b \<Longrightarrow> flat_chunks (Some a) (b @ r) = flat_chunks (Some (a @ b)) r"
  by (induction b arbitrary: a) auto

lemma flat_chunks_tail: "CHR ''{'' \<notin> set s \<Longrightarrow> flat_chunks None s = []"
  by (induction s) auto

lemma flat_chunks_prefix: "\<exists>X. flat_chunks acc (p @ CHR ''{'' # r) = X @ flat_chunks (Some ''{'') r"
proof (induction p arbitrary: acc)
  case Nil then show ?case by (intro exI[of _ "[]"]) simp
next
  case (Cons c p)
  then show ?case by (auto split: option.split) (metis append_Cons)+
qed

lemma last_flat_chunk:
  assumes "no_braces b" "CHR ''{'' \<notin> set post"
  shows "\<exists>X. flat_chunks None (pre @ (''{'' @ b @ ''}'') @ post) = X @ [''{'' @ b @ ''}'']"
proof -
  obtain X where "flat_chunks None (pre @ CHR ''{'' # b @ CHR ''}'' # post) = X @ flat_chunks (Some ''{'') (b @ CHR ''}'' # post)"
    using flat_chunks_prefix by blast
  then show ?thesis using assms by (simp add: flat_chunks_inside flat_chunks_tail)
qed

lemma hex_digit_brace: "hex_digit n \<noteq> CHR ''{'' \<and> hex_digit n \<noteq> CHR ''}''" if "n < 16"
proof -
  have "list_all (\<lambda>n. hex_digit n \<noteq> CHR ''{'' \<and> hex_digit n \<noteq> CHR ''}'') [0..<16]" by code_simp
  then show ?thesis using that by (simp add: list_all_iff)
qed

lemma escape_no_braces:
  assumes "c \<noteq> CHR ''{''" "c \<noteq> CHR ''}''"
  shows "no_braces (escape_char asc c)"
proof -
  have "code_point c div 16 < 16" using code_point_lt[of c] by (simp add: less_mult_imp_div_less)
  note h = hex_digit_brace[OF this] hex_digit_brace[of "code_point c mod 16", simplified]
  show ?thesis using assms h h[THEN conjunct1, symmetric] h[THEN conjunct2, symmetric]
    by (simp add: escape_char_def)
qed

lemma dump_no_braces: "no_braces s \<Longrightarrow> no_braces (dump_string asc s)"
proof -
  assume "no_braces s"
  then have "\<forall>c \<in> set s. no_braces (escape_char asc c)" using escape_no_braces by metis
  then show ?thesis by (simp only: dump_string_def set_append set_concat set_map) auto
qed

definition verdict_body :: "bool \<Rightarrow> bool \<Rightarrow> verdict \<Rightarrow> string" where
  "verdict_body asc spaced v = join (sep spaced) (map (member asc spaced)
     [(''fire'', PBool (vd_fire v)), (''severity'', PStr (vd_severity v)), (''why'', PStr (vd_why v))])"

lemma verdict_text: "json_dumps asc spaced (verdict_value v) = ''{'' @ verdict_body asc spaced v @ ''}''"
  by (simp only: verdict_value_def verdict_body_def json_dumps_sep)

lemma verdict_body_no_braces:
  assumes "no_braces (vd_why v)" "vd_severity v \<in> {''info'', ''warn'', ''crit''}"
  shows "no_braces (verdict_body asc spaced v)"
proof -
  have "no_braces (vd_severity v)" using assms(2) by auto
  moreover have "no_braces ''fire''" "no_braces ''severity''" "no_braces ''why''" by simp_all
  ultimately show ?thesis using assms(1)
    by (simp add: verdict_body_def member_def sep_def join_Cons dump_no_braces)
qed

lemma dump_fire: "dump_string asc ''fire'' = [CHR 0x22] @ ''fire'' @ [CHR 0x22]"
  by (simp add: dump_string_def escape_char_def code_point_def)

lemma fire_in_text: "contains ''fire'' (''{'' @ verdict_body asc spaced v @ ''}'')"
proof -
  obtain z where "verdict_body asc spaced v = dump_string asc ''fire'' @ z"
    by (simp add: verdict_body_def member_def join_Cons)
  then show ?thesis unfolding contains_iff dump_fire
    by (intro exI[of _ "''{'' @ [CHR 0x22]"] exI[of _ "[CHR 0x22] @ z @ ''}''"]) simp
qed

lemma verdict_read_back:
  assumes "vd_severity v \<in> {''info'', ''warn'', ''crit''}"
  shows "read_verdict fl (json_dumps asc spaced (verdict_value v)) = Some v"
proof -
  have "json_ok (verdict_value v)" by (simp add: verdict_value_def)
  then have "json_loads fl (json_dumps asc spaced (verdict_value v)) = Inr (verdict_value v)" by (rule loads_dumps)
  then show ?thesis using assms by (simp add: read_verdict_def verdict_value_def valid_verdict_def dict_get_def)
qed


definition demo_verdict :: verdict where
  "demo_verdict = \<lparr>vd_fire = True, vd_severity = ''crit'', vd_why = ''disk full''\<rparr>"


section \<open>A concrete judge\<close>

definition demo_sem_rule :: rule_row where
  "demo_sem_rule = demo_rule\<lparr>r_kind := ''semantic'', r_pattern := ''a disk fails''\<rparr>"

definition demo_ts_target :: target_row where
  "demo_ts_target = demo_target\<lparr>t_type := ''turnstone''\<rparr>"

definition demo_spine :: "spine_row list" where
  "demo_spine = [\<lparr>sp_id = 7, sp_ts = 0, sp_source = ''w'', sp_severity = Some 17, sp_severity_text = Some ''error'',
     sp_program = Some ''k'', sp_body = ''bad'', sp_attributes = PNone, sp_template = None\<rparr>]"

definition demo_reply :: "string \<Rightarrow> pyval" where
  "demo_reply text = PDict [(''choices'', PList [PDict [(''message'', PDict [(''content'', PStr text)])]])]"

definition demo_answer :: string where
  "demo_answer = json_dumps True True (verdict_value demo_verdict)"

definition demo_config :: judge_config where
  "demo_config = \<lparr>sem_tick = seconds 30, sem_spike = 50, sem_min_interval = seconds 300, sem_max_per_min = 2,
     sem_outage_alert = seconds 3600, llm_url = ''u'', llm_model = ''m'', llm_api_key = [], llm_max_tokens = 9,
     llm_temperature = None\<rparr>"

definition demo_judge :: "string \<Rightarrow> api_log ts_world judge_env" where
  "demo_judge text = \<lparr>jd_env = \<lparr>e_registry = (\<lambda>_. None),
       e_clock = (\<lambda>_. seconds 9000), e_token = (\<lambda>w. (''h'', w)), e_fromiso = (\<lambda>_. None)\<rparr>,
     jd_coord = demo_coord, jd_push = None,
     jd_http = \<lparr>h_get = (\<lambda>u h w. (Inl (Exn ''E'' []), w)),
       h_post = (\<lambda>u h b w. (Inr \<lparr>status_code = 200, json_body = Inr (demo_reply text)\<rparr>, w))\<rparr>,
     jd_mono = (\<lambda>_. seconds 9000), jd_float = id, jd_cfg = demo_config\<rparr>"

definition demo_js :: "api_log ts_world jstate" where
  "demo_js = \<lparr>js_q = \<lparr>q_db = demo_db\<lparr>alert_rules := [demo_sem_rule], targets := [demo_ts_target]\<rparr>, q_world = no_cache, q_calls = []\<rparr>,
     js_mem = fresh_mem, js_events = demo_spine, js_cursors = [\<lparr>cu_rule = 1, cu_event = 3, cu_at = 0\<rparr>], js_evals = []\<rparr>"

definition demo_run :: "string \<Rightarrow> (exn + bool) \<times> api_log ts_world jstate" where
  "demo_run text = eval_rule (demo_judge text) (seconds 9000) (demo_sem_rule, semantic_targets (q_db (js_q demo_js)) 1) demo_js"

lemma demo_registry:
  "build_registry (\<lambda>_. True) (api_http 200) None [] [] [] []
     = Inr (e_registry (jd_env (demo_judge text)))"
  by (simp add: demo_judge_def build_registry_def Let_def cong: if_cong)

lemma demo_llm:
  assumes "strip text \<noteq> []"
  shows "judge_llm (demo_judge text) cond txt s = (\<lparr>lr_verdict = extract_verdict id (strip text), lr_content = strip text,
    lr_reasoning = [], lr_transport = True, lr_ok = (extract_verdict id (strip text) \<noteq> None), lr_ms = 0\<rparr>, s)"
  using assms
  by (simp add: judge_llm_def Let_def demo_judge_def quietly_def raise_for_status_def is_success_def bind_sum_def demo_reply_def read_reply_def
    item_of_def first_of_def get_of_def stripped_text_def mono_def)

lemma demo_texts: "strip ''no'' = ''no''" "strip demo_answer = demo_answer" "demo_answer \<noteq> []"
  "extract_verdict id ''no'' = None" "extract_verdict id demo_answer = Some demo_verdict"
  by code_simp+

text \<open>A firing at a target whose type nothing serves is still recorded.\<close>

lemma demo_fire:
  assumes "ri_id (fc_rule ctx) = Some 1" "q_db (js_q u) = q_db (js_q demo_js)"
  shows "\<exists>q. fire_targets (demo_judge text) ctx (semantic_targets (q_db (js_q demo_js)) 1) u = (Inr (), u\<lparr>js_q := q\<rparr>)
    \<and> map ae_target_id (alert_events (q_db q)) = [Some 5]"
proof -
  have t: "length (semantic_targets (q_db (js_q demo_js)) 1) = 1"
    "ti_id (target_info_of (hd (semantic_targets (q_db (js_q demo_js)) 1))) = Some 5" by code_simp+
  obtain bt where bt: "semantic_targets (q_db (js_q demo_js)) 1 = [bt]"
    using t(1) by (cases "semantic_targets (q_db (js_q demo_js)) 1") simp_all
  note b = bt t(2)[unfolded bt list.sel]
  have r: "refs_exist (q_db (js_q demo_js)) (Some 1) (Some 5)" "alert_events (q_db (js_q demo_js)) = []" by code_simp+
  show ?thesis using assms r b
    by (intro exI[of _ "snd (handle_firing (jd_env (demo_judge text)) (jd_coord (demo_judge text)) ctx (target_info_of bt)
          (Some ''semantic'') (js_q u))"])
      (simp add: history_row_def handle_firing_def dispatch_locked_def demo_judge_def fallback_def log_firing_def try_db_def record_firing_def
      recorded_def Let_def)
qed

lemma demo_settles:
  assumes "q_db (js_q u) = q_db (js_q demo_js)" "js_cursors u = js_cursors demo_js"
  shows "\<exists>s'. settle_window (demo_judge text) (seconds 9000) demo_sem_rule (semantic_targets (q_db (js_q demo_js)) 1) demo_spine
      summary demo_verdict u = (Inr True, s')
    \<and> map ae_target_id (alert_events (q_db (js_q s'))) = [Some 5] \<and> find_cursor 1 s' \<noteq> find_cursor 1 demo_js"
proof -
  let ?ev = "fire_event demo_sem_rule (top_source demo_spine) demo_verdict summary (wall (demo_judge text) u)"
  have rid: "r_id demo_sem_rule = 1" "vd_fire demo_verdict" "max_id demo_spine = 7" by code_simp+
  have "ri_id (fc_rule (semantic_ctx demo_sem_rule ?ev demo_verdict summary)) = Some 1"
    by (simp add: semantic_ctx_def fire_context_init_def semantic_rule_info_def rid)
  from demo_fire[OF this assms(1), of "text"] obtain q where q:
    "fire_targets (demo_judge text) (semantic_ctx demo_sem_rule ?ev demo_verdict summary) (semantic_targets (q_db (js_q demo_js)) 1) u
       = (Inr (), u\<lparr>js_q := q\<rparr>)" "map ae_target_id (alert_events (q_db q)) = [Some 5]" by (elim exE conjE) (rule that)
  then show ?thesis using rid assms(2)
    by (simp add: settle_window_def Let_def checkpoint_def find_cursor_def find_row_def demo_js_def on_mem_def)
qed

lemma demo_moves:
  "\<exists>s'. demo_run demo_answer = (Inr True, s') \<and> map ae_target_id (alert_events (q_db (js_q s'))) = [Some 5]
    \<and> find_cursor 1 s' \<noteq> find_cursor 1 demo_js"
proof -
  let ?J = "demo_judge demo_answer" and ?ts = "semantic_targets (q_db (js_q demo_js)) 1"
  define s1 where "s1 = on_mem (load_cursor \<lparr>cu_rule = 1, cu_event = 3, cu_at = 0\<rparr>) demo_js"
  have e: "ensure_rule_state demo_sem_rule (seconds 9000) demo_js = (False, s1)"
    "jm_seen (js_mem s1) 1 = Some 3" "jm_last (js_mem s1) 1 = Some 0" "jm_calls (js_mem s1) = []" "js_events s1 = demo_spine"
    "retry_ready 1 (seconds 9000) (js_mem s1)" "js_q s1 = js_q demo_js" "js_cursors s1 = js_cursors demo_js"
    by (simp_all add: s1_def ensure_rule_state_def demo_js_def fresh_mem_def find_cursor_def find_row_def demo_sem_rule_def
      demo_rule_def on_mem_def load_cursor_def retry_ready_def)
  have n: "new_events demo_sem_rule 3 demo_spine = demo_spine" "window_rows demo_sem_rule 3 demo_spine = demo_spine"
    "length demo_spine = 1" "r_id demo_sem_rule = 1" "r_window_seconds demo_sem_rule = 300" "r_spike_lines demo_sem_rule = None" by code_simp+
  have J: "mono ?J u = seconds 9000" "jd_cfg ?J = demo_config" for u by (simp_all add: mono_def demo_judge_def)
  define s2 where "s2 = on_mem (\<lambda>m. m\<lparr>jm_calls := []\<rparr>) s1"
  have "demo_run demo_answer = judge_window ?J (seconds 9000) demo_sem_rule ?ts 3 ''interval'' (seconds 9000) s2"
    using e n by (simp add: demo_run_def eval_rule_def Let_def J rate_ok_def demo_config_def s2_def)
  moreover have s2: "js_events s2 = demo_spine" "same_tables demo_js s2"
    using e(5,7,8) by (simp_all add: s2_def on_mem_def same_tables_def) (simp add: demo_js_def)
  have ne: "demo_spine \<noteq> []" by (simp add: demo_spine_def)
  obtain s3 where "same_tables s2 s3" "judge_window ?J (seconds 9000) demo_sem_rule ?ts 3 ''interval'' (seconds 9000) s2
      = settle_window ?J (seconds 9000) demo_sem_rule ?ts demo_spine (summarize demo_spine) demo_verdict (on_mem (clear_failure 1) s3)"
    using judge_window_step[OF _ demo_llm, of demo_sem_rule 3 s2 demo_answer "seconds 9000" ?ts "''interval''" "seconds 9000"]
      n s2(1) ne by (auto simp: demo_texts)
  ultimately show ?thesis
    using demo_settles[of "on_mem (clear_failure 1) s3" demo_answer] s2(2) by (simp add: same_tables_def on_mem_def)
qed

theorem cursor_waits_for_dispatch_witness:
  "\<exists>s'. demo_run demo_answer = (Inr True, s') \<and> map ae_target_id (alert_events (q_db (js_q s'))) = [Some 5]
     \<and> find_cursor 1 s' = Some \<lparr>cu_rule = 1, cu_event = 7, cu_at = seconds 9000\<rparr>"
proof -
  obtain s' where run: "demo_run demo_answer = (Inr True, s')" "map ae_target_id (alert_events (q_db (js_q s'))) = [Some 5]"
    "find_cursor 1 s' \<noteq> find_cursor 1 demo_js" using demo_moves by (elim exE conjE) (rule that)
  have c: "find_cursor 1 demo_js = Some \<lparr>cu_rule = 1, cu_event = 3, cu_at = 0\<rparr>" "jm_last (js_mem demo_js) 1 = None" "r_id demo_sem_rule = 1" by code_simp+
  have m: "max_id (window_rows demo_sem_rule 3 (js_events demo_js)) = 7" by code_simp
  from cursor_waits_for_dispatch[OF demo_registry run(1)[unfolded demo_run_def], unfolded c(3), OF c(1) run(3)[unfolded c(1)]] c(2) m
  show ?thesis using run by simp
qed

lemma demo_window: "window_rows demo_sem_rule 3 demo_spine = demo_spine" by code_simp

theorem window_is_next_stretch_witness:
  "max_id (window_rows demo_sem_rule 3 demo_spine) = 7
   \<and> set (window_rows demo_sem_rule 3 demo_spine) = {e \<in> set demo_spine. in_scope demo_sem_rule e \<and> 3 < sp_id e \<and> sp_id e \<le> 7}"
proof -
  have m: "max_id (window_rows demo_sem_rule 3 demo_spine) = 7" by code_simp
  have d: "distinct (map sp_id demo_spine)" "window_rows demo_sem_rule 3 demo_spine \<noteq> []"
    by (simp add: demo_spine_def) (simp add: demo_window, simp add: demo_spine_def)
  from window_is_next_stretch[OF d] show ?thesis unfolding m by blast
qed

theorem failed_window_is_retained_witness:
  "\<exists>s'. judge_window (demo_judge ''no'') 0 demo_sem_rule [] 3 ''interval'' 0 demo_js = (Inr True, s')
     \<and> find_cursor 1 s' = find_cursor 1 demo_js \<and> \<not> retry_ready 1 (seconds 9029) (js_mem s') \<and> retry_ready 1 (seconds 9030) (js_mem s')"
proof -
  let ?J = "demo_judge ''no''"
  obtain res s' where run: "judge_window ?J 0 demo_sem_rule [] 3 ''interval'' 0 demo_js = (res, s')" by fastforce
  have w: "window_rows demo_sem_rule 3 (js_events demo_js) \<noteq> []" by code_simp
  obtain answer s1 where a: "judge_llm ?J (r_pattern demo_sem_rule) (summarize (window_rows demo_sem_rule 3 (js_events demo_js))) (calling ?J demo_js) = (answer, s1)"
    by fastforce
  then have bad: "\<not> lr_ok answer" by (auto simp: demo_llm demo_texts)
  have r: "find_rule (q_db (js_q demo_js)) (r_id demo_sem_rule) \<noteq> None" "r_id demo_sem_rule = 1"
    "jm_failures (js_mem demo_js) 1 = None" "backoff demo_config (0 + 1) = seconds 30" by code_simp+
  have "mono ?J s' = seconds 9000" "jd_cfg ?J = demo_config" by (simp_all add: mono_def demo_judge_def)
  with failed_window_is_retained[OF run w a bad r(1)] r run show ?thesis
    by (simp add: find_cursor_def)
qed

theorem ceiling_holds_every_minute_witness:
  "admissions demo_config [] [0, 1, 2, seconds 61] = [0, 1, seconds 61]
   \<and> int (length (filter (\<lambda>u. 0 \<le> u \<and> u \<le> 0 + seconds 60) (admissions demo_config [] [0, 1, 2, seconds 61]))) \<le> 2"
proof -
  have c: "0 < sem_max_per_min demo_config" "sem_max_per_min demo_config = 2" by (simp_all add: demo_config_def)
  have "admissions demo_config [] [0, 1, 2, seconds 61] = [0, 1, seconds 61]" by code_simp
  then show ?thesis using ceiling_holds_every_minute[OF c(1), of "[0, 1, 2, seconds 61]" 0] c(2) by simp
qed

end
