(* ===== verification/Judge_Project.thy ===== *)
theory Judge_Project
  imports Judge_Props
begin

text \<open>
  Where the semantic judge and the agent queue disagree: the judge's query of a rule's targets
  omits their project, which the queue's delivery reads.
\<close>

section \<open>The project of a semantic firing\<close>

lemma owner_given: "fc_owner_user ctx \<noteq> [] \<Longrightarrow> owner_of T ctx w = (fc_owner_user ctx, w)"
  by (simp add: owner_of_def)

lemma semantic_prepare:
  assumes "or_else (r_project_id r) [] = []" "r_owner_user r = Some u" "u \<noteq> []" "bt_project_id bt = None"
  shows "ts_prepare T (semantic_ctx r ev v summary) (target_info_of bt) w =
    (Inr ((semantic_ctx r ev v summary)\<lparr>fc_rule := (semantic_rule_info r)\<lparr>ri_project_id := Some (ts_default_project T)\<rparr>\<rparr>), w)"
proof -
  have "fc_owner_user (semantic_ctx r ev v summary) = u" "fc_rule (semantic_ctx r ev v summary) = semantic_rule_info r"
    using assms(2,3) by (simp_all add: semantic_ctx_def fire_context_init_def)
  then show ?thesis using assms
    by (simp add: ts_prepare_def owner_given semantic_rule_info_def target_info_of_def)
qed


definition project_env :: "api_log ts_world env" where
  "project_env = \<lparr>e_registry = (\<lambda>ty. if ty = ''turnstone'' then Some (turnstone_dispatcher (demo_turnstone 200)) else None),
     e_clock = (\<lambda>_. 0), e_token = (\<lambda>w. (''h'', w)), e_fromiso = (\<lambda>_. None)\<rparr>"

definition project_rule :: rule_row where
  "project_rule = demo_sem_rule\<lparr>r_project_id := None\<rparr>"

definition project_db :: db where
  "project_db = demo_db\<lparr>alert_rules := [project_rule], targets := [demo_ts_target]\<rparr>"

definition project_start :: "api_log ts_world qstate" where
  "project_start = \<lparr>q_db = project_db, q_world = no_cache, q_calls = []\<rparr>"

definition project_bound :: bound_target where
  "project_bound = hd (semantic_targets project_db 1)"

definition project_ctx :: fire_context where
  "project_ctx = semantic_ctx project_rule (no_event\<lparr>ev_source := Some ''w''\<rparr>) demo_verdict ''w''"

definition project_queued :: "(exn + string) \<times> api_log ts_world qstate" where
  "project_queued = enqueue project_env project_ctx (target_info_of project_bound) (Some ''semantic'') project_start"


end
