(* ===== verification/Mcp_Auth.thy ===== *)
theory Mcp_Auth
  imports Ntfy Filters Json
begin

text \<open>
  \<open>ringdown/mcp_server.py\<close>, first part: who calls (\<open>_identity\<close>), what the caller may do
  (\<open>_authz\<close>, \<open>_is_admin\<close>, \<open>_owns\<close>) and what may be stored (\<open>_validate_target_config\<close>,
  \<open>_regex_safe\<close>, \<open>_glob_check\<close>). The check of a token's signature, audience and expiry by the
  JWT library is the parameter \<open>me_decode\<close>; the claims it yields are texts and a list of texts,
  as Entra issues them.
\<close>

section \<open>The caller\<close>

record claims =
  cl_iss :: string
  cl_tid :: "string option"
  cl_scp :: string
  cl_azp :: "string option"
  cl_appid :: "string option"
  cl_oid :: "string option"
  cl_sub :: "string option"
  cl_preferred_username :: "string option"
  cl_upn :: "string option"
  cl_roles :: "string list"

record ident =
  id_oid :: string
  id_upn :: string
  id_appid :: string
  id_roles :: "string list"

record mcp_config =
  mc_tenant :: string
  mc_scope :: string
  mc_clients :: "string list"
  mc_read_roles :: "string list"
  mc_write_roles :: "string list"
  mc_operators :: "string list"
  mc_ntfy_url :: string
  mc_ntfy_hosts :: "string list"
  mc_default_project :: string
  mc_default_limit :: int
  mc_max_limit :: int

text \<open>\<open>_bearer\<close> on the value of the \<open>authorization\<close> header.\<close>

definition bearer_of :: "string \<Rightarrow> string" where
  "bearer_of h = (if py_lower (take 7 h) = ''bearer '' then strip (drop 7 h) else [])"

text \<open>\<open>a or b or d\<close> over optional texts.\<close>

definition first_text :: "string option \<Rightarrow> string option \<Rightarrow> string \<Rightarrow> string" where
  "first_text a b d = or_else a (or_else b d)"

definition words :: "string \<Rightarrow> string list" where
  "words s = filter (\<lambda>w. w \<noteq> []) (split_on CHR '' '' (map (\<lambda>c. if is_space c then CHR '' '' else c) s))"

definition issuers :: "mcp_config \<Rightarrow> string list" where
  "issuers c = [''https://login.microsoftonline.com/'' @ mc_tenant c @ ''/v2.0'', ''https://sts.windows.net/'' @ mc_tenant c @ ''/'']"

definition claims_accepted :: "mcp_config \<Rightarrow> claims \<Rightarrow> bool" where
  "claims_accepted c k =
     (cl_iss k \<in> set (issuers c) \<and> cl_tid k = Some (mc_tenant c)
      \<and> (mc_scope c \<noteq> [] \<longrightarrow> mc_scope c \<in> set (words (cl_scp k)))
      \<and> (mc_clients c \<noteq> [] \<longrightarrow>
           (case (if or_else (cl_azp k) [] \<noteq> [] then cl_azp k else cl_appid k) of
              None \<Rightarrow> False | Some a \<Rightarrow> a \<in> set (mc_clients c))))"

definition identity :: "mcp_config \<Rightarrow> (string \<Rightarrow> exn + claims) \<Rightarrow> string \<Rightarrow> ident option" where
  "identity c decode token =
     (if token = [] then None
      else (case decode token of
              Inl e \<Rightarrow> None
            | Inr k \<Rightarrow>
              if \<not> claims_accepted c k then None
              else (let oid = first_text (cl_oid k) (cl_sub k) ''?''
                    in Some \<lparr>id_oid = oid, id_upn = first_text (cl_preferred_username k) (cl_upn k) oid,
                             id_appid = first_text (cl_azp k) (cl_appid k) [], id_roles = map py_lower (cl_roles k)\<rparr>)))"

definition is_admin :: "mcp_config \<Rightarrow> ident \<Rightarrow> bool" where
  "is_admin c i =
     (list_ex (\<lambda>r. r = ''ringdown.operator'' \<or> r = ''ringdown.admin'') (id_roles i)
      \<or> py_lower (id_oid i) \<in> set (mc_operators c) \<or> py_lower (id_upn i) \<in> set (mc_operators c))"

definition authz :: "mcp_config \<Rightarrow> ident \<Rightarrow> bool \<Rightarrow> bool" where
  "authz c i write =
     (list_ex (\<lambda>r. r \<in> set (if write then mc_write_roles c else mc_read_roles c)) (id_roles i) \<or> is_admin c i)"

definition owns :: "ident \<Rightarrow> string option \<Rightarrow> string option \<Rightarrow> bool" where
  "owns i owner_oid owner_bot = (or_else owner_oid [] = id_oid i \<and> or_else owner_bot [] = id_appid i)"

section \<open>What may be stored\<close>

text \<open>\<open>_validate_target_config\<close>: an error text, none, or an exception of \<open>strip\<close> or \<open>urlparse\<close>.\<close>

definition allowed_hosts :: "mcp_config \<Rightarrow> string \<Rightarrow> string list" where
  "allowed_hosts c default_host = filter (\<lambda>h. h \<noteq> []) (default_host # mc_ntfy_hosts c)"

definition config_url :: "dict \<Rightarrow> exn + string" where
  "config_url cfg =
     (case dict_get cfg ''url'' of
        PStr u \<Rightarrow> Inr (strip u)
      | v \<Rightarrow> if truthy v then Inl (Exn ''AttributeError'' ''strip'') else Inr [])"

definition validate_target_config :: "(string \<Rightarrow> bool) \<Rightarrow> mcp_config \<Rightarrow> string \<Rightarrow> dict \<Rightarrow> exn + string option" where
  "validate_target_config b c ty cfg =
     (if ty = ''ntfy''
      then bind_sum (config_url cfg) (\<lambda>u.
             if u = [] then Inr None
             else bind_sum (host_of b u) (\<lambda>host.
                  bind_sum (host_of b (mc_ntfy_url c)) (\<lambda>default_host.
                  Inr (if host \<in> set (allowed_hosts c default_host) then None
                       else Some (''ntfy url host '' @ repr_str host @ '' is not allow-listed (SSRF guard). Use the ''
                         @ ''configured ntfy server, or add the host to RINGDOWN_NTFY_ALLOWED_HOSTS.'')))))
      else if ty = ''turnstone'' \<and> dict_get cfg ''auto_approve'' = PBool True
      then Inr (Some (''blanket auto_approve is not permitted '' @ em_dash @ '' it would disable the human-approval ''
             @ ''gate for destructive tools. Use auto_approve_tools with a scoped list instead.''))
      else Inr None)"

text \<open>
  \<open>_NESTED_QUANT\<close>: a group without inner parentheses that repeats inside and is itself repeated,
  by a star, a plus or a brace of at most two bounds.
\<close>

definition brace_bounds :: "string \<Rightarrow> bool" where
  "brace_bounds s =
     (let t = dropWhile is_digit s;
          u = (if prefix '','' t then tl t else t)
      in prefix ''}'' (dropWhile is_digit u))"

definition repeated :: "string \<Rightarrow> bool" where
  "repeated s =
     (case dropWhile is_space s of
        [] \<Rightarrow> False
      | c # cs \<Rightarrow> c = CHR ''*'' \<or> c = CHR ''+'' \<or> (c = CHR ''{'' \<and> brace_bounds cs))"

definition plain_group :: "char \<Rightarrow> bool" where
  "plain_group c = (c \<noteq> CHR ''('' \<and> c \<noteq> CHR '')'')"

definition nested_here :: "string \<Rightarrow> bool" where
  "nested_here s =
     (let inside = takeWhile plain_group s; rest = dropWhile plain_group s
      in list_ex (\<lambda>c. c = CHR ''*'' \<or> c = CHR ''+'') inside \<and> prefix '')'' rest \<and> repeated (tl rest))"

fun nested_quant :: "string \<Rightarrow> bool" where
  "nested_quant [] = False"
| "nested_quant (c # cs) = (c = CHR ''('' \<and> nested_here cs \<or> nested_quant cs)"

text \<open>\<open>_BIG_REPEAT\<close> just after an opening brace: the texts of the bounds.\<close>

definition repeat_bounds :: "string \<Rightarrow> (string \<times> string option) option" where
  "repeat_bounds s =
     (let s1 = dropWhile is_space s; lo = takeWhile is_digit s1;
          s2 = dropWhile is_space (dropWhile is_digit s1)
      in if lo = [] then None
         else if prefix ''}'' s2 then Some (lo, None)
         else if \<not> prefix '','' s2 then None
         else (let s3 = dropWhile is_space (tl s2); hi = takeWhile is_digit s3
               in if hi \<noteq> [] \<and> prefix ''}'' (dropWhile is_space (dropWhile is_digit s3)) then Some (lo, Some hi) else None))"

fun big_repeat :: "string \<Rightarrow> (string \<times> string option) option" where
  "big_repeat [] = None"
| "big_repeat (c # cs) =
     (case (if c = CHR ''{'' then repeat_bounds cs else None) of
        Some (lo, hi) \<Rightarrow>
          if digits_value (case hi of None \<Rightarrow> lo | Some h \<Rightarrow> h) > 1000 then Some (lo, hi) else big_repeat cs
      | None \<Rightarrow> big_repeat cs)"

definition regex_safe :: "string \<Rightarrow> string option" where
  "regex_safe p =
     (if length p > 512 then Some (''pattern too long ('' @ int_text (int (length p)) @ '' > 512 chars) '' @ em_dash @ '' simplify it.'')
      else if nested_quant p
      then Some (''pattern has a nested unbounded quantifier (e.g. (a+)+ / (.*)* ) which can cause ''
             @ ''catastrophic backtracking and wedge the collector. Rewrite without nesting ''
             @ ''quantifiers over a group that already repeats.'')
      else (case big_repeat p of
              Some (lo, hi) \<Rightarrow> Some (''repetition {'' @ lo @ '','' @ (case hi of None \<Rightarrow> [] | Some h \<Rightarrow> h) @ ''} is too large (> 1000).'')
            | None \<Rightarrow> None))"

datatype glob_fault = Comma_List | Whitespace

definition glob_check :: "string \<Rightarrow> glob_fault option" where
  "glob_check glob =
     (let g = strip glob in
      if g = [] then None
      else if CHR '','' \<in> set g then Some Comma_List
      else if list_ex is_space g then Some Whitespace
      else None)"

text \<open>\<open>_glob_clause\<close> of a column: its value must be like the escaped pattern, or equal to it.\<close>

definition glob_clause :: "string \<Rightarrow> string \<Rightarrow> bool" where
  "glob_clause glob v =
     (if list_ex (\<lambda>c. c = CHR ''*'' \<or> c = CHR ''?'') glob then like_match (like_glob glob) v else v = glob)"

section \<open>What the guards guarantee\<close>

text \<open>
  C31. Only a verified token is an identity. A caller has an identity only when the JWT library
  accepts the token and its claims name this tenant, one of its two issuers, the required scope
  and an allowed client; the identity's roles are then the token's, in lower case.
\<close>

theorem identity_is_verified:
  assumes "identity c decode token = Some i"
  shows "token \<noteq> [] \<and> (\<exists>k. decode token = Inr k \<and> cl_tid k = Some (mc_tenant c)
    \<and> cl_iss k \<in> {''https://login.microsoftonline.com/'' @ mc_tenant c @ ''/v2.0'', ''https://sts.windows.net/'' @ mc_tenant c @ ''/''}
    \<and> (mc_scope c \<noteq> [] \<longrightarrow> mc_scope c \<in> set (words (cl_scp k)))
    \<and> (mc_clients c \<noteq> [] \<longrightarrow> id_appid i \<in> set (mc_clients c))
    \<and> id_oid i \<noteq> [] \<and> id_roles i = map py_lower (cl_roles k))"
proof -
  obtain k where k: "token \<noteq> []" "decode token = Inr k" "claims_accepted c k"
    and i: "i = \<lparr>id_oid = first_text (cl_oid k) (cl_sub k) ''?'',
      id_upn = first_text (cl_preferred_username k) (cl_upn k) (first_text (cl_oid k) (cl_sub k) ''?''),
      id_appid = first_text (cl_azp k) (cl_appid k) [], id_roles = map py_lower (cl_roles k)\<rparr>"
    using assms by (auto simp: identity_def Let_def split: if_splits sum.splits)
  have oid: "id_oid i \<noteq> []" by (simp add: i first_text_def or_else_nonempty)
  have "id_appid i \<in> set (mc_clients c)" if "mc_clients c \<noteq> []"
    using k(3) that by (auto simp: claims_accepted_def i first_text_def or_else_def split: option.splits if_splits)
  then show ?thesis using k oid by (auto simp: claims_accepted_def issuers_def i)
qed

section \<open>A deployment\<close>

text \<open>A tenant with one client and one operator; three tokens are valid.\<close>

definition demo_tenant :: mcp_config where
  "demo_tenant = \<lparr>mc_tenant = ''t1'', mc_scope = ''mcp'', mc_clients = [''app''], mc_read_roles = [''ringdown.read'', ''ringdown.write''],
     mc_write_roles = [''ringdown.write''], mc_operators = [''root''], mc_ntfy_url = ''https://ntfy.example'', mc_ntfy_hosts = [],
     mc_default_project = [], mc_default_limit = 100, mc_max_limit = 1000\<rparr>"

definition demo_claims :: "string \<Rightarrow> claims" where
  "demo_claims oid = \<lparr>cl_iss = ''https://login.microsoftonline.com/t1/v2.0'', cl_tid = Some ''t1'', cl_scp = ''mcp'', cl_azp = Some ''app'',
     cl_appid = None, cl_oid = Some oid, cl_sub = None, cl_preferred_username = Some oid, cl_upn = None, cl_roles = [''Ringdown.Write'']\<rparr>"

definition demo_decode :: "string \<Rightarrow> exn + claims" where
  "demo_decode tok = (if tok \<in> {''alice'', ''bob'', ''root''} then Inr (demo_claims tok) else Inl (Exn ''InvalidTokenError'' []))"

definition demo_ident :: "string \<Rightarrow> ident" where
  "demo_ident oid = \<lparr>id_oid = oid, id_upn = oid, id_appid = ''app'', id_roles = [''ringdown.write'']\<rparr>"

lemma demo_identity: "identity demo_tenant demo_decode ''alice'' = Some (demo_ident ''alice'')"
  by code_simp

theorem identity_is_verified_witness:
  "''alice'' \<noteq> [] \<and> (\<exists>k. demo_decode ''alice'' = Inr k \<and> cl_tid k = Some ''t1''
    \<and> cl_iss k \<in> {''https://login.microsoftonline.com/t1/v2.0'', ''https://sts.windows.net/t1/''}
    \<and> ''mcp'' \<in> set (words (cl_scp k)) \<and> id_appid (demo_ident ''alice'') \<in> {''app''})"
  using identity_is_verified[OF demo_identity] by (auto simp: demo_tenant_def)

end
