(* ===== verification/Mcp.thy ===== *)
theory Mcp
  imports Mcp_Auth Judge
begin

text \<open>
  \<open>ringdown/mcp_server.py\<close>, second part: the tools. Each is a step on the tables: it answers with
  an error or an object and leaves the tables it was given, changed only where the source issues a
  statement. \<open>serve\<close> is the front door: the token, the role, then the tool. Errors are values of
  \<open>tool_error\<close>, one constructor for each refusal the source words; the truncation of long answers
  (\<open>_out\<close>) and the audit file are not modelled, the \<open>audit\<close> table is.
\<close>

section \<open>State, environment and answers\<close>

record source_row =
  so_source :: string
  so_label :: "string option"
  so_kind :: "string option"
  so_active :: bool
  so_first_seen :: time
  so_last_seen :: time
  so_events :: int

record mstate =
  ms_db :: db
  ms_filters :: "filter_row list"
  ms_next_filter :: id
  ms_sources :: "source_row list"
  ms_events :: "spine_row list"

text \<open>
  The JWT library, RE2 and PostgreSQL's regular expressions, Python's \<open>re.compile\<close> and
  \<open>difflib.get_close_matches\<close>, the full-text query, \<open>float\<close> on a literal, the check of a bracketed
  host, the rows a \<open>LIMIT\<close> without order picks, and the clock.
\<close>

record mcp_env =
  me_cfg :: mcp_config
  me_decode :: "string \<Rightarrow> exn + claims"
  me_engine :: engine
  me_py_regex :: "string \<Rightarrow> string option"
  me_close :: "string \<Rightarrow> string list \<Rightarrow> string list"
  me_fulltext :: "string \<Rightarrow> spine_row \<Rightarrow> bool"
  me_float :: "string \<Rightarrow> string"
  me_brackets :: "string \<Rightarrow> bool"
  me_pick :: "nat \<Rightarrow> event_row list \<Rightarrow> event_row list"
  me_now :: time

datatype tool_error =
    Unauthenticated
  | Needs_Role bool
  | Admins_Only
  | No_Such string id
  | No_Source string
  | Not_Owner string "string option"
  | Bad string
  | Bad_Glob glob_fault
  | Rejected string
  | Nothing_To_Update
  | Failed exn

type_synonym reply = "tool_error + dict"

definition on_mdb :: "(db \<Rightarrow> db) \<Rightarrow> mstate \<Rightarrow> mstate" where
  "on_mdb f s = s\<lparr>ms_db := f (ms_db s)\<rparr>"

text \<open>\<open>_audit\<close>.\<close>

definition audited :: "ident \<Rightarrow> string \<Rightarrow> dict \<Rightarrow> bool \<Rightarrow> mstate \<Rightarrow> mstate" where
  "audited i action detail ok = on_mdb (add_audit (id_oid i) action detail ok)"

text \<open>The owner of a row, or an operator.\<close>

definition may_edit :: "mcp_env \<Rightarrow> ident \<Rightarrow> string option \<Rightarrow> string option \<Rightarrow> bool" where
  "may_edit M i oid azp = (owns i oid azp \<or> is_admin (me_cfg M) i)"

definition may_edit_rule :: "mcp_env \<Rightarrow> ident \<Rightarrow> rule_row \<Rightarrow> bool" where
  "may_edit_rule M i r = may_edit M i (r_created_by r) (r_created_by_bot r)"

definition may_edit_target :: "mcp_env \<Rightarrow> ident \<Rightarrow> target_row \<Rightarrow> bool" where
  "may_edit_target M i t = may_edit M i (t_owner_oid t) (t_owner_bot t)"

section \<open>Targets\<close>

definition known_target_types :: "string list" where
  "known_target_types = [''ntfy'', ''turnstone'']"

definition identity_policies :: "string list" where
  "identity_policies = [''run-as-owner'', ''static-svc'', ''none'']"

definition nonempty :: "string \<Rightarrow> string option" where
  "nonempty s = (if s = [] then None else Some s)"

text \<open>\<open>json.loads\<close> of a configuration, which must be an object.\<close>

definition read_config :: "mcp_env \<Rightarrow> string \<Rightarrow> tool_error + dict" where
  "read_config M txt =
     (case json_loads (me_float M) txt of
        Inr (PDict d) \<Rightarrow> Inr d
      | _ \<Rightarrow> Inl (Bad ''config_json''))"

definition check_config :: "mcp_env \<Rightarrow> string \<Rightarrow> dict \<Rightarrow> tool_error option" where
  "check_config M ty cfg =
     (case validate_target_config (me_brackets M) (me_cfg M) ty cfg of
        Inl e \<Rightarrow> Some (Failed e) | Inr None \<Rightarrow> None | Inr (Some why) \<Rightarrow> Some (Rejected why))"

definition deny_config :: "ident \<Rightarrow> string \<Rightarrow> string \<times> pyval \<Rightarrow> tool_error \<Rightarrow> mstate \<Rightarrow> reply \<times> mstate" where
  "deny_config i action about err s =
     (case err of
        Rejected why \<Rightarrow> (Inl err, audited i action [about, (''denied'', PStr why)] False s)
      | _ \<Rightarrow> (Inl err, s))"

record target_args =
  ta_name :: string
  ta_type :: string
  ta_config_json :: string
  ta_identity_policy :: string
  ta_project_id :: string
  ta_project_name :: string

definition new_target :: "ident \<Rightarrow> target_args \<Rightarrow> dict \<Rightarrow> id \<Rightarrow> target_row" where
  "new_target i a cfg n =
     \<lparr>t_id = n, t_name = ta_name a, t_type = ta_type a, t_config = cfg, t_identity_policy = ta_identity_policy a,
      t_owner_oid = Some (id_oid i), t_owner_upn = Some (id_upn i), t_owner_bot = Some (id_appid i),
      t_project_id = nonempty (strip (ta_project_id a)), t_project_name = nonempty (strip (ta_project_name a))\<rparr>"

definition insert_target :: "ident \<Rightarrow> target_args \<Rightarrow> dict \<Rightarrow> db \<Rightarrow> exn + db" where
  "insert_target i a cfg d =
     (if list_ex (\<lambda>t. t_name t = ta_name a) (targets d) then Inl (Exn ''UniqueViolation'' [])
      else Inr (d\<lparr>targets := targets d @ [new_target i a cfg (next_target d)], next_target := next_target d + 1\<rparr>))"

definition register_target :: "mcp_env \<Rightarrow> ident \<Rightarrow> target_args \<Rightarrow> mstate \<Rightarrow> reply \<times> mstate" where
  "register_target M i a s =
     (if ta_type a \<notin> set known_target_types then (Inl (Bad ''type''), s)
      else if ta_identity_policy a \<notin> set identity_policies then (Inl (Bad ''identity_policy''), s)
      else if ta_type a = ''turnstone'' \<and> strip (ta_project_id a) = [] \<and> strip (mc_default_project (me_cfg M)) = []
      then (Inl (Bad ''project_id''), s)
      else case read_config M (if ta_config_json a = [] then ''{}'' else ta_config_json a) of
        Inl e \<Rightarrow> (Inl e, s)
      | Inr cfg \<Rightarrow>
        (case check_config M (ta_type a) cfg of
           Some err \<Rightarrow> deny_config i ''register_target'' (''name'', PStr (ta_name a)) err s
         | None \<Rightarrow>
           (case insert_target i a cfg (ms_db s) of
              Inl e \<Rightarrow> (Inl (Failed e), s)
            | Inr d \<Rightarrow>
              let n = next_target (ms_db s)
              in (Inr [(''registered'', PBool True), (''id'', PInt n), (''name'', PStr (ta_name a)), (''type'', PStr (ta_type a)),
                       (''project_id'', opt_str (nonempty (strip (ta_project_id a))))],
                  audited i ''register_target'' [(''id'', PInt n), (''name'', PStr (ta_name a)), (''type'', PStr (ta_type a)),
                       (''project_id'', PStr (strip (ta_project_id a)))] True (s\<lparr>ms_db := d\<rparr>)))))"

definition redacted :: pyval where
  "redacted = PStr (''<redacted '' @ em_dash @ '' not owner>'')"

definition target_entry :: "mcp_env \<Rightarrow> ident \<Rightarrow> target_row \<Rightarrow> dict" where
  "target_entry M i t =
     [(''id'', PInt (t_id t)), (''name'', PStr (t_name t)), (''type'', PStr (t_type t)),
      (''identity_policy'', PStr (t_identity_policy t)), (''owner_upn'', opt_str (t_owner_upn t)),
      (''project_id'', opt_str (t_project_id t)), (''project_name'', opt_str (t_project_name t)),
      (''config'', if may_edit_target M i t then PDict (t_config t) else redacted)]"

definition list_targets :: "mcp_env \<Rightarrow> ident \<Rightarrow> mstate \<Rightarrow> reply" where
  "list_targets M i s =
     (let out = map (\<lambda>t. PDict (target_entry M i t)) (sort_key t_id (targets (ms_db s)))
      in Inr [(''count'', PInt (int (length out))), (''targets'', PList out)])"

text \<open>
  \<open>update_target\<close>: the assignments of the statement, and whether there is any. A configuration
  replaces the whole object; texts change when they are not empty.
\<close>

definition set_target :: "target_args \<Rightarrow> dict option \<Rightarrow> target_row \<Rightarrow> target_row" where
  "set_target a cfg t = t\<lparr>
     t_config := (case cfg of None \<Rightarrow> t_config t | Some c \<Rightarrow> c),
     t_identity_policy := (if ta_identity_policy a = [] then t_identity_policy t else ta_identity_policy a),
     t_name := (if ta_name a = [] then t_name t else ta_name a),
     t_project_id := (if ta_project_id a = [] then t_project_id t else Some (strip (ta_project_id a))),
     t_project_name := (if ta_project_name a = [] then t_project_name t else Some (strip (ta_project_name a)))\<rparr>"

definition target_fields :: "target_args \<Rightarrow> dict option \<Rightarrow> nat" where
  "target_fields a cfg = length (filter id [cfg \<noteq> None, ta_identity_policy a \<noteq> [], ta_name a \<noteq> [], ta_project_id a \<noteq> [],
     ta_project_name a \<noteq> []])"

definition store_target :: "id \<Rightarrow> target_args \<Rightarrow> dict option \<Rightarrow> db \<Rightarrow> exn + db" where
  "store_target tid a cfg d =
     (if ta_name a \<noteq> [] \<and> list_ex (\<lambda>t. t_name t = ta_name a \<and> t_id t \<noteq> tid) (targets d) then Inl (Exn ''UniqueViolation'' [])
      else Inr (d\<lparr>targets := update_where (\<lambda>t. t_id t = tid) (set_target a cfg) (targets d)\<rparr>))"

definition update_target :: "mcp_env \<Rightarrow> ident \<Rightarrow> id \<Rightarrow> target_args \<Rightarrow> mstate \<Rightarrow> reply \<times> mstate" where
  "update_target M i tid a s =
     (case find_target (ms_db s) tid of
        None \<Rightarrow> (Inl (No_Such ''target'' tid), s)
      | Some t \<Rightarrow>
        if \<not> may_edit_target M i t
        then (Inl (Not_Owner ''target'' (t_owner_oid t)),
              audited i ''update_target'' [(''target_id'', PInt tid), (''denied'', PStr ''not owner'')] False s)
        else case (if ta_config_json a = [] then Inr None
                   else bind_sum (read_config M (ta_config_json a)) (\<lambda>cfg. Inr (Some cfg))) of
          Inl e \<Rightarrow> (Inl e, s)
        | Inr cfg \<Rightarrow>
          (case (case cfg of None \<Rightarrow> None | Some c \<Rightarrow> check_config M (t_type t) c) of
             Some err \<Rightarrow> deny_config i ''update_target'' (''target_id'', PInt tid) err s
           | None \<Rightarrow>
             if ta_identity_policy a \<noteq> [] \<and> ta_identity_policy a \<notin> set identity_policies
             then (Inl (Bad ''identity_policy''), s)
             else if target_fields a cfg = 0 then (Inl Nothing_To_Update, s)
             else case store_target tid a cfg (ms_db s) of
               Inl e \<Rightarrow> (Inl (Failed e), s)
             | Inr d \<Rightarrow> (Inr [(''updated'', PBool True), (''id'', PInt tid), (''name'', PStr (t_name (set_target a cfg t)))],
                  audited i ''update_target'' [(''target_id'', PInt tid), (''fields'', PInt (int (target_fields a cfg)))] True
                    (s\<lparr>ms_db := d\<rparr>))))"

definition remove_target :: "mcp_env \<Rightarrow> ident \<Rightarrow> id \<Rightarrow> mstate \<Rightarrow> reply \<times> mstate" where
  "remove_target M i tid s =
     (case find_target (ms_db s) tid of
        None \<Rightarrow> (Inl (No_Such ''target'' tid), s)
      | Some t \<Rightarrow>
        if \<not> may_edit_target M i t then (Inl (Not_Owner ''target'' (t_owner_oid t)), s)
        else (Inr [(''deleted'', PBool True), (''id'', PInt tid)],
              audited i ''delete_target'' [(''target_id'', PInt tid), (''name'', PStr (t_name t))] True
                (on_mdb (delete_target tid) s)))"

section \<open>Rules\<close>

record alert_args =
  aa_name :: string
  aa_kind :: string
  aa_pattern :: string
  aa_instructions :: string
  aa_source_glob :: string
  aa_min_severity :: int
  aa_window_kind :: string
  aa_window_seconds :: int
  aa_spike_lines :: int
  aa_cooldown_seconds :: int
  aa_rule_order :: int
  aa_stop_on_match :: bool
  aa_project_id :: string
  aa_targets :: string
  aa_group_by :: string

text \<open>The checks of a pattern: RE2 compiles it and it is not a risk for PostgreSQL's engine.\<close>

definition check_pattern :: "mcp_env \<Rightarrow> string \<Rightarrow> string \<Rightarrow> tool_error option" where
  "check_pattern M kind pattern =
     (if kind = ''regex''
      then (case compile_regex (me_engine M) pattern True of
              Inl e \<Rightarrow> Some (Rejected (exn_msg e))
            | Inr _ \<Rightarrow> map_option Rejected (regex_safe pattern))
      else None)"

text \<open>
  The ids of a comma-separated text. A superscript digit passes \<open>isdigit\<close> and then \<open>int\<close> raises.
\<close>

fun read_ids :: "string list \<Rightarrow> tool_error + id list" where
  "read_ids [] = Inr []"
| "read_ids (w # ws) =
     (let t = strip w in
      if t = [] then read_ids ws
      else if \<not> list_all py_isdigit_char t then Inl (Bad ''targets'')
      else if \<not> list_all is_digit t then Inl (Failed (Exn ''ValueError'' ''int''))
      else bind_sum (read_ids ws) (\<lambda>ns. Inr (int (digits_value t) # ns)))"

fun check_targets :: "mcp_env \<Rightarrow> ident \<Rightarrow> id list \<Rightarrow> db \<Rightarrow> tool_error option" where
  "check_targets M i [] d = None"
| "check_targets M i (n # ns) d =
     (case find_target d n of
        None \<Rightarrow> Some (No_Such ''target'' n)
      | Some t \<Rightarrow> if may_edit_target M i t then check_targets M i ns d else Some (Not_Owner ''target'' (t_owner_oid t)))"

definition opt_nonzero :: "int \<Rightarrow> int option" where
  "opt_nonzero n = (if n = 0 then None else Some n)"

definition new_rule :: "ident \<Rightarrow> alert_args \<Rightarrow> id \<Rightarrow> rule_row" where
  "new_rule i a n =
     \<lparr>r_id = n, r_name = aa_name a, r_kind = aa_kind a, r_pattern = aa_pattern a,
      r_instructions = nonempty (aa_instructions a), r_source_glob = nonempty (aa_source_glob a),
      r_min_severity = opt_nonzero (aa_min_severity a), r_window_kind = aa_window_kind a,
      r_window_seconds = aa_window_seconds a, r_spike_lines = opt_nonzero (aa_spike_lines a),
      r_cooldown_seconds = aa_cooldown_seconds a, r_rule_order = aa_rule_order a,
      r_stop_on_match = aa_stop_on_match a, r_enabled = True, r_owner_user = None,
      r_project_id = nonempty (aa_project_id a), r_created_by = Some (id_oid i), r_created_by_upn = Some (id_upn i),
      r_created_by_bot = Some (id_appid i), r_last_fired = None, r_group_by = aa_group_by a\<rparr>"

text \<open>The columns are \<open>smallint\<close> and \<open>integer\<close>; a number outside fails the statement.\<close>

definition int4 :: "int \<Rightarrow> bool" where
  "int4 n = (-2147483648 \<le> n \<and> n \<le> 2147483647)"

definition rule_fits :: "rule_row \<Rightarrow> bool" where
  "rule_fits r =
     ((case r_min_severity r of None \<Rightarrow> True | Some n \<Rightarrow> -32768 \<le> n \<and> n \<le> 32767)
      \<and> int4 (r_window_seconds r) \<and> (case r_spike_lines r of None \<Rightarrow> True | Some n \<Rightarrow> int4 n)
      \<and> int4 (r_cooldown_seconds r) \<and> int4 (r_rule_order r))"

definition insert_rule :: "rule_row \<Rightarrow> db \<Rightarrow> exn + db" where
  "insert_rule r d =
     (if rule_fits r then Inr (d\<lparr>alert_rules := alert_rules d @ [r], next_rule := next_rule d + 1\<rparr>)
      else Inl (Exn ''NumericValueOutOfRange'' []))"

text \<open>\<open>INSERT INTO rule_targets (rule_id, target_id) ... ON CONFLICT DO NOTHING\<close>.\<close>

definition has_binding :: "id \<Rightarrow> id \<Rightarrow> db \<Rightarrow> bool" where
  "has_binding rid tid d = list_ex (\<lambda>b. b_rule_id b = rid \<and> b_target_id b = tid) (rule_targets d)"

definition add_binding :: "id \<Rightarrow> id \<Rightarrow> db \<Rightarrow> db" where
  "add_binding rid tid d =
     (if has_binding rid tid d then d
      else d\<lparr>rule_targets := rule_targets d @
        [\<lparr>b_rule_id = rid, b_target_id = tid, b_target_order = 100, b_stop_on_match = False\<rparr>]\<rparr>)"

text \<open>\<open>_glob_source_warn\<close>.\<close>

definition glob_source_warn :: "mcp_env \<Rightarrow> string \<Rightarrow> mstate \<Rightarrow> string option" where
  "glob_source_warn M glob s =
     (let g = strip glob;
          known = map so_source (take 500 (sort_key (\<lambda>r. - so_last_seen r) (filter so_active (ms_sources s))));
          near = me_close M g known;
          hint = (if near = [] then [] else '' Did you mean: '' @ join '', '' near @ ''?'')
      in if g = [] \<or> list_ex (\<lambda>c. c \<in> {CHR ''*'', CHR ''?'', CHR ''[''}) g \<or> g \<in> set known then None
         else Some (''source_glob '' @ repr_str g @ '' matches no currently-known source host.'' @ hint
           @ '' If that host just hasn'' @ [CHR 0x27] @ ''t logged yet, this is fine; otherwise the rule will never match anything.''))"

definition alert_reply :: "mcp_env \<Rightarrow> alert_args \<Rightarrow> id \<Rightarrow> id list \<Rightarrow> mstate \<Rightarrow> dict" where
  "alert_reply M a n tids s =
     [(''registered'', PBool True), (''id'', PInt n), (''name'', PStr (aa_name a)), (''kind'', PStr (aa_kind a)),
      (''bound_targets'', PList (map PInt tids)), (''group_by'', PStr (aa_group_by a))]
     @ (case glob_source_warn M (aa_source_glob a) s of None \<Rightarrow> [] | Some w \<Rightarrow> [(''warning'', PStr w)])
     @ (if tids = []
        then [(''note'', PStr (''rule has no targets: it fires nowhere UNLESS stop_on_match=true, in which ''
               @ ''case it is a silent allowlist block (matches, stops the router, notifies nobody).''))]
        else [])"

definition register_alert :: "mcp_env \<Rightarrow> ident \<Rightarrow> alert_args \<Rightarrow> mstate \<Rightarrow> reply \<times> mstate" where
  "register_alert M i a s =
     (if aa_kind a \<notin> {''regex'', ''semantic''} then (Inl (Bad ''kind''), s)
      else if aa_group_by a \<notin> {''host'', ''rule''} then (Inl (Bad ''group_by''), s)
      else if aa_name a = [] \<or> aa_pattern a = [] then (Inl (Bad ''name and pattern''), s)
      else if aa_window_kind a \<notin> {''sliding'', ''tumbling''} then (Inl (Bad ''window_kind''), s)
      else case check_pattern M (aa_kind a) (aa_pattern a) of
        Some err \<Rightarrow> (Inl err, s)
      | None \<Rightarrow>
        (case glob_check (aa_source_glob a) of
           Some fault \<Rightarrow> (Inl (Bad_Glob fault),
             audited i ''register_alert'' [(''name'', PStr (aa_name a)), (''rejected'', PStr ''bad source_glob'')] False s)
         | None \<Rightarrow>
           (case read_ids (split_on CHR '','' (aa_targets a)) of
              Inl err \<Rightarrow> (Inl err, s)
            | Inr tids \<Rightarrow>
              (case check_targets M i tids (ms_db s) of
                 Some err \<Rightarrow> (Inl err, s)
               | None \<Rightarrow>
                 let n = next_rule (ms_db s)
                 in case insert_rule (new_rule i a n) (ms_db s) of
                      Inl e \<Rightarrow> (Inl (Failed e), s)
                    | Inr d \<Rightarrow>
                      let s1 = audited i ''register_alert''
                            [(''id'', PInt n), (''name'', PStr (aa_name a)), (''kind'', PStr (aa_kind a)), (''targets'', PList (map PInt tids))]
                            True (s\<lparr>ms_db := fold (add_binding n) tids d\<rparr>)
                      in (Inr (alert_reply M a n tids s1), s1)))))"

text \<open>A tool on an existing rule: its owner or an operator. \<open>update_alert\<close> alone audits the refusal.\<close>

definition with_rule ::
    "mcp_env \<Rightarrow> ident \<Rightarrow> id \<Rightarrow> (mstate \<Rightarrow> mstate) \<Rightarrow> (rule_row \<Rightarrow> mstate \<Rightarrow> reply \<times> mstate) \<Rightarrow> mstate \<Rightarrow> reply \<times> mstate" where
  "with_rule M i rid refused f s =
     (case find_rule (ms_db s) rid of
        None \<Rightarrow> (Inl (No_Such ''rule'' rid), s)
      | Some r \<Rightarrow> if may_edit_rule M i r then f r s else (Inl (Not_Owner ''rule'' (r_created_by r)), refused s))"

record alert_edit =
  au_pattern :: string
  au_instructions :: string
  au_source_glob :: string
  au_min_severity :: int
  au_window_seconds :: int
  au_spike_lines :: int
  au_cooldown_seconds :: int
  au_rule_order :: int
  au_stop_on_match_set :: string
  au_project_id :: string
  au_group_by :: string

definition flag_set :: "string \<Rightarrow> bool option" where
  "flag_set t = (if py_lower t = ''true'' then Some True else if py_lower t = ''false'' then Some False else None)"

definition set_rule :: "alert_edit \<Rightarrow> rule_row \<Rightarrow> rule_row" where
  "set_rule u r = r\<lparr>
     r_group_by := (if au_group_by u = [] then r_group_by r else au_group_by u),
     r_pattern := (if au_pattern u = [] then r_pattern r else au_pattern u),
     r_instructions := (if au_instructions u = [] then r_instructions r else Some (au_instructions u)),
     r_source_glob := (if au_source_glob u = [] then r_source_glob r else Some (au_source_glob u)),
     r_min_severity := (if au_min_severity u < 0 then r_min_severity r else opt_nonzero (au_min_severity u)),
     r_window_seconds := (if au_window_seconds u < 0 then r_window_seconds r else au_window_seconds u),
     r_spike_lines := (if au_spike_lines u < 0 then r_spike_lines r else opt_nonzero (au_spike_lines u)),
     r_cooldown_seconds := (if au_cooldown_seconds u < 0 then r_cooldown_seconds r else au_cooldown_seconds u),
     r_rule_order := (if au_rule_order u < 0 then r_rule_order r else au_rule_order u),
     r_stop_on_match := (case flag_set (au_stop_on_match_set u) of None \<Rightarrow> r_stop_on_match r | Some b \<Rightarrow> b),
     r_project_id := (if au_project_id u = [] then r_project_id r else Some (au_project_id u))\<rparr>"

definition rule_fields :: "alert_edit \<Rightarrow> nat" where
  "rule_fields u = length (filter id [au_group_by u \<noteq> [], au_pattern u \<noteq> [], au_instructions u \<noteq> [], au_source_glob u \<noteq> [],
     au_min_severity u \<ge> 0, au_window_seconds u \<ge> 0, au_spike_lines u \<ge> 0, au_cooldown_seconds u \<ge> 0, au_rule_order u \<ge> 0,
     flag_set (au_stop_on_match_set u) \<noteq> None, au_project_id u \<noteq> []])"

definition check_edit :: "mcp_env \<Rightarrow> alert_edit \<Rightarrow> rule_row \<Rightarrow> tool_error option" where
  "check_edit M u r =
     (if au_group_by u \<notin> {[], ''host'', ''rule''} then Some (Bad ''group_by'')
      else case (if au_pattern u = [] then None else check_pattern M (r_kind r) (au_pattern u)) of
        Some err \<Rightarrow> Some err
      | None \<Rightarrow> map_option Bad_Glob (if au_source_glob u = [] then None else glob_check (au_source_glob u)))"

definition update_alert :: "mcp_env \<Rightarrow> ident \<Rightarrow> id \<Rightarrow> alert_edit \<Rightarrow> mstate \<Rightarrow> reply \<times> mstate" where
  "update_alert M i rid u =
     with_rule M i rid (audited i ''update_alert'' [(''rule_id'', PInt rid), (''denied'', PStr ''not owner'')] False) (\<lambda>r s.
       case check_edit M u r of
         Some err \<Rightarrow> (Inl err, s)
       | None \<Rightarrow>
         if rule_fields u = 0 then (Inl Nothing_To_Update, s)
         else if \<not> rule_fits (set_rule u r) then (Inl (Failed (Exn ''NumericValueOutOfRange'' [])), s)
         else (Inr [(''updated'', PBool True), (''id'', PInt rid), (''name'', PStr (r_name r))],
               audited i ''update_alert'' [(''rule_id'', PInt rid), (''fields'', PInt (int (rule_fields u)))] True
                 (on_mdb (\<lambda>d. d\<lparr>alert_rules := update_where (\<lambda>x. r_id x = rid) (set_rule u) (alert_rules d)\<rparr>) s)))"

definition delete_alert :: "mcp_env \<Rightarrow> ident \<Rightarrow> id \<Rightarrow> mstate \<Rightarrow> reply \<times> mstate" where
  "delete_alert M i rid = with_rule M i rid id (\<lambda>r s.
     (Inr [(''deleted'', PBool True), (''id'', PInt rid)],
      audited i ''delete_alert'' [(''rule_id'', PInt rid), (''name'', PStr (r_name r))] True (on_mdb (delete_rule rid) s)))"

definition disable_alert :: "mcp_env \<Rightarrow> ident \<Rightarrow> id \<Rightarrow> bool \<Rightarrow> mstate \<Rightarrow> reply \<times> mstate" where
  "disable_alert M i rid enable = with_rule M i rid id (\<lambda>r s.
     (Inr [(''updated'', PBool True), (''id'', PInt rid), (''name'', PStr (r_name r)), (''enabled'', PBool enable)],
      audited i ''disable_alert'' [(''rule_id'', PInt rid), (''enabled'', PBool enable)] True
        (on_mdb (\<lambda>d. d\<lparr>alert_rules := update_where (\<lambda>x. r_id x = rid) (\<lambda>x. x\<lparr>r_enabled := enable\<rparr>) (alert_rules d)\<rparr>) s)))"

text \<open>\<open>ON CONFLICT (rule_id, target_id) DO UPDATE\<close>; the order is an \<open>integer\<close>.\<close>

definition set_binding :: "id \<Rightarrow> id \<Rightarrow> int \<Rightarrow> bool \<Rightarrow> db \<Rightarrow> db" where
  "set_binding rid tid ord stop d =
     (if has_binding rid tid d
      then d\<lparr>rule_targets := update_where (\<lambda>b. b_rule_id b = rid \<and> b_target_id b = tid)
             (\<lambda>b. b\<lparr>b_target_order := ord, b_stop_on_match := stop\<rparr>) (rule_targets d)\<rparr>
      else d\<lparr>rule_targets := rule_targets d @
        [\<lparr>b_rule_id = rid, b_target_id = tid, b_target_order = ord, b_stop_on_match = stop\<rparr>]\<rparr>)"

definition bind_target :: "mcp_env \<Rightarrow> ident \<Rightarrow> id \<Rightarrow> id \<Rightarrow> int \<Rightarrow> bool \<Rightarrow> mstate \<Rightarrow> reply \<times> mstate" where
  "bind_target M i rid tid ord stop = with_rule M i rid id (\<lambda>r s.
     case find_target (ms_db s) tid of
       None \<Rightarrow> (Inl (No_Such ''target'' tid), s)
     | Some t \<Rightarrow>
       if \<not> may_edit_target M i t then (Inl (Not_Owner ''target'' (t_owner_oid t)), s)
       else if \<not> int4 ord then (Inl (Failed (Exn ''NumericValueOutOfRange'' [])), s)
       else (Inr [(''bound'', PBool True), (''rule_id'', PInt rid), (''target_id'', PInt tid)],
             audited i ''bind_target'' [(''rule_id'', PInt rid), (''target_id'', PInt tid)] True
               (on_mdb (set_binding rid tid ord stop) s)))"

definition unbind_target :: "mcp_env \<Rightarrow> ident \<Rightarrow> id \<Rightarrow> id \<Rightarrow> mstate \<Rightarrow> reply \<times> mstate" where
  "unbind_target M i rid tid = with_rule M i rid id (\<lambda>r s.
     (Inr [(''unbound'', PBool True), (''rule_id'', PInt rid), (''target_id'', PInt tid)],
      audited i ''unbind_target'' [(''rule_id'', PInt rid), (''target_id'', PInt tid)] True
        (on_mdb (\<lambda>d. d\<lparr>rule_targets := delete_where (\<lambda>b. b_rule_id b = rid \<and> b_target_id b = tid) (rule_targets d)\<rparr>) s)))"

text \<open>\<open>list_alerts\<close>: the rows in order, each with the targets bound to it.\<close>

definition list_alerts :: "ident \<Rightarrow> bool \<Rightarrow> bool \<Rightarrow> mstate \<Rightarrow> (rule_row \<times> id list) list" where
  "list_alerts i include_disabled mine_only s =
     (let d = ms_db s;
          rows = filter (\<lambda>r. (include_disabled \<or> r_enabled r)
              \<and> (mine_only \<longrightarrow> r_created_by r = Some (id_oid i) \<and> r_created_by_bot r = Some (id_appid i))) (alert_rules d)
      in map (\<lambda>r. (r, map b_target_id (filter (\<lambda>b. b_rule_id b = r_id r) (rule_targets d))))
           (sort_key r_rule_order (sort_key r_id rows)))"

end
