(* ===== verification/Mcp_Serve.thy ===== *)
theory Mcp_Serve
  imports Mcp
begin

text \<open>
  \<open>ringdown/mcp_server.py\<close>, third part: the global filters, the sources, the read-only queries, and
  \<open>serve\<close>, which puts the token and the role before every tool that changes something. A window's
  bounds are instants; the parser of their texts is a parameter. The rows a query answers with are
  the model's rows.
\<close>

section \<open>Ingress filters\<close>

record filter_args =
  fa_name :: string
  fa_match_type :: string
  fa_pattern :: string
  fa_source_glob :: string
  fa_program_glob :: string
  fa_case :: bool
  fa_order :: int
  fa_enabled :: bool

definition raw_of_args :: "filter_args \<Rightarrow> raw_spec" where
  "raw_of_args a = \<lparr>raw_name = PStr (fa_name a), raw_match_type = PStr (fa_match_type a), raw_pattern = PStr (fa_pattern a),
     raw_source_glob = PStr (fa_source_glob a), raw_program_glob = PStr (fa_program_glob a), raw_case = PBool (fa_case a),
     raw_order = PInt (fa_order a)\<rparr>"

definition filter_row_of :: "id \<Rightarrow> filter_spec \<Rightarrow> bool \<Rightarrow> filter_row" where
  "filter_row_of n spec on = \<lparr>fr_id = n, fr_name = fs_name spec, fr_match_type = fs_match_type spec, fr_pattern = fs_pattern spec,
     fr_source_glob = nonempty (fs_source_glob spec), fr_program_glob = nonempty (fs_program_glob spec), fr_case = fs_case spec,
     fr_order = fs_order spec, fr_enabled = on\<rparr>"

text \<open>The unique index on the name.\<close>

definition name_taken :: "string \<Rightarrow> id option \<Rightarrow> filter_row list \<Rightarrow> bool" where
  "name_taken name self rows = list_ex (\<lambda>f. fr_name f = name \<and> Some (fr_id f) \<noteq> self) rows"

definition register_ingress_filter :: "mcp_env \<Rightarrow> ident \<Rightarrow> filter_args \<Rightarrow> mstate \<Rightarrow> reply \<times> mstate" where
  "register_ingress_filter M i a s =
     (case validate_filter_spec (me_engine M) (raw_of_args a) of
        Inl e \<Rightarrow> (Inl (Rejected (exn_msg e)), s)
      | Inr spec \<Rightarrow>
        let n = ms_next_filter s in
        if name_taken (fs_name spec) None (ms_filters s) then (Inl (Failed (Exn ''UniqueViolation'' [])), s)
        else (Inr [(''registered'', PBool True), (''id'', PInt n), (''name'', PStr (fs_name spec)), (''enabled'', PBool (fa_enabled a))],
              audited i ''register_ingress_filter'' [(''id'', PInt n), (''name'', PStr (fs_name spec)), (''match_type'', PStr (fs_match_type spec))] True
                (s\<lparr>ms_filters := ms_filters s @ [filter_row_of n spec (fa_enabled a)], ms_next_filter := n + 1\<rparr>)))"

definition get_filter :: "id \<Rightarrow> mstate \<Rightarrow> filter_row option" where
  "get_filter n s = find_row (\<lambda>f. fr_id f = n) (ms_filters s)"

record filter_edit =
  fe_name :: string
  fe_match_type :: string
  fe_pattern :: string
  fe_source_glob :: string
  fe_program_glob :: string
  fe_clear_source :: bool
  fe_clear_program :: bool
  fe_case_set :: string
  fe_order :: int
  fe_enabled_set :: string

definition edited_args :: "filter_edit \<Rightarrow> filter_row \<Rightarrow> filter_args" where
  "edited_args u f =
     \<lparr>fa_name = (if fe_name u = [] then fr_name f else fe_name u),
      fa_match_type = (if fe_match_type u = [] then fr_match_type f else fe_match_type u),
      fa_pattern = (if fe_pattern u = [] then fr_pattern f else fe_pattern u),
      fa_source_glob = (if fe_clear_source u then [] else if fe_source_glob u \<noteq> [] then fe_source_glob u else or_else (fr_source_glob f) []),
      fa_program_glob = (if fe_clear_program u then [] else if fe_program_glob u \<noteq> [] then fe_program_glob u else or_else (fr_program_glob f) []),
      fa_case = (case flag_set (fe_case_set u) of None \<Rightarrow> fr_case f | Some b \<Rightarrow> b),
      fa_order = (if fe_order u \<ge> 0 then fe_order u else fr_order f),
      fa_enabled = (case flag_set (fe_enabled_set u) of None \<Rightarrow> fr_enabled f | Some b \<Rightarrow> b)\<rparr>"

definition edited_fields :: "filter_edit \<Rightarrow> string list" where
  "edited_fields u =
     (if flag_set (fe_case_set u) \<noteq> None then [''case_sensitive''] else [])
     @ (if flag_set (fe_enabled_set u) \<noteq> None then [''enabled''] else [])
     @ (if fe_order u \<ge> 0 then [''filter_order''] else [])
     @ (if fe_match_type u \<noteq> [] then [''match_type''] else [])
     @ (if fe_name u \<noteq> [] then [''name''] else [])
     @ (if fe_pattern u \<noteq> [] then [''pattern''] else [])
     @ (if fe_program_glob u \<noteq> [] \<or> fe_clear_program u then [''program_glob''] else [])
     @ (if fe_source_glob u \<noteq> [] \<or> fe_clear_source u then [''source_glob''] else [])"

definition update_ingress_filter :: "mcp_env \<Rightarrow> ident \<Rightarrow> id \<Rightarrow> filter_edit \<Rightarrow> mstate \<Rightarrow> reply \<times> mstate" where
  "update_ingress_filter M i n u s =
     (case get_filter n s of
        None \<Rightarrow> (Inl (No_Such ''ingress filter'' n), s)
      | Some f \<Rightarrow>
        if flag_set (fe_case_set u) = None \<and> fe_case_set u \<noteq> [] then (Inl (Bad ''case_sensitive_set''), s)
        else if flag_set (fe_enabled_set u) = None \<and> fe_enabled_set u \<noteq> [] then (Inl (Bad ''enabled_set''), s)
        else if edited_fields u = [] then (Inl Nothing_To_Update, s)
        else case validate_filter_spec (me_engine M) (raw_of_args (edited_args u f)) of
          Inl e \<Rightarrow> (Inl (Rejected (exn_msg e)), s)
        | Inr spec \<Rightarrow>
          let on = fa_enabled (edited_args u f) in
          if name_taken (fs_name spec) (Some n) (ms_filters s) then (Inl (Failed (Exn ''UniqueViolation'' [])), s)
          else (Inr [(''updated'', PBool True), (''id'', PInt n), (''name'', PStr (fs_name spec)), (''enabled'', PBool on)],
                audited i ''update_ingress_filter'' [(''filter_id'', PInt n), (''fields'', PList (map PStr (edited_fields u)))] True
                  (s\<lparr>ms_filters := update_where (\<lambda>x. fr_id x = n) (\<lambda>_. filter_row_of n spec on) (ms_filters s)\<rparr>)))"

definition delete_ingress_filter :: "mcp_env \<Rightarrow> ident \<Rightarrow> id \<Rightarrow> mstate \<Rightarrow> reply \<times> mstate" where
  "delete_ingress_filter M i n s =
     (case get_filter n s of
        None \<Rightarrow> (Inl (No_Such ''ingress filter'' n), s)
      | Some f \<Rightarrow>
        (Inr [(''deleted'', PBool True), (''id'', PInt n), (''name'', PStr (fr_name f))],
         audited i ''delete_ingress_filter'' [(''filter_id'', PInt n), (''name'', PStr (fr_name f))] True
           (s\<lparr>ms_filters := delete_where (\<lambda>x. fr_id x = n) (ms_filters s)\<rparr>)))"

definition spec_of_row :: "filter_row \<Rightarrow> filter_spec" where
  "spec_of_row f = \<lparr>fs_name = fr_name f, fs_match_type = fr_match_type f, fs_pattern = fr_pattern f,
     fs_source_glob = or_else (fr_source_glob f) [], fs_program_glob = or_else (fr_program_glob f) [],
     fs_case = fr_case f, fs_order = fr_order f\<rparr>"

definition event_row_of :: "spine_row \<Rightarrow> event_row" where
  "event_row_of e = \<lparr>er_id = sp_id e, er_ts = sp_ts e, er_source = sp_source e, er_program = sp_program e, er_body = sp_body e\<rparr>"

definition purge_ingress_filter :: "mcp_env \<Rightarrow> ident \<Rightarrow> id \<Rightarrow> string \<Rightarrow> int \<Rightarrow> mstate \<Rightarrow> reply \<times> mstate" where
  "purge_ingress_filter M i n confirm batch s =
     (case get_filter n s of
        None \<Rightarrow> (Inl (No_Such ''ingress filter'' n), s)
      | Some f \<Rightarrow>
        if confirm \<noteq> fr_name f then (Inl (Bad ''confirm_name''), s)
        else case purge_filter (me_engine M) (me_pick M) (map event_row_of (ms_events s)) (spec_of_row f) batch of
          Inl e \<Rightarrow> (Inl (Failed e),
            audited i ''purge_ingress_filter'' [(''filter_id'', PInt n), (''name'', PStr (fr_name f)), (''error'', PStr (exn_type e))] False s)
        | Inr (deleted, taken, full, remaining) \<Rightarrow>
          let kept = (\<lambda>e. (er_id e, er_ts e)) ` set remaining
          in (Inr [(''filter_id'', PInt n), (''name'', PStr (fr_name f)), (''deleted'', PInt (int deleted)),
                   (''batch_size'', PInt taken), (''batch_limit_reached'', PBool full)],
              audited i ''purge_ingress_filter'' [(''filter_id'', PInt n), (''name'', PStr (fr_name f)),
                  (''deleted'', PInt (int deleted)), (''batch_size'', PInt taken)] True
                (s\<lparr>ms_events := filter (\<lambda>e. (sp_id e, sp_ts e) \<in> kept) (ms_events s)\<rparr>)))"

text \<open>\<open>test_ingress_filter\<close>: a preview changes nothing.\<close>

definition test_ingress_filter :: "mcp_env \<Rightarrow> filter_args \<Rightarrow> int \<Rightarrow> mstate \<Rightarrow> tool_error + filter_spec \<times> nat \<times> event_row list \<times> int" where
  "test_ingress_filter M a limit s =
     (case bind_sum (validate_filter_spec (me_engine M) (raw_of_args (a\<lparr>fa_order := 100\<rparr>))) (\<lambda>spec.
           bind_sum (preview_filter (me_engine M) (map event_row_of (ms_events s)) spec limit) (\<lambda>r. Inr (spec, r))) of
        Inl e \<Rightarrow> Inl (Rejected (exn_msg e)) | Inr r \<Rightarrow> Inr r)"

section \<open>Sources\<close>

definition set_source_active :: "ident \<Rightarrow> string \<Rightarrow> bool \<Rightarrow> mstate \<Rightarrow> reply \<times> mstate" where
  "set_source_active i source active s =
     (case find_row (\<lambda>r. so_source r = source) (ms_sources s) of
        None \<Rightarrow> (Inl (No_Source source), s)
      | Some r \<Rightarrow>
        (Inr [(''updated'', PBool True), (''source'', PStr source), (''active'', PBool active), (''events'', PInt (so_events r))],
         audited i ''set_source_active'' [(''source'', PStr source), (''active'', PBool active)] True
           (s\<lparr>ms_sources := update_where (\<lambda>x. so_source x = source) (\<lambda>x. x\<lparr>so_active := active\<rparr>) (ms_sources s)\<rparr>)))"

definition list_sources :: "string \<Rightarrow> bool \<Rightarrow> mstate \<Rightarrow> source_row list" where
  "list_sources glob include_hidden s =
     sort_key (\<lambda>r. if so_active r then (0 :: int) else 1) (sort_key (\<lambda>r. - so_last_seen r)
       (filter (\<lambda>r. (glob \<noteq> [] \<longrightarrow> glob_clause glob (so_source r)) \<and> (include_hidden \<or> so_active r)) (ms_sources s)))"

section \<open>Queries\<close>

text \<open>\<open>_window\<close>: an explicit start wins over a relative one.\<close>

definition window_bounds ::
    "(string \<Rightarrow> time option) \<Rightarrow> time \<Rightarrow> string \<Rightarrow> time \<Rightarrow> string \<Rightarrow> time option \<times> time option" where
  "window_bounds parse t since_iso since_for until_iso =
     (let since = (if since_iso = [] then None else parse since_iso)
      in (if since = None \<and> since_for > 0 then Some (t - since_for) else since,
          if until_iso = [] then None else parse until_iso))"

definition in_window :: "time option \<times> time option \<Rightarrow> time \<Rightarrow> bool" where
  "in_window w t = ((case fst w of None \<Rightarrow> True | Some a \<Rightarrow> a \<le> t) \<and> (case snd w of None \<Rightarrow> True | Some b \<Rightarrow> t \<le> b))"

definition severe :: "int \<Rightarrow> spine_row \<Rightarrow> bool" where
  "severe n e = (n \<le> 0 \<or> (case sp_severity e of None \<Rightarrow> False | Some v \<Rightarrow> n \<le> v))"

definition row_limit :: "int \<Rightarrow> int \<Rightarrow> int \<Rightarrow> nat" where
  "row_limit dflt hi n = nat (min (if n > 0 then n else dflt) hi)"

text \<open>A row as a caller sees it: its attributes projected.\<close>

definition shown :: "spine_row \<Rightarrow> spine_row" where
  "shown e = e\<lparr>sp_attributes := PDict (visible_attributes (sp_attributes e) 512)\<rparr>"

record search_args =
  qa_source :: string
  qa_contains :: string
  qa_regex :: string
  qa_program :: string
  qa_severity_min :: int

definition found :: "mcp_env \<Rightarrow> search_args \<Rightarrow> spine_row \<Rightarrow> bool" where
  "found M a e =
     ((qa_source a \<noteq> [] \<longrightarrow> glob_clause (qa_source a) (sp_source e))
      \<and> (qa_program a \<noteq> [] \<longrightarrow> (case sp_program e of None \<Rightarrow> False | Some p \<Rightarrow> glob_clause (qa_program a) p))
      \<and> (qa_contains a \<noteq> [] \<longrightarrow> me_fulltext M (qa_contains a) e)
      \<and> (qa_regex a \<noteq> [] \<longrightarrow> pg_regex (me_engine M) True (qa_regex a) (sp_body e))
      \<and> severe (qa_severity_min a) e)"

definition search_logs :: "mcp_env \<Rightarrow> search_args \<Rightarrow> time option \<times> time option \<Rightarrow> int \<Rightarrow> mstate \<Rightarrow> tool_error + spine_row list" where
  "search_logs M a w limit s =
     (if qa_regex a \<noteq> [] \<and> me_py_regex M (qa_regex a) \<noteq> None then Inl (Bad ''regex'')
      else Inr (map shown (take (row_limit (mc_default_limit (me_cfg M)) (mc_max_limit (me_cfg M)) limit)
             (sort_key (\<lambda>e. - sp_ts e) (filter (\<lambda>e. found M a e \<and> in_window w (sp_ts e)) (ms_events s))))))"

definition source_summary :: "spine_row list \<Rightarrow> (string \<times> nat \<times> int option) list" where
  "source_summary rows =
     sort_key (\<lambda>(_, n, _). - int n) (map (\<lambda>src. let es = filter (\<lambda>e. sp_source e = src) rows; vs = List.map_filter sp_severity es
         in (src, length es, if vs = [] then None else Some (fold max vs (hd vs)))) (remdups (map sp_source rows)))"

definition timeline ::
    "mcp_env \<Rightarrow> time option \<times> time option \<Rightarrow> string \<Rightarrow> int \<Rightarrow> int \<Rightarrow> mstate
     \<Rightarrow> tool_error + (string \<times> nat \<times> int option) list \<times> spine_row list" where
  "timeline M w sources severity_min limit s =
     (if w = (None, None) then Inl (Bad ''a time window is required'')
      else (let srcs = filter (\<lambda>x. x \<noteq> []) (map strip (split_on CHR '','' sources));
                rows = filter (\<lambda>e. in_window w (sp_ts e) \<and> (srcs = [] \<or> list_ex (\<lambda>g. glob_clause g (sp_source e)) srcs)
                         \<and> severe severity_min e) (ms_events s)
            in Inr (source_summary rows, map shown (take (row_limit 500 (mc_max_limit (me_cfg M)) limit) (sort_key sp_ts rows)))))"

text \<open>\<open>test_alert\<close>: the count and the newest of the lines a rule would have seen.\<close>

definition test_alert ::
    "mcp_env \<Rightarrow> string \<Rightarrow> string \<Rightarrow> string \<Rightarrow> int \<Rightarrow> time \<Rightarrow> int \<Rightarrow> mstate \<Rightarrow> tool_error + nat \<times> spine_row list" where
  "test_alert M kind pattern source_glob min_severity since_for limit s =
     (if kind \<notin> {''regex'', ''semantic''} then Inl (Bad ''kind'')
      else case check_pattern M kind pattern of
        Some err \<Rightarrow> Inl err
      | None \<Rightarrow>
        let rows = filter (\<lambda>e. me_now M - since_for \<le> sp_ts e \<and> (source_glob \<noteq> [] \<longrightarrow> glob_clause source_glob (sp_source e))
                     \<and> severe min_severity e \<and> (kind = ''regex'' \<longrightarrow> pg_regex (me_engine M) True pattern (sp_body e))) (ms_events s)
        in Inr (length rows, take (row_limit 20 200 limit) (sort_key (\<lambda>e. - sp_ts e) rows)))"

definition get_alert_history :: "mcp_env \<Rightarrow> id \<Rightarrow> time \<Rightarrow> int \<Rightarrow> mstate \<Rightarrow> (alert_event_row \<times> string option) list" where
  "get_alert_history M rid since_for limit s =
     (let rows = filter (\<lambda>e. me_now M - since_for \<le> ae_fired_at e \<and> (rid > 0 \<longrightarrow> ae_rule_id e = Some rid)) (alert_events (ms_db s))
      in map (\<lambda>e. (e, map_option r_name (Option.bind (ae_rule_id e) (find_rule (ms_db s)))))
           (take (row_limit 100 (mc_max_limit (me_cfg M)) limit) (sort_key (\<lambda>e. - ae_fired_at e) rows)))"

text \<open>\<open>queue_status\<close> of \<open>agent_queue.py\<close>: the counts and the unclosed workstreams, oldest first.\<close>

definition queue_counts :: "db \<Rightarrow> nat \<times> nat \<times> nat" where
  "queue_counts d = (length (filter (\<lambda>w. w_status w \<noteq> Closed) (agent_workstreams d)), length (agent_pending d),
     length (remdups (map p_key (agent_pending d))))"

definition pending_groups :: "db \<Rightarrow> (gkey \<times> nat \<times> time \<times> time \<times> string) list" where
  "pending_groups d =
     take 100 (map (\<lambda>k. let rows = filter (\<lambda>p. p_key p = k) (sort_key p_id (agent_pending d))
         in (k, length rows, fold min (map p_created_at rows) (p_created_at (hd rows)),
             fold min (map p_available_at rows) (p_available_at (hd rows)), p_last_detail (hd rows)))
       (first_seen (map p_key (sort_key p_id (agent_pending d)))))"

record queue_report =
  qr_counts :: "nat \<times> nat \<times> nat"
  qr_max_active :: int
  qr_workstreams :: "ws_row list"
  qr_pending :: "(gkey \<times> nat \<times> time \<times> time \<times> string) list"
  qr_queued_messages :: pyval

definition queue_status :: "int \<Rightarrow> db \<Rightarrow> queue_report" where
  "queue_status cap d =
     \<lparr>qr_counts = queue_counts d, qr_max_active = cap,
      qr_workstreams = take 100 (sort_key w_opened_at (filter (\<lambda>w. w_status w \<noteq> Closed) (agent_workstreams d))),
      qr_pending = pending_groups d, qr_queued_messages = PNone\<rparr>"

section \<open>The front door\<close>

datatype request =
    Register_Target target_args
  | Update_Target id target_args
  | Delete_Target id
  | Register_Alert alert_args
  | Update_Alert id alert_edit
  | Delete_Alert id
  | Disable_Alert id bool
  | Bind_Target id id int bool
  | Unbind_Target id id
  | Register_Filter filter_args
  | Update_Filter id filter_edit
  | Delete_Filter id
  | Purge_Filter id string int
  | Set_Source_Active string bool

fun run_tool :: "mcp_env \<Rightarrow> ident \<Rightarrow> request \<Rightarrow> mstate \<Rightarrow> reply \<times> mstate" where
  "run_tool M i (Register_Target a) s = register_target M i a s"
| "run_tool M i (Update_Target n a) s = update_target M i n a s"
| "run_tool M i (Delete_Target n) s = remove_target M i n s"
| "run_tool M i (Register_Alert a) s = register_alert M i a s"
| "run_tool M i (Update_Alert n u) s = update_alert M i n u s"
| "run_tool M i (Delete_Alert n) s = delete_alert M i n s"
| "run_tool M i (Disable_Alert n on) s = disable_alert M i n on s"
| "run_tool M i (Bind_Target n t ord stop) s = bind_target M i n t ord stop s"
| "run_tool M i (Unbind_Target n t) s = unbind_target M i n t s"
| "run_tool M i (Register_Filter a) s = register_ingress_filter M i a s"
| "run_tool M i (Update_Filter n u) s = update_ingress_filter M i n u s"
| "run_tool M i (Delete_Filter n) s = delete_ingress_filter M i n s"
| "run_tool M i (Purge_Filter n confirm batch) s = purge_ingress_filter M i n confirm batch s"
| "run_tool M i (Set_Source_Active src on) s = set_source_active i src on s"

fun global_tool :: "request \<Rightarrow> bool" where
  "global_tool (Register_Filter a) = True"
| "global_tool (Update_Filter n u) = True"
| "global_tool (Delete_Filter n) = True"
| "global_tool (Purge_Filter n confirm batch) = True"
| "global_tool req = False"

definition needs_role_text :: string where
  "needs_role_text = ''not authorized: this operation requires curate rules/targets (the Ringdown.Write role). ''
     @ ''Ask an admin to assign it on the Ringdown app in Entra.''"

fun refusal_noted :: "ident \<Rightarrow> request \<Rightarrow> mstate \<Rightarrow> mstate" where
  "refusal_noted i (Register_Target a) = audited i ''register_target'' [(''name'', PStr (ta_name a)), (''denied'', PStr needs_role_text)] False"
| "refusal_noted i (Register_Alert a) = audited i ''register_alert'' [(''name'', PStr (aa_name a)), (''denied'', PStr needs_role_text)] False"
| "refusal_noted i req = id"

definition caller :: "mcp_env \<Rightarrow> string \<Rightarrow> ident option" where
  "caller M header = identity (me_cfg M) (me_decode M) (bearer_of header)"

definition permitted :: "mcp_env \<Rightarrow> ident \<Rightarrow> request \<Rightarrow> bool" where
  "permitted M i req = (if global_tool req then is_admin (me_cfg M) i else authz (me_cfg M) i True)"

definition serve :: "mcp_env \<Rightarrow> string \<Rightarrow> request \<Rightarrow> mstate \<Rightarrow> reply \<times> mstate" where
  "serve M header req s =
     (case caller M header of
        None \<Rightarrow> (Inl Unauthenticated, s)
      | Some i \<Rightarrow>
        if permitted M i req then run_tool M i req s
        else (Inl (if global_tool req then Admins_Only else Needs_Role True), refusal_noted i req s))"

text \<open>The read-only tools.\<close>

definition reading :: "mcp_env \<Rightarrow> string \<Rightarrow> (ident \<Rightarrow> mstate \<Rightarrow> tool_error + 'a) \<Rightarrow> mstate \<Rightarrow> tool_error + 'a" where
  "reading M header f s =
     (case caller M header of
        None \<Rightarrow> Inl Unauthenticated
      | Some i \<Rightarrow> if authz (me_cfg M) i False then f i s else Inl (Needs_Role False))"

text \<open>\<open>dispatch_status\<close>.\<close>

definition dispatch_status :: "mcp_env \<Rightarrow> int \<Rightarrow> string \<Rightarrow> mstate \<Rightarrow> tool_error + queue_report" where
  "dispatch_status M cap header = reading M header (\<lambda>i s. Inr (queue_status cap (ms_db s)))"

end
