(* ===== verification/Mcp_Spec.thy ===== *)
theory Mcp_Spec
  imports Mcp_Serve
begin

text \<open>
  The contract of the control plane, and that the tools keep it. An \<open>edit\<close> is one change a caller
  is allowed: of rows the caller owns (or, for an operator, of any), with content that passed the
  checks. Every request is one such edit or changes nothing but the audit.
\<close>

section \<open>What a row must satisfy\<close>

definition rule_ok :: "mcp_env \<Rightarrow> rule_row \<Rightarrow> bool" where
  "rule_ok M r =
     (r_kind r \<in> {''regex'', ''semantic''} \<and> r_group_by r \<in> {''host'', ''rule''} \<and> r_name r \<noteq> [] \<and> r_pattern r \<noteq> []
      \<and> check_pattern M (r_kind r) (r_pattern r) = None \<and> glob_check (or_else (r_source_glob r) []) = None \<and> rule_fits r)"

definition target_ok :: "mcp_env \<Rightarrow> target_row \<Rightarrow> bool" where
  "target_ok M t =
     (t_type t \<in> set known_target_types \<and> t_identity_policy t \<in> set identity_policies
      \<and> check_config M (t_type t) (t_config t) = None)"

definition filter_ok :: "mcp_env \<Rightarrow> filter_row \<Rightarrow> bool" where
  "filter_ok M f = spec_ok (me_engine M) (spec_of_row f)"

section \<open>Edits\<close>

text \<open>A change of a row keeps its id and its owner.\<close>

definition keeps_rule_owner :: "(rule_row \<Rightarrow> rule_row) \<Rightarrow> bool" where
  "keeps_rule_owner f = (\<forall>r. r_id (f r) = r_id r \<and> r_created_by (f r) = r_created_by r \<and> r_created_by_bot (f r) = r_created_by_bot r)"

definition keeps_target_owner :: "(target_row \<Rightarrow> target_row) \<Rightarrow> bool" where
  "keeps_target_owner f = (\<forall>t. t_id (f t) = t_id t \<and> t_owner_oid (f t) = t_owner_oid t \<and> t_owner_bot (f t) = t_owner_bot t)"

inductive edit :: "mcp_env \<Rightarrow> ident \<Rightarrow> mstate \<Rightarrow> mstate \<Rightarrow> bool" for M :: mcp_env and i :: ident where
  nothing: "edit M i s s"
| noted: "edit M i s s' \<Longrightarrow> edit M i s (on_mdb (add_audit a x y z) s')"
| add_target: "t_owner_oid t = Some (id_oid i) \<Longrightarrow> t_owner_bot t = Some (id_appid i) \<Longrightarrow> t_id t = next_target (ms_db s) \<Longrightarrow> target_ok M t
    \<Longrightarrow> edit M i s (on_mdb (\<lambda>d. d\<lparr>targets := targets d @ [t], next_target := next_target d + 1\<rparr>) s)"
| change_target: "find_target (ms_db s) n = Some t \<Longrightarrow> may_edit_target M i t \<Longrightarrow> keeps_target_owner f \<Longrightarrow> (target_ok M t \<Longrightarrow> target_ok M (f t))
    \<Longrightarrow> edit M i s (on_mdb (\<lambda>d. d\<lparr>targets := update_where (\<lambda>t. t_id t = n) f (targets d)\<rparr>) s)"
| drop_target: "find_target (ms_db s) n = Some t \<Longrightarrow> may_edit_target M i t \<Longrightarrow> edit M i s (on_mdb (delete_target n) s)"
| add_rule: "r_created_by r = Some (id_oid i) \<Longrightarrow> r_created_by_bot r = Some (id_appid i) \<Longrightarrow> r_id r = next_rule (ms_db s) \<Longrightarrow> rule_ok M r
    \<Longrightarrow> check_targets M i ns (ms_db s) = None
    \<Longrightarrow> edit M i s (on_mdb (\<lambda>d. fold (add_binding (r_id r)) ns (d\<lparr>alert_rules := alert_rules d @ [r], next_rule := next_rule d + 1\<rparr>)) s)"
| change_rule: "find_rule (ms_db s) n = Some r \<Longrightarrow> may_edit_rule M i r \<Longrightarrow> keeps_rule_owner f \<Longrightarrow> (rule_ok M r \<Longrightarrow> rule_ok M (f r))
    \<Longrightarrow> edit M i s (on_mdb (\<lambda>d. d\<lparr>alert_rules := update_where (\<lambda>r. r_id r = n) f (alert_rules d)\<rparr>) s)"
| drop_rule: "find_rule (ms_db s) n = Some r \<Longrightarrow> may_edit_rule M i r \<Longrightarrow> edit M i s (on_mdb (delete_rule n) s)"
| bind: "find_rule (ms_db s) n = Some r \<Longrightarrow> may_edit_rule M i r \<Longrightarrow> find_target (ms_db s) m = Some t \<Longrightarrow> may_edit_target M i t
    \<Longrightarrow> edit M i s (on_mdb (set_binding n m ord stop) s)"
| unbind: "find_rule (ms_db s) n = Some r \<Longrightarrow> may_edit_rule M i r
    \<Longrightarrow> edit M i s (on_mdb (\<lambda>d. d\<lparr>rule_targets := delete_where (\<lambda>b. b_rule_id b = n \<and> b_target_id b = m) (rule_targets d)\<rparr>) s)"
| filters: "is_admin (me_cfg M) i \<Longrightarrow> (\<forall>f \<in> set fs. f \<in> set (ms_filters s) \<or> filter_ok M f)
    \<Longrightarrow> edit M i s (s\<lparr>ms_filters := fs, ms_next_filter := k\<rparr>)"
| purge: "is_admin (me_cfg M) i \<Longrightarrow> edit M i s (s\<lparr>ms_events := filter p (ms_events s)\<rparr>)"
| source: "edit M i s (s\<lparr>ms_sources := update_where p f (ms_sources s)\<rparr>)"

lemma edit_audited [intro]: "edit M i s s' \<Longrightarrow> edit M i s (audited i a x ok s')"
  unfolding audited_def by (rule edit.noted)

lemma edit_audited_refl [intro]: "edit M i s (audited i a x ok s)"
  by (intro edit_audited edit.nothing)

section \<open>Every tool is an edit\<close>

lemma with_ms_db: "s\<lparr>ms_db := f (ms_db s)\<rparr> = on_mdb f s"
  by (simp add: on_mdb_def)

lemma deny_config_edit: "edit M i s (snd (deny_config i a about err s))"
  by (auto simp: deny_config_def intro: edit.nothing split: tool_error.split)

text \<open>A tool is an edit when every branch of it is.\<close>

lemma edit_if:
  "(c \<Longrightarrow> edit M i s (snd a)) \<Longrightarrow> (\<not> c \<Longrightarrow> edit M i s (snd b)) \<Longrightarrow> edit M i s (snd (if c then a else b))"
  by simp

lemma edit_option:
  "(x = None \<Longrightarrow> edit M i s (snd a)) \<Longrightarrow> (\<And>y. x = Some y \<Longrightarrow> edit M i s (snd (f y)))
   \<Longrightarrow> edit M i s (snd (case x of None \<Rightarrow> a | Some y \<Rightarrow> f y))"
  by (simp split: option.split)

lemma edit_sum:
  "(\<And>e. x = Inl e \<Longrightarrow> edit M i s (snd (g e))) \<Longrightarrow> (\<And>y. x = Inr y \<Longrightarrow> edit M i s (snd (f y)))
   \<Longrightarrow> edit M i s (snd (case x of Inl e \<Rightarrow> g e | Inr y \<Rightarrow> f y))"
  by (simp split: sum.split)

lemma edit_refused: "edit M i s (snd (e, s))"
  by (simp add: edit.nothing)

lemma edit_refused_noted: "edit M i s (snd (e, audited i a x ok s))"
  by (simp add: edit_audited_refl)

lemma edit_done: "edit M i s s' \<Longrightarrow> edit M i s (snd (r, audited i a x ok s'))"
  by (simp add: edit_audited)

lemmas edit_branches = edit_if edit_option edit_sum edit_refused edit_refused_noted deny_config_edit edit_done

lemma register_target_edit: "edit M i s (snd (register_target M i a s))"
  unfolding register_target_def Let_def
proof (intro edit_branches)
  fix cfg d
  assume a: "\<not> ta_type a \<notin> set known_target_types" "\<not> ta_identity_policy a \<notin> set identity_policies"
    "check_config M (ta_type a) cfg = None" "insert_target i a cfg (ms_db s) = Inr d"
  let ?t = "new_target i a cfg (next_target (ms_db s))"
  have "s\<lparr>ms_db := d\<rparr> = on_mdb (\<lambda>d. d\<lparr>targets := targets d @ [?t], next_target := next_target d + 1\<rparr>) s"
    using a(4) by (auto simp: insert_target_def on_mdb_def split: if_splits)
  moreover have "edit M i s \<dots>"
    by (rule edit.add_target) (use a in \<open>simp_all add: new_target_def target_ok_def\<close>)
  ultimately show "edit M i s (s\<lparr>ms_db := d\<rparr>)" by simp
qed

lemma set_target_owner: "keeps_target_owner (set_target a cfg)"
  by (simp add: keeps_target_owner_def set_target_def)

lemma set_target_ok:
  assumes "target_ok M t" "ta_identity_policy a = [] \<or> ta_identity_policy a \<in> set identity_policies"
    "case cfg of None \<Rightarrow> True | Some c \<Rightarrow> check_config M (t_type t) c = None"
  shows "target_ok M (set_target a cfg t)"
  using assms by (auto simp: target_ok_def set_target_def split: option.splits)

lemma update_target_edit: "edit M i s (snd (update_target M i n a s))"
  unfolding update_target_def
proof (intro edit_branches)
  fix t cfg d
  assume t: "find_target (ms_db s) n = Some t" "\<not> \<not> may_edit_target M i t"
    and ok: "(case cfg of None \<Rightarrow> None | Some c \<Rightarrow> check_config M (t_type t) c) = None"
      "\<not> (ta_identity_policy a \<noteq> [] \<and> ta_identity_policy a \<notin> set identity_policies)"
    and d: "store_target n a cfg (ms_db s) = Inr d"
  have own: "may_edit_target M i t" using t(2) by simp
  have up: "s\<lparr>ms_db := d\<rparr> = on_mdb (\<lambda>d. d\<lparr>targets := update_where (\<lambda>t. t_id t = n) (set_target a cfg) (targets d)\<rparr>) s"
    using d by (auto simp: store_target_def on_mdb_def split: if_splits)
  show "edit M i s (s\<lparr>ms_db := d\<rparr>)" unfolding up
    by (rule edit.change_target[OF t(1) own set_target_owner]) (rule set_target_ok, use ok in \<open>auto split: option.splits\<close>)
qed

lemma remove_target_edit: "edit M i s (snd (remove_target M i n s))"
  by (auto simp: remove_target_def intro: edit.nothing edit.drop_target split: option.split)

lemma with_rule_edit:
  assumes "\<And>r. find_rule (ms_db s) n = Some r \<Longrightarrow> may_edit_rule M i r \<Longrightarrow> edit M i s (snd (f r s))" "edit M i s (refused s)"
  shows "edit M i s (snd (with_rule M i n refused f s))"
  using assms by (auto simp: with_rule_def intro: edit.nothing split: option.split)

lemma delete_alert_edit: "edit M i s (snd (delete_alert M i n s))"
  unfolding delete_alert_def by (rule with_rule_edit) (auto intro: edit.drop_rule edit.nothing)

lemma disable_alert_edit: "edit M i s (snd (disable_alert M i n on s))"
  unfolding disable_alert_def
  by (rule with_rule_edit)
    (auto intro!: edit_audited edit.change_rule simp: edit.nothing keeps_rule_owner_def rule_ok_def rule_fits_def)

lemma unbind_target_edit: "edit M i s (snd (unbind_target M i n m s))"
  unfolding unbind_target_def by (rule with_rule_edit) (auto intro: edit.unbind edit.nothing)

lemma bind_target_edit: "edit M i s (snd (bind_target M i n m ord stop s))"
  unfolding bind_target_def by (rule with_rule_edit) (auto intro: edit.bind edit.nothing split: option.split)

lemma set_rule_owner: "keeps_rule_owner (set_rule u)"
  by (simp add: keeps_rule_owner_def set_rule_def)

lemma set_rule_ok:
  assumes "rule_ok M r" "check_edit M u r = None" "rule_fits (set_rule u r)"
  shows "rule_ok M (set_rule u r)"
proof -
  have "au_group_by u \<in> {[], ''host'', ''rule''}" "au_pattern u \<noteq> [] \<Longrightarrow> check_pattern M (r_kind r) (au_pattern u) = None"
    "au_source_glob u \<noteq> [] \<Longrightarrow> glob_check (au_source_glob u) = None"
    using assms(2) by (auto simp: check_edit_def split: if_splits option.splits)
  moreover have "r_kind (set_rule u r) = r_kind r" "r_name (set_rule u r) = r_name r"
    "r_group_by (set_rule u r) = (if au_group_by u = [] then r_group_by r else au_group_by u)"
    "r_pattern (set_rule u r) = (if au_pattern u = [] then r_pattern r else au_pattern u)"
    "or_else (r_source_glob (set_rule u r)) [] = (if au_source_glob u = [] then or_else (r_source_glob r) [] else au_source_glob u)"
    by (simp_all add: set_rule_def)
  ultimately show ?thesis using assms(1,3) unfolding rule_ok_def by (simp split: if_split) blast
qed

lemma update_alert_edit: "edit M i s (snd (update_alert M i n u s))"
  unfolding update_alert_def
proof (rule with_rule_edit)
  fix r assume r: "find_rule (ms_db s) n = Some r" "may_edit_rule M i r"
  show "edit M i s (snd (case check_edit M u r of Some err \<Rightarrow> (Inl err, s)
       | None \<Rightarrow> if rule_fields u = 0 then (Inl Nothing_To_Update, s)
         else if \<not> rule_fits (set_rule u r) then (Inl (Failed (Exn ''NumericValueOutOfRange'' [])), s)
         else (Inr [(''updated'', PBool True), (''id'', PInt n), (''name'', PStr (r_name r))],
               audited i ''update_alert'' [(''rule_id'', PInt n), (''fields'', PInt (int (rule_fields u)))] True
                 (on_mdb (\<lambda>d. d\<lparr>alert_rules := update_where (\<lambda>x. r_id x = n) (set_rule u) (alert_rules d)\<rparr>) s))))"
  proof (cases "check_edit M u r = None \<and> rule_fits (set_rule u r)")
    case True
    then show ?thesis
      by (auto intro!: edit_audited edit.change_rule[OF r set_rule_owner] set_rule_ok simp: edit.nothing)
  next
    case False then show ?thesis by (auto simp: edit.nothing split: option.split)
  qed
qed (rule edit_audited_refl)

lemma register_alert_edit: "edit M i s (snd (register_alert M i a s))"
  unfolding register_alert_def Let_def
proof (intro edit_branches)
  fix ns d
  let ?r = "new_rule i a (next_rule (ms_db s))"
  assume kind: "\<not> aa_kind a \<notin> {''regex'', ''semantic''}" "\<not> aa_group_by a \<notin> {''host'', ''rule''}"
      "\<not> (aa_name a = [] \<or> aa_pattern a = [])" "check_pattern M (aa_kind a) (aa_pattern a) = None"
      "glob_check (aa_source_glob a) = None"
    and ns: "check_targets M i ns (ms_db s) = None"
    and d: "insert_rule ?r (ms_db s) = Inr d"
  have r: "r_id ?r = next_rule (ms_db s)" "r_created_by ?r = Some (id_oid i)" "r_created_by_bot ?r = Some (id_appid i)"
    "or_else (r_source_glob ?r) [] = aa_source_glob a" by (simp_all add: new_rule_def nonempty_def)
  have fits: "rule_fits ?r" "d = (ms_db s)\<lparr>alert_rules := alert_rules (ms_db s) @ [?r], next_rule := next_rule (ms_db s) + 1\<rparr>"
    using d by (auto simp: insert_rule_def split: if_splits)
  have ok: "rule_ok M ?r" using kind fits(1) unfolding rule_ok_def r(4) by (simp add: new_rule_def)
  have "edit M i s (on_mdb (\<lambda>d. fold (add_binding (r_id ?r)) ns (d\<lparr>alert_rules := alert_rules d @ [?r], next_rule := next_rule d + 1\<rparr>)) s)"
    by (rule edit.add_rule[OF r(2,3,1) ok ns])
  then show "edit M i s (s\<lparr>ms_db := fold (add_binding (next_rule (ms_db s))) ns d\<rparr>)"
    unfolding r(1) on_mdb_def fits(2) .
qed

lemma filter_row_of_ok:
  assumes "validate_filter_spec (me_engine M) raw = Inr spec"
  shows "filter_ok M (filter_row_of n spec on)"
proof -
  have "spec_of_row (filter_row_of n spec on) = spec"
    by (simp add: spec_of_row_def filter_row_of_def nonempty_def)
  then show ?thesis using validate_Inr[OF assms] by (simp add: filter_ok_def)
qed

lemma register_filter_edit: "is_admin (me_cfg M) i \<Longrightarrow> edit M i s (snd (register_ingress_filter M i a s))"
  unfolding register_ingress_filter_def Let_def
  by (intro edit_branches edit.filters) (auto dest: filter_row_of_ok)

lemma update_filter_edit:
  assumes "is_admin (me_cfg M) i"
  shows "edit M i s (snd (update_ingress_filter M i n u s))"
  unfolding update_ingress_filter_def Let_def
proof (intro edit_branches)
  fix f spec assume v: "validate_filter_spec (me_engine M) (raw_of_args (edited_args u f)) = Inr spec"
  let ?fs = "update_where (\<lambda>x. fr_id x = n) (\<lambda>_. filter_row_of n spec (fa_enabled (edited_args u f))) (ms_filters s)"
  have "\<forall>x \<in> set ?fs. x \<in> set (ms_filters s) \<or> filter_ok M x"
    using filter_row_of_ok[OF v] by (auto simp: set_update_where)
  from edit.filters[OF assms this, of "ms_next_filter s"] show "edit M i s (s\<lparr>ms_filters := ?fs\<rparr>)" by simp
qed

lemma delete_filter_edit: "is_admin (me_cfg M) i \<Longrightarrow> edit M i s (snd (delete_ingress_filter M i n s))"
  unfolding delete_ingress_filter_def Let_def
  by (intro edit_branches)
    (use edit.filters[of M i "delete_where (\<lambda>x. fr_id x = n) (ms_filters s)" s "ms_next_filter s"] in simp)

lemma purge_filter_edit: "is_admin (me_cfg M) i \<Longrightarrow> edit M i s (snd (purge_ingress_filter M i n confirm batch s))"
  unfolding purge_ingress_filter_def Let_def
  by (cases "get_filter n s") (auto simp: edit.nothing edit_audited_refl intro!: edit_audited edit.purge split: sum.split)

lemma source_edit: "edit M i s (snd (set_source_active i src on s))"
  unfolding set_source_active_def by (intro edit_branches) (rule edit.source)

lemma run_tool_edit: "permitted M i req \<Longrightarrow> edit M i s (snd (run_tool M i req s))"
  by (cases req)
    (simp_all add: permitted_def register_target_edit update_target_edit remove_target_edit register_alert_edit update_alert_edit
      delete_alert_edit disable_alert_edit bind_target_edit unbind_target_edit register_filter_edit update_filter_edit
      delete_filter_edit purge_filter_edit source_edit)

lemma refusal_noted_db: "\<exists>extra. refusal_noted i req s = on_mdb (\<lambda>d. d\<lparr>audit := audit d @ extra\<rparr>) s"
proof (cases req)
  case (Register_Target a) then show ?thesis by (auto simp: audited_def on_mdb_def add_audit_def)
next
  case (Register_Alert a) then show ?thesis by (auto simp: audited_def on_mdb_def add_audit_def)
qed (auto simp: on_mdb_def intro: exI[of _ "[]"])


section \<open>Rows of others\<close>

text \<open>The ids of a table are distinct and below the sequence; bindings join existing rows, each pair once.\<close>

definition ids_ok :: "db \<Rightarrow> bool" where
  "ids_ok d =
     (distinct (map r_id (alert_rules d)) \<and> (\<forall>r \<in> set (alert_rules d). r_id r < next_rule d)
      \<and> distinct (map t_id (targets d)) \<and> (\<forall>t \<in> set (targets d). t_id t < next_target d)
      \<and> (\<forall>b \<in> set (rule_targets d). b_rule_id b \<in> r_id ` set (alert_rules d) \<and> b_target_id b \<in> t_id ` set (targets d)))"

definition foreign_rule :: "mcp_env \<Rightarrow> ident \<Rightarrow> db \<Rightarrow> rule_row \<Rightarrow> bool" where
  "foreign_rule M i d r = (r \<in> set (alert_rules d) \<and> \<not> may_edit_rule M i r)"

definition foreign_target :: "mcp_env \<Rightarrow> ident \<Rightarrow> db \<Rightarrow> target_row \<Rightarrow> bool" where
  "foreign_target M i d t = (t \<in> set (targets d) \<and> \<not> may_edit_target M i t)"

lemma unique_row: "distinct (map k rows) \<Longrightarrow> x \<in> set rows \<Longrightarrow> y \<in> set rows \<Longrightarrow> k x = k y \<Longrightarrow> x = y"
  by (metis distinct_map inj_onD)

lemma found_rule: "ids_ok d \<Longrightarrow> find_rule d n = Some r \<Longrightarrow> x \<in> set (alert_rules d) \<Longrightarrow> r_id x = n \<Longrightarrow> x = r"
  by (metis ids_ok_def find_rule_SomeD unique_row)

lemma found_target: "ids_ok d \<Longrightarrow> find_target d n = Some t \<Longrightarrow> x \<in> set (targets d) \<Longrightarrow> t_id x = n \<Longrightarrow> x = t"
  by (metis ids_ok_def find_target_SomeD unique_row)

lemma on_mdb_sel [simp]: "ms_db (on_mdb f s) = f (ms_db s)" "ms_filters (on_mdb f s) = ms_filters s"
  "ms_events (on_mdb f s) = ms_events s" "ms_sources (on_mdb f s) = ms_sources s"
  by (simp_all add: on_mdb_def)

lemma add_binding_frame [simp]:
  "alert_rules (add_binding n m d) = alert_rules d" "targets (add_binding n m d) = targets d"
  "next_rule (add_binding n m d) = next_rule d" "next_target (add_binding n m d) = next_target d"
  by (simp_all add: add_binding_def)

lemma fold_add_binding_frame [simp]:
  "alert_rules (fold (add_binding n) ms d) = alert_rules d" "targets (fold (add_binding n) ms d) = targets d"
  "next_rule (fold (add_binding n) ms d) = next_rule d" "next_target (fold (add_binding n) ms d) = next_target d"
  by (induction ms arbitrary: d) simp_all

definition plain_binding :: "id \<Rightarrow> id \<Rightarrow> bind_row" where
  "plain_binding n m = \<lparr>b_rule_id = n, b_target_id = m, b_target_order = 100, b_stop_on_match = False\<rparr>"

lemma add_binding_rows:
  "set (rule_targets (add_binding n m d)) \<subseteq> insert (plain_binding n m) (set (rule_targets d))"
  "set (rule_targets d) \<subseteq> set (rule_targets (add_binding n m d))"
  by (auto simp: add_binding_def plain_binding_def)

lemma fold_add_binding_rows:
  "set (rule_targets (fold (add_binding n) ms d)) \<subseteq> set (rule_targets d) \<union> plain_binding n ` set ms
   \<and> set (rule_targets d) \<subseteq> set (rule_targets (fold (add_binding n) ms d))"
proof (induction ms arbitrary: d)
  case (Cons m ms)
  then show ?case using add_binding_rows[where n = n and m = m and d = d] Cons.IH[of "add_binding n m d"] by simp blast
qed simp

lemma set_binding_frame [simp]:
  "alert_rules (set_binding n m ord stop d) = alert_rules d" "targets (set_binding n m ord stop d) = targets d"
  "next_rule (set_binding n m ord stop d) = next_rule d" "next_target (set_binding n m ord stop d) = next_target d"
  by (simp_all add: set_binding_def)

lemma check_targets_found: "check_targets M i ns d = None \<Longrightarrow> m \<in> set ns \<Longrightarrow> \<exists>t. find_target d m = Some t \<and> may_edit_target M i t"
  by (induction ns) (auto split: option.splits if_splits)

lemma edit_keeps_foreign_rules:
  "edit M i s s' \<Longrightarrow> ids_ok (ms_db s) \<Longrightarrow> foreign_rule M i (ms_db s) r \<Longrightarrow> r \<in> set (alert_rules (ms_db s'))"
proof (induction rule: edit.induct)
  case (change_rule s n r0 f)
  then have "r_id r \<noteq> n" using found_rule by (auto simp: foreign_rule_def)
  then show ?case using change_rule.prems by (force simp: foreign_rule_def set_update_where)
next
  case (drop_rule s n r0)
  then have "r_id r \<noteq> n" using found_rule by (auto simp: foreign_rule_def)
  then show ?case using drop_rule.prems by (simp add: foreign_rule_def delete_rule_def Let_def)
qed (auto simp: foreign_rule_def delete_target_def)

lemma edit_keeps_foreign_targets:
  "edit M i s s' \<Longrightarrow> ids_ok (ms_db s) \<Longrightarrow> foreign_target M i (ms_db s) t \<Longrightarrow> t \<in> set (targets (ms_db s'))"
proof (induction rule: edit.induct)
  case (change_target s n t0 f)
  then have "t_id t \<noteq> n" using found_target by (auto simp: foreign_target_def)
  then show ?case using change_target.prems by (force simp: foreign_target_def set_update_where)
next
  case (drop_target s n t0)
  then have "t_id t \<noteq> n" using found_target by (auto simp: foreign_target_def)
  then show ?case using drop_target.prems by (simp add: foreign_target_def delete_target_def)
qed (auto simp: foreign_target_def delete_rule_def Let_def)

text \<open>A binding between two foreign rows.\<close>

definition foreign_binding :: "mcp_env \<Rightarrow> ident \<Rightarrow> db \<Rightarrow> bind_row \<Rightarrow> bool" where
  "foreign_binding M i d b =
     (b \<in> set (rule_targets d) \<and> (\<forall>r \<in> set (alert_rules d). r_id r = b_rule_id b \<longrightarrow> \<not> may_edit_rule M i r)
      \<and> (\<forall>t \<in> set (targets d). t_id t = b_target_id b \<longrightarrow> \<not> may_edit_target M i t))"

lemma edit_keeps_foreign_bindings:
  "edit M i s s' \<Longrightarrow> foreign_binding M i (ms_db s) b \<Longrightarrow> b \<in> set (rule_targets (ms_db s'))"
proof (induction rule: edit.induct)
  case (drop_target s n t)
  then have "b_target_id b \<noteq> n" by (auto simp: foreign_binding_def dest!: find_target_SomeD)
  then show ?case using drop_target.prems by (simp add: foreign_binding_def delete_target_def)
next
  case (add_rule r s ns)
  then show ?case using fold_add_binding_rows[of "r_id r" ns] by (simp add: foreign_binding_def) fastforce
next
  case (drop_rule s n r)
  then have "b_rule_id b \<noteq> n" by (auto simp: foreign_binding_def dest!: find_rule_SomeD)
  then show ?case using drop_rule.prems by (simp add: foreign_binding_def delete_rule_def Let_def)
next
  case (bind s n r m t ord stop)
  then have "b_rule_id b \<noteq> n" by (auto simp: foreign_binding_def dest!: find_rule_SomeD)
  then show ?case using bind.prems by (force simp: foreign_binding_def set_binding_def set_update_where)
next
  case (unbind s n r m)
  then have "b_rule_id b \<noteq> n" by (auto simp: foreign_binding_def dest!: find_rule_SomeD)
  then show ?case using unbind.prems by (simp add: foreign_binding_def)
qed (simp_all add: foreign_binding_def)

lemma edit_keeps_filters: "edit M i s s' \<Longrightarrow> \<not> is_admin (me_cfg M) i \<Longrightarrow> ms_filters s' = ms_filters s \<and> ms_events s' = ms_events s"
  by (induction rule: edit.induct) simp_all

text \<open>
  C33. The rows of others. A request of a caller who is no operator leaves every rule and every
  target of another owner exactly as it was, every binding between two such rows, the global
  filters and the stored events. Two agents of one human are different owners.
\<close>

theorem rows_of_others_untouched:
  assumes "serve M header req s = (reply, s')" "caller M header = Some i" "\<not> is_admin (me_cfg M) i" "ids_ok (ms_db s)"
  shows "(\<forall>r \<in> set (alert_rules (ms_db s)). \<not> owns i (r_created_by r) (r_created_by_bot r) \<longrightarrow> r \<in> set (alert_rules (ms_db s')))
    \<and> (\<forall>t \<in> set (targets (ms_db s)). \<not> owns i (t_owner_oid t) (t_owner_bot t) \<longrightarrow> t \<in> set (targets (ms_db s')))
    \<and> (\<forall>b. foreign_binding M i (ms_db s) b \<longrightarrow> b \<in> set (rule_targets (ms_db s')))
    \<and> ms_filters s' = ms_filters s \<and> ms_events s' = ms_events s"
proof (cases "permitted M i req")
  case True
  then have "(reply, s') = run_tool M i req s" using assms(1,2) by (simp add: serve_def)
  then have "s' = snd (run_tool M i req s)" by (metis snd_conv)
  then have e: "edit M i s s'" using run_tool_edit[OF True] by simp
  show ?thesis
    using edit_keeps_foreign_rules[OF e assms(4)] edit_keeps_foreign_targets[OF e assms(4)] edit_keeps_foreign_bindings[OF e]
      edit_keeps_filters[OF e assms(3)] assms(3)
    by (auto simp: foreign_rule_def foreign_target_def may_edit_rule_def may_edit_target_def may_edit_def)
next
  case False
  then have "s' = refusal_noted i req s" using assms(1,2) by (auto simp: serve_def)
  then obtain extra where "s' = on_mdb (\<lambda>d. d\<lparr>audit := audit d @ extra\<rparr>) s" using refusal_noted_db by blast
  then show ?thesis by (simp add: foreign_binding_def)
qed

section \<open>A run\<close>

text \<open>Alice registers a push target and a rule bound to it; Bob acts beside her.\<close>

definition demo_mcp :: mcp_env where
  "demo_mcp = \<lparr>me_cfg = demo_tenant, me_decode = demo_decode, me_engine = demo_engine, me_py_regex = (\<lambda>p. None),
     me_close = (\<lambda>g known. []), me_fulltext = (\<lambda>q e. sublist q (sp_body e)), me_float = id, me_brackets = (\<lambda>h. True),
     me_pick = take, me_now = 0\<rparr>"

definition demo_state :: mstate where
  "demo_state = \<lparr>ms_db = empty_db, ms_filters = [], ms_next_filter = 1, ms_sources = [], ms_events = []\<rparr>"

definition demo_push :: "string \<Rightarrow> request" where
  "demo_push name = Register_Target \<lparr>ta_name = name, ta_type = ''ntfy'', ta_config_json = [], ta_identity_policy = ''none'',
     ta_project_id = [], ta_project_name = []\<rparr>"

definition demo_alert :: request where
  "demo_alert = Register_Alert \<lparr>aa_name = ''oom'', aa_kind = ''regex'', aa_pattern = ''oom'', aa_instructions = [], aa_source_glob = [],
     aa_min_severity = 0, aa_window_kind = ''sliding'', aa_window_seconds = 300, aa_spike_lines = 0, aa_cooldown_seconds = 300,
     aa_rule_order = 100, aa_stop_on_match = False, aa_project_id = [], aa_targets = ''1'', aa_group_by = ''host''\<rparr>"

definition after :: "(string \<times> request) list \<Rightarrow> mstate" where
  "after reqs = fold (\<lambda>(who, req) s. snd (serve demo_mcp (''Bearer '' @ who) req s)) reqs demo_state"

definition alices :: mstate where
  "alices = after [(''alice'', demo_push ''phone''), (''alice'', demo_alert)]"

lemma demo_callers: "caller demo_mcp ''Bearer alice'' = Some (demo_ident ''alice'')" "caller demo_mcp ''Bearer bob'' = Some (demo_ident ''bob'')"
  "permitted demo_mcp (demo_ident ''alice'') demo_alert"
  "\<not> is_admin (me_cfg demo_mcp) (demo_ident ''bob'')" "\<not> is_admin (me_cfg demo_mcp) (demo_ident ''alice'')"
  by code_simp+

lemma alices_rows: "ids_ok alices_db" if "alices_db = ms_db alices" for alices_db
  unfolding that ids_ok_def by code_simp


theorem rows_of_others_untouched_witness:
  "list_all (\<lambda>r. r \<in> set (alert_rules (ms_db (snd (serve demo_mcp ''Bearer bob'' (demo_push ''pager'') alices))))) (alert_rules (ms_db alices))
   \<and> length (alert_rules (ms_db alices)) = 1"
proof -
  have "list_all (\<lambda>r. \<not> owns (demo_ident ''bob'') (r_created_by r) (r_created_by_bot r)) (alert_rules (ms_db alices))"
    "length (alert_rules (ms_db alices)) = 1" by code_simp+
  then show ?thesis
    using rows_of_others_untouched[OF prod.collapse[symmetric] demo_callers(2,4) alices_rows[OF refl], where req = "demo_push ''pager''"]
    by (simp add: list_all_iff)
qed

end
