(* ===== verification/Mcp_Inv.thy ===== *)
theory Mcp_Inv
  imports Mcp_Spec
begin

text \<open>
  What the control plane's tables satisfy after any run of requests: the stored content passed
  the checks, ids are distinct, bindings join existing rows; and while no operator acts, a binding
  joins a rule and a target of one owner.
\<close>

section \<open>The invariants\<close>

definition tables_ok :: "mcp_env \<Rightarrow> mstate \<Rightarrow> bool" where
  "tables_ok M s =
     (ids_ok (ms_db s) \<and> (\<forall>r \<in> set (alert_rules (ms_db s)). rule_ok M r) \<and> (\<forall>t \<in> set (targets (ms_db s)). target_ok M t)
      \<and> (\<forall>f \<in> set (ms_filters s). filter_ok M f))"

definition rule_owner :: "rule_row \<Rightarrow> string \<times> string" where
  "rule_owner r = (or_else (r_created_by r) [], or_else (r_created_by_bot r) [])"

definition target_owner :: "target_row \<Rightarrow> string \<times> string" where
  "target_owner t = (or_else (t_owner_oid t) [], or_else (t_owner_bot t) [])"

definition one_owner :: "db \<Rightarrow> bool" where
  "one_owner d =
     (\<forall>b \<in> set (rule_targets d). \<forall>r \<in> set (alert_rules d). \<forall>t \<in> set (targets d).
        r_id r = b_rule_id b \<longrightarrow> t_id t = b_target_id b \<longrightarrow> rule_owner r = target_owner t)"

section \<open>Edits keep them\<close>

lemma map_id_updated:
  "keeps_rule_owner f \<Longrightarrow> map r_id (update_where p f rules) = map r_id rules"
  "keeps_target_owner g \<Longrightarrow> map t_id (update_where q g tgts) = map t_id tgts"
  by (simp_all add: map_update_where_id keeps_rule_owner_def keeps_target_owner_def)

lemma ids_set: "r_id ` set rules = set (map r_id rules)" "t_id ` set tgts = set (map t_id tgts)"
  by simp_all

lemma ids_ok_alt:
  "ids_ok d = (distinct (map r_id (alert_rules d)) \<and> (\<forall>n \<in> set (map r_id (alert_rules d)). n < next_rule d)
      \<and> distinct (map t_id (targets d)) \<and> (\<forall>n \<in> set (map t_id (targets d)). n < next_target d)
      \<and> (\<forall>b \<in> set (rule_targets d). b_rule_id b \<in> set (map r_id (alert_rules d)) \<and> b_target_id b \<in> set (map t_id (targets d))))"
  by (simp add: ids_ok_def)

lemma found_id: "find_rule d n = Some r \<Longrightarrow> n \<in> set (map r_id (alert_rules d))"
  "find_target d m = Some t \<Longrightarrow> m \<in> set (map t_id (targets d))"
  by (auto dest!: find_rule_SomeD find_target_SomeD)

lemma ids_ok_drop_rule: "ids_ok d \<Longrightarrow> ids_ok (delete_rule n d)"
  by (auto simp: ids_ok_def delete_rule_def Let_def distinct_map_delete_where)

lemma ids_ok_drop_target: "ids_ok d \<Longrightarrow> ids_ok (delete_target n d)"
  by (auto simp: ids_ok_def delete_target_def distinct_map_delete_where)

lemma set_binding_rows:
  "b \<in> set (rule_targets (set_binding n m ord stop d)) \<Longrightarrow>
     (b_rule_id b = n \<and> b_target_id b = m) \<or> b \<in> set (rule_targets d)"
  by (auto simp: set_binding_def set_update_where split: if_splits)

lemma ids_ok_bind:
  assumes "ids_ok d" "n \<in> set (map r_id (alert_rules d))" "m \<in> set (map t_id (targets d))"
  shows "ids_ok (set_binding n m ord stop d)"
  using assms unfolding ids_ok_alt by (auto dest!: set_binding_rows)

lemma added_rows:
  "b \<in> set (rule_targets (fold (add_binding n) ms d)) \<Longrightarrow> b \<in> set (rule_targets d) \<or> (b_rule_id b = n \<and> b_target_id b \<in> set ms)"
  using fold_add_binding_rows[of n ms d] by (auto simp: plain_binding_def)

lemma edit_ids_ok: "edit M i s s' \<Longrightarrow> ids_ok (ms_db s) \<Longrightarrow> ids_ok (ms_db s')"
proof (induction rule: edit.induct)
  case (add_target t s) then show ?case by (auto simp: ids_ok_def)
next
  case (change_target s n t f)
  then show ?case unfolding ids_ok_alt by (simp add: map_id_updated del: set_map)
next
  case (drop_target s n t) then show ?case by (simp add: ids_ok_drop_target)
next
  case (add_rule r s ns)
  have "m \<in> set (map t_id (targets (ms_db s)))" if "m \<in> set ns" for m
    using check_targets_found[OF add_rule(5) that] found_id(2) by blast
  then show ?case using add_rule(3) add_rule.prems unfolding ids_ok_alt by (fastforce dest!: added_rows)
next
  case (change_rule s n r f)
  then show ?case unfolding ids_ok_alt by (simp add: map_id_updated del: set_map)
next
  case (drop_rule s n r) then show ?case by (simp add: ids_ok_drop_rule)
next
  case (bind s n r m t ord stop)
  then show ?case using found_id by (simp add: ids_ok_bind del: set_map)
qed (auto simp: ids_ok_def)

lemma edit_rules_ok:
  "edit M i s s' \<Longrightarrow> ids_ok (ms_db s) \<Longrightarrow> \<forall>r \<in> set (alert_rules (ms_db s)). rule_ok M r \<Longrightarrow> \<forall>r \<in> set (alert_rules (ms_db s')). rule_ok M r"
proof (induction rule: edit.induct)
  case (change_rule s n r f)
  have "rule_ok M (f x)" if "x \<in> set (alert_rules (ms_db s))" "r_id x = n" for x
    using found_rule[OF change_rule.prems(1) change_rule(1) that] change_rule.prems(2) change_rule(4) that(1) by blast
  then show ?case using change_rule.prems(2) by (auto simp: set_update_where)
qed (auto simp: delete_rule_def delete_target_def Let_def)

lemma edit_targets_ok:
  "edit M i s s' \<Longrightarrow> ids_ok (ms_db s) \<Longrightarrow> \<forall>t \<in> set (targets (ms_db s)). target_ok M t \<Longrightarrow> \<forall>t \<in> set (targets (ms_db s')). target_ok M t"
proof (induction rule: edit.induct)
  case (change_target s n t f)
  have "target_ok M (f x)" if "x \<in> set (targets (ms_db s))" "t_id x = n" for x
    using found_target[OF change_target.prems(1) change_target(1) that] change_target.prems(2) change_target(4) that(1) by blast
  then show ?case using change_target.prems(2) by (auto simp: set_update_where)
qed (auto simp: delete_rule_def delete_target_def Let_def)

lemma edit_filters_ok:
  "edit M i s s' \<Longrightarrow> \<forall>f \<in> set (ms_filters s). filter_ok M f \<Longrightarrow> \<forall>f \<in> set (ms_filters s'). filter_ok M f"
  by (induction rule: edit.induct) auto

lemma edit_tables_ok: "edit M i s s' \<Longrightarrow> tables_ok M s \<Longrightarrow> tables_ok M s'"
  unfolding tables_ok_def by (elim conjE) (intro conjI; rule edit_ids_ok edit_rules_ok edit_targets_ok edit_filters_ok; assumption)

text \<open>A refused request changes the audit only.\<close>

lemma serve_steps:
  assumes "serve M header req s = (reply, s')"
  obtains (same) extra where "s' = on_mdb (\<lambda>d. d\<lparr>audit := audit d @ extra\<rparr>) s"
  | (edit) i where "caller M header = Some i" "edit M i s s'"
proof (cases "caller M header")
  case None
  then have "s' = on_mdb (\<lambda>d. d\<lparr>audit := audit d @ []\<rparr>) s" using assms by (simp add: serve_def on_mdb_def)
  then show thesis by (rule same)
next
  case (Some i)
  show thesis
  proof (cases "permitted M i req")
    case True
    then have "(reply, s') = run_tool M i req s" using assms Some by (simp add: serve_def)
    then have "s' = snd (run_tool M i req s)" by (metis snd_conv)
    then show thesis using edit[OF Some] run_tool_edit[OF True] by simp
  next
    case False
    then have "s' = refusal_noted i req s" using assms Some by (auto simp: serve_def)
    then show thesis using refusal_noted_db[of i req s] by (elim exE) (simp add: same)
  qed
qed

lemma tables_ok_audit: "tables_ok M (on_mdb (\<lambda>d. d\<lparr>audit := x d\<rparr>) s) = tables_ok M s"
  by (simp add: tables_ok_def ids_ok_def)

definition fresh_tables :: "mstate \<Rightarrow> bool" where
  "fresh_tables s = (ms_db s = empty_db \<and> ms_filters s = [])"

definition request_step :: "mcp_env \<Rightarrow> mstate \<Rightarrow> mstate \<Rightarrow> bool" where
  "request_step M s s' = (\<exists>header req. snd (serve M header req s) = s')"

interpretation tables: safe_machine fresh_tables "request_step M" "tables_ok M" for M
proof
  fix s assume "fresh_tables s"
  then show "tables_ok M s" by (simp add: fresh_tables_def tables_ok_def ids_ok_def empty_db_def)
next
  fix s t assume "request_step M s t" and ok: "tables_ok M s"
  then obtain header req reply where "serve M header req s = (reply, t)" by (metis request_step_def prod.collapse)
  then show "tables_ok M t" by (rule serve_steps) (use ok edit_tables_ok in \<open>auto simp: tables_ok_audit\<close>)
qed

text \<open>
  C34. The tables stay valid. After any sequence of requests, from any callers, on empty tables:
  every stored rule has a known kind and grouping, a name, a pattern that RE2 compiles and that
  passed the complexity guard, and no comma or inner blank in its glob; every target has a known
  type and policy and a configuration whose host is allowed and that does not approve every tool;
  every filter meets the table's checks; ids are distinct and bindings join existing rows.
\<close>

theorem stored_content_is_checked:
  assumes "reach fresh_tables (request_step M) s"
  shows "(\<forall>r \<in> set (alert_rules (ms_db s)). r_kind r \<in> {''regex'', ''semantic''} \<and> r_group_by r \<in> {''host'', ''rule''}
        \<and> r_name r \<noteq> [] \<and> r_pattern r \<noteq> [] \<and> glob_check (or_else (r_source_glob r) []) = None
        \<and> (r_kind r = ''regex'' \<longrightarrow> re2_error (me_engine M) True (r_pattern r) = None \<and> regex_safe (r_pattern r) = None))
    \<and> (\<forall>t \<in> set (targets (ms_db s)). t_type t \<in> {''ntfy'', ''turnstone''} \<and> t_identity_policy t \<in> set identity_policies
        \<and> validate_target_config (me_brackets M) (me_cfg M) (t_type t) (t_config t) = Inr None)
    \<and> (\<forall>f \<in> set (ms_filters s). spec_ok (me_engine M) (spec_of_row f))
    \<and> ids_ok (ms_db s)"
proof -
  have ok: "tables_ok M s" using assms by (rule tables.always)
  have "re2_error (me_engine M) True (r_pattern r) = None \<and> regex_safe (r_pattern r) = None"
    if "rule_ok M r" "r_kind r = ''regex''" for r
    using that by (auto simp: rule_ok_def check_pattern_def compile_regex_def invalid_def split: option.splits)
  moreover have "validate_target_config (me_brackets M) (me_cfg M) (t_type t) (t_config t) = Inr None" if "target_ok M t" for t
    using that by (auto simp: target_ok_def check_config_def split: sum.splits option.splits)
  ultimately show ?thesis using ok
    by (auto simp: tables_ok_def rule_ok_def target_ok_def filter_ok_def known_target_types_def)
qed

section \<open>One owner for a binding\<close>

lemma owns_owner:
  "\<not> is_admin (me_cfg M) i \<Longrightarrow> may_edit_rule M i r \<Longrightarrow> rule_owner r = (id_oid i, id_appid i)"
  "\<not> is_admin (me_cfg M) i \<Longrightarrow> may_edit_target M i t \<Longrightarrow> target_owner t = (id_oid i, id_appid i)"
  by (auto simp: may_edit_rule_def may_edit_target_def may_edit_def owns_def rule_owner_def target_owner_def)

lemma updated_owner:
  "keeps_rule_owner f \<Longrightarrow> rule_owner (f r) = rule_owner r \<and> r_id (f r) = r_id r"
  "keeps_target_owner g \<Longrightarrow> target_owner (g t) = target_owner t \<and> t_id (g t) = t_id t"
  by (simp_all add: keeps_rule_owner_def keeps_target_owner_def rule_owner_def target_owner_def)

lemma edit_one_owner:
  "edit M i s s' \<Longrightarrow> \<not> is_admin (me_cfg M) i \<Longrightarrow> ids_ok (ms_db s) \<Longrightarrow> one_owner (ms_db s) \<Longrightarrow> one_owner (ms_db s')"
proof (induction rule: edit.induct)
  case (add_target t s)
  then have "\<forall>b \<in> set (rule_targets (ms_db s)). b_target_id b \<noteq> t_id t"
    unfolding ids_ok_def by fastforce
  then show ?case using add_target.prems(3) by (auto simp: one_owner_def)
next
  case (change_target s n t f)
  then show ?case using updated_owner(2)[OF change_target(3)] by (auto simp: one_owner_def set_update_where)
next
  case (drop_target s n t) then show ?case by (auto simp: one_owner_def delete_target_def)
next
  case (add_rule r s ns)
  have old: "b \<in> set (rule_targets (ms_db s)) \<Longrightarrow> b_rule_id b \<noteq> r_id r" for b
    using add_rule(3) add_rule.prems(2) unfolding ids_ok_def by fastforce
  have r: "rule_owner r = (id_oid i, id_appid i)" using add_rule(1,2) by (simp add: rule_owner_def)
  have t: "target_owner t = (id_oid i, id_appid i)" if "t \<in> set (targets (ms_db s))" "t_id t \<in> set ns" for t
    using check_targets_found[OF add_rule(5) that(2)] found_target[OF add_rule.prems(2) _ that(1)] owns_owner(2)[OF add_rule.prems(1)]
    by blast
  have fresh: "r_id x \<noteq> r_id r" if "x \<in> set (alert_rules (ms_db s))" for x
    using that add_rule(3) add_rule.prems(2) by (auto simp: ids_ok_def)
  show ?case unfolding one_owner_def
  proof (intro ballI impI)
    fix b x t
    assume b: "b \<in> set (rule_targets (ms_db (on_mdb (\<lambda>d. fold (add_binding (r_id r)) ns (d\<lparr>alert_rules := alert_rules d @ [r],
          next_rule := next_rule d + 1\<rparr>)) s)))"
      and x: "x \<in> set (alert_rules (ms_db (on_mdb (\<lambda>d. fold (add_binding (r_id r)) ns (d\<lparr>alert_rules := alert_rules d @ [r],
          next_rule := next_rule d + 1\<rparr>)) s)))" "r_id x = b_rule_id b"
      and tt: "t \<in> set (targets (ms_db (on_mdb (\<lambda>d. fold (add_binding (r_id r)) ns (d\<lparr>alert_rules := alert_rules d @ [r],
          next_rule := next_rule d + 1\<rparr>)) s)))" "t_id t = b_target_id b"
    have x': "x = r \<or> x \<in> set (alert_rules (ms_db s))" and t': "t \<in> set (targets (ms_db s))" using x(1) tt(1) by auto
    have "b \<in> set (rule_targets (ms_db s)) \<or> (b_rule_id b = r_id r \<and> b_target_id b \<in> set ns)"
      using b by (auto dest!: added_rows)
    then show "rule_owner x = target_owner t"
    proof
      assume b: "b \<in> set (rule_targets (ms_db s))"
      then have "x \<in> set (alert_rules (ms_db s))" using x' x(2) old[OF b] by auto
      then show ?thesis using add_rule.prems(3) b x(2) tt(2) t' by (simp add: one_owner_def)
    next
      assume b: "b_rule_id b = r_id r \<and> b_target_id b \<in> set ns"
      then have "x = r" using x' x(2) fresh[of x] by auto
      then show ?thesis using r t[OF t'] b tt(2) by simp
    qed
  qed
next
  case (change_rule s n r f)
  then show ?case using updated_owner(1)[OF change_rule(3)] by (auto simp: one_owner_def set_update_where)
next
  case (drop_rule s n r) then show ?case by (auto simp: one_owner_def delete_rule_def Let_def)
next
  case (bind s n r m t ord stop)
  have "rule_owner x = target_owner y" if "x \<in> set (alert_rules (ms_db s))" "r_id x = n" "y \<in> set (targets (ms_db s))" "t_id y = m" for x y
    using found_rule[OF bind.prems(2) bind(1) that(1,2)] found_target[OF bind.prems(2) bind(3) that(3,4)]
      owns_owner(1)[OF bind.prems(1) bind(2)] owns_owner(2)[OF bind.prems(1) bind(4)] by simp
  then show ?case using bind.prems(3) by (auto simp: one_owner_def dest!: set_binding_rows)
qed (auto simp: one_owner_def)

text \<open>
  C35. Nobody binds to another's target. While the requests come from callers who are no
  operators, every binding joins a rule and a target of the same owner, the same human and the
  same agent; so a rule's log lines reach the channels of its own owner only.
\<close>

definition plain_step :: "mcp_env \<Rightarrow> mstate \<Rightarrow> mstate \<Rightarrow> bool" where
  "plain_step M s s' = (\<exists>header req. (\<forall>i. caller M header = Some i \<longrightarrow> \<not> is_admin (me_cfg M) i) \<and> snd (serve M header req s) = s')"

interpretation owners: safe_machine fresh_tables "plain_step M" "\<lambda>s. tables_ok M s \<and> one_owner (ms_db s)" for M
proof
  fix s assume "fresh_tables s"
  then show "tables_ok M s \<and> one_owner (ms_db s)" by (simp add: fresh_tables_def tables_ok_def ids_ok_def empty_db_def one_owner_def)
next
  fix s t assume "plain_step M s t" and ok: "tables_ok M s \<and> one_owner (ms_db s)"
  then obtain header req reply where st: "serve M header req s = (reply, t)" "\<And>i. caller M header = Some i \<Longrightarrow> \<not> is_admin (me_cfg M) i"
    by (metis plain_step_def prod.collapse)
  from st(1) show "tables_ok M t \<and> one_owner (ms_db t)"
  proof (rule serve_steps)
    fix extra assume "t = on_mdb (\<lambda>d. d\<lparr>audit := audit d @ extra\<rparr>) s"
    then show ?thesis using ok by (simp add: tables_ok_audit) (simp add: one_owner_def)
  next
    fix i assume i: "caller M header = Some i" "edit M i s t"
    have "ids_ok (ms_db s)" using ok by (simp add: tables_ok_def)
    then show ?thesis using edit_one_owner[OF i(2) st(2)[OF i(1)]] edit_tables_ok[OF i(2)] ok by blast
  qed
qed

theorem bindings_have_one_owner:
  assumes "reach fresh_tables (plain_step M) s"
    and "b \<in> set (rule_targets (ms_db s))" "r \<in> set (alert_rules (ms_db s))" "r_id r = b_rule_id b"
    and "t \<in> set (targets (ms_db s))" "t_id t = b_target_id b"
  shows "or_else (r_created_by r) [] = or_else (t_owner_oid t) [] \<and> or_else (r_created_by_bot r) [] = or_else (t_owner_bot t) []"
proof -
  have "one_owner (ms_db s)" using owners.always[OF assms(1)] by simp
  then show ?thesis using assms(2-) by (auto simp: one_owner_def rule_owner_def target_owner_def)
qed

section \<open>What a listing reveals\<close>

text \<open>Two targets that look the same to a caller: equal, or equal but for a configuration the caller may not edit.\<close>

definition looks_same :: "mcp_env \<Rightarrow> ident \<Rightarrow> target_row \<Rightarrow> target_row \<Rightarrow> bool" where
  "looks_same M i t t' = (t = t' \<or> (\<not> may_edit_target M i t \<and> (\<exists>c. t' = t\<lparr>t_config := c\<rparr>)))"

lemma looks_same_entry: "looks_same M i t t' \<Longrightarrow> target_entry M i t = target_entry M i t' \<and> t_id t = t_id t'"
  by (auto simp: looks_same_def target_entry_def may_edit_target_def)

lemma insort_related:
  assumes "list_all2 R xs ys" "R x y" "\<And>a b. R a b \<Longrightarrow> k a = k b"
  shows "list_all2 R (insort_key k x xs) (insort_key k y ys)"
  using assms(1)
proof (induction xs ys rule: list_all2_induct)
  case Nil then show ?case using assms(2) by simp
next
  case (Cons a as b bs)
  then show ?case using assms(2) assms(3)[OF Cons.hyps(1)] assms(3)[OF assms(2)] by simp
qed

lemma sort_related: "list_all2 R xs ys \<Longrightarrow> (\<And>a b. R a b \<Longrightarrow> k a = k b) \<Longrightarrow> list_all2 R (sort_key k xs) (sort_key k ys)"
  by (induction xs ys rule: list_all2_induct) (simp_all add: insort_related)

text \<open>
  C36. A listing keeps secrets. What \<open>list_targets\<close> answers does not depend on the configurations,
  URLs, topics and tokens, of targets the caller neither owns nor operates: tables that differ in
  such configurations only give the same answer.
\<close>

theorem listing_hides_foreign_config:
  assumes "list_all2 (looks_same M i) (targets (ms_db s)) (targets (ms_db s'))"
  shows "list_targets M i s = list_targets M i s'"
proof -
  have "list_all2 (looks_same M i) (sort_key t_id (targets (ms_db s))) (sort_key t_id (targets (ms_db s')))"
    using assms by (rule sort_related) (simp add: looks_same_entry)
  then have "map (\<lambda>t. PDict (target_entry M i t)) (sort_key t_id (targets (ms_db s)))
      = map (\<lambda>t. PDict (target_entry M i t)) (sort_key t_id (targets (ms_db s')))"
    by (induction rule: list_all2_induct) (simp_all add: looks_same_entry)
  then show ?thesis by (simp only: list_targets_def Let_def)
qed

section \<open>A run\<close>

lemma demo_reach: "reach fresh_tables (request_step demo_mcp) alices"
proof -
  have "reach fresh_tables (request_step demo_mcp) (after [])"
    by (rule reach_init) (simp add: after_def demo_state_def fresh_tables_def)
  then have "reach fresh_tables (request_step demo_mcp) (after [(''alice'', demo_push ''phone'')])"
    by (rule reach_step) (auto simp: after_def request_step_def)
  then show ?thesis by (rule reach_step) (auto simp: alices_def after_def request_step_def)
qed

theorem stored_content_is_checked_witness:
  "list_all (\<lambda>r. regex_safe (r_pattern r) = None) (filter (\<lambda>r. r_kind r = ''regex'') (alert_rules (ms_db alices))) \<and> ids_ok (ms_db alices)"
  using stored_content_is_checked[OF demo_reach] by (simp add: list_all_iff)

lemma demo_plain_reach: "reach fresh_tables (plain_step demo_mcp) alices"
proof -
  have "reach fresh_tables (plain_step demo_mcp) (after [])"
    by (rule reach_init) (simp add: after_def demo_state_def fresh_tables_def)
  moreover have step: "plain_step demo_mcp s (snd (serve demo_mcp ''Bearer alice'' req s))" for s req
    unfolding plain_step_def by (intro exI[of _ "''Bearer alice''"] exI[of _ req]) (simp add: demo_callers(1,5))
  ultimately have "reach fresh_tables (plain_step demo_mcp) (after [(''alice'', demo_push ''phone'')])"
    using step[of "after []" "demo_push ''phone''"] by (auto simp: after_def intro: reach_step)
  then show ?thesis
    using step[of "after [(''alice'', demo_push ''phone'')]" demo_alert] by (auto simp: alices_def after_def intro: reach_step)
qed

theorem bindings_have_one_owner_witness:
  "or_else (r_created_by (hd (alert_rules (ms_db alices)))) [] = or_else (t_owner_oid (hd (targets (ms_db alices)))) []"
proof -
  have "hd (rule_targets (ms_db alices)) \<in> set (rule_targets (ms_db alices))"
    "hd (alert_rules (ms_db alices)) \<in> set (alert_rules (ms_db alices))"
    "r_id (hd (alert_rules (ms_db alices))) = b_rule_id (hd (rule_targets (ms_db alices)))"
    "hd (targets (ms_db alices)) \<in> set (targets (ms_db alices))"
    "t_id (hd (targets (ms_db alices))) = b_target_id (hd (rule_targets (ms_db alices)))" by code_simp+
  from bindings_have_one_owner[OF demo_plain_reach this] show ?thesis by simp
qed

definition with_token :: "string \<Rightarrow> mstate" where
  "with_token tok = on_mdb (\<lambda>d. d\<lparr>targets := map (\<lambda>t. t\<lparr>t_config := [(''token'', PStr tok)]\<rparr>) (targets d)\<rparr>) alices"

theorem listing_hides_foreign_config_witness:
  "list_targets demo_mcp (demo_ident ''bob'') (with_token ''a'') = list_targets demo_mcp (demo_ident ''bob'') (with_token ''b'')
   \<and> list_targets demo_mcp (demo_ident ''alice'') (with_token ''a'') \<noteq> list_targets demo_mcp (demo_ident ''alice'') (with_token ''b'')"
proof -
  have "list_all (\<lambda>t. \<not> may_edit_target demo_mcp (demo_ident ''bob'') t) (targets (ms_db (with_token ''a'')))" by code_simp
  then have "list_all2 (looks_same demo_mcp (demo_ident ''bob'')) (targets (ms_db (with_token ''a''))) (targets (ms_db (with_token ''b'')))"
    by (simp add: with_token_def list_all2_map1 list_all2_map2 list_all2_same looks_same_def list_all_iff) blast
  moreover have "list_targets demo_mcp (demo_ident ''alice'') (with_token ''a'') \<noteq> list_targets demo_mcp (demo_ident ''alice'') (with_token ''b'')"
    by code_simp
  ultimately show ?thesis using listing_hides_foreign_config by blast
qed

end
