(* ===== verification/Ip_Net.thy ===== *)
theory Ip_Net
  imports Json Filters
begin

text \<open>
  The part of Python's \<open>ipaddress\<close> the collector uses: \<open>ip_address\<close>, \<open>ip_network(..., strict=False)\<close> and
  membership, as the standard library reads texts; with \<open>allowed_networks\<close> and \<open>peer_allowed\<close> of
  \<open>ringdown/otlp.py\<close> on top.
\<close>

section \<open>Addresses\<close>

datatype address = V4 int | V6 int

definition octet :: "string \<Rightarrow> int option" where
  "octet s =
     (if s = [] \<or> \<not> list_all is_digit s \<or> length s > 3 \<or> (s \<noteq> ''0'' \<and> hd s = CHR ''0'') \<or> digits_value s > 255 then None
      else Some (int (digits_value s)))"

fun octets :: "string list \<Rightarrow> int list option" where
  "octets [] = Some []"
| "octets (s # ss) = (case (octet s, octets ss) of (Some n, Some ns) \<Rightarrow> Some (n # ns) | _ \<Rightarrow> None)"

definition v4_of :: "string \<Rightarrow> int option" where
  "v4_of s =
     (case octets (split_on CHR ''.'' s) of
        Some [a, b, c, d] \<Rightarrow> Some (((a * 256 + b) * 256 + c) * 256 + d)
      | _ \<Rightarrow> None)"

definition hextet :: "string \<Rightarrow> int option" where
  "hextet s =
     (if s = [] \<or> length s > 4 \<or> list_ex (\<lambda>c. hex_val c = None) s then None
      else Some (foldl (\<lambda>a c. a * 16 + int (the (hex_val c))) 0 s))"

fun hextets :: "int \<Rightarrow> string list \<Rightarrow> int option" where
  "hextets acc [] = Some acc"
| "hextets acc (s # ss) = (case hextet s of None \<Rightarrow> None | Some n \<Rightarrow> hextets (acc * 65536 + n) ss)"

text \<open>A dotted tail stands for two groups.\<close>

definition dotted_tail :: "string list \<Rightarrow> (string list \<times> int option) option" where
  "dotted_tail parts =
     (if CHR ''.'' \<in> set (last parts) then map_option (\<lambda>n. (butlast parts, Some n)) (v4_of (last parts))
      else Some (parts, None))"

text \<open>The groups before and after a double colon.\<close>

definition empty_inside :: "string list \<Rightarrow> nat list" where
  "empty_inside parts = filter (\<lambda>i. parts ! i = []) [1..<length parts - 1]"

definition split_groups :: "string list \<Rightarrow> (string list \<times> nat \<times> string list) option" where
  "split_groups parts =
     (case empty_inside parts of
        [] \<Rightarrow> if length parts = 8 \<and> hd parts \<noteq> [] \<and> last parts \<noteq> [] then Some (parts, 0, []) else None
      | [k] \<Rightarrow>
        let high = take k parts; low = drop (k + 1) parts;
            high1 = (if hd parts = [] then tl high else high);
            low1 = (if last parts = [] then butlast low else low)
        in if (hd parts = [] \<and> high1 \<noteq> []) \<or> (last parts = [] \<and> low1 \<noteq> []) \<or> length high1 + length low1 > 7 then None
           else Some (high1, 8 - (length high1 + length low1), low1)
      | _ \<Rightarrow> None)"

definition hex_text :: "int \<Rightarrow> string" where
  "hex_text n = map (\<lambda>k. hex_digit (nat (n div 16 ^ k mod 16))) [3, 2, 1, 0]"

definition v6_of :: "string \<Rightarrow> int option" where
  "v6_of s =
     (let parts = split_on CHR '':'' s in
      if length parts < 3 then None
      else (case dotted_tail parts of
              None \<Rightarrow> None
            | Some (ps, tail) \<Rightarrow>
              let all = (case tail of None \<Rightarrow> ps | Some n \<Rightarrow> ps @ [hex_text (n div 65536), hex_text (n mod 65536)])
              in if length all > 9 then None
                 else (case split_groups all of
                         None \<Rightarrow> None
                       | Some (high, skipped, low) \<Rightarrow>
                         (case hextets 0 high of None \<Rightarrow> None | Some h \<Rightarrow> hextets (h * 65536 ^ skipped) low))))"

text \<open>A scope after a percent sign is not part of the address.\<close>

definition scoped_v6 :: "string \<Rightarrow> int option" where
  "scoped_v6 s =
     (case split_on CHR ''%'' s of
        [a] \<Rightarrow> v6_of a
      | [a, scope] \<Rightarrow> if scope = [] then None else v6_of a
      | _ \<Rightarrow> None)"

definition ip_address :: "string \<Rightarrow> address option" where
  "ip_address s =
     (if CHR ''/'' \<in> set s then None
      else case v4_of s of Some n \<Rightarrow> Some (V4 n) | None \<Rightarrow> map_option V6 (scoped_v6 s))"

section \<open>Networks\<close>

text \<open>The network: its version, the length of its prefix, and the prefix as a number.\<close>

record network =
  nw_v4 :: bool
  nw_len :: nat
  nw_prefix :: int

definition net_of :: "bool \<Rightarrow> int \<Rightarrow> nat \<Rightarrow> network" where
  "net_of v4 n p = \<lparr>nw_v4 = v4, nw_len = p, nw_prefix = n div 2 ^ ((if v4 then 32 else 128) - p)\<rparr>"

definition prefix_digits :: "nat \<Rightarrow> string \<Rightarrow> nat option" where
  "prefix_digits w s = (if s \<noteq> [] \<and> list_all is_digit s \<and> digits_value s \<le> w then Some (digits_value s) else None)"

text \<open>A dotted mask is a netmask, else a host mask.\<close>

definition mask_value :: "nat \<Rightarrow> int" where
  "mask_value p = 2 ^ 32 - 2 ^ (32 - p)"

definition mask_len :: "int \<Rightarrow> nat option" where
  "mask_len m =
     (case find (\<lambda>p. mask_value p = m) [0..<33] of
        Some p \<Rightarrow> Some p
      | None \<Rightarrow> find (\<lambda>p. mask_value p = 2 ^ 32 - 1 - m) [0..<33])"

definition v4_prefix :: "string \<Rightarrow> nat option" where
  "v4_prefix s = (case prefix_digits 32 s of Some p \<Rightarrow> Some p | None \<Rightarrow> Option.bind (v4_of s) mask_len)"

definition ip_network :: "string \<Rightarrow> exn + network" where
  "ip_network s =
     (let parts = split_on CHR ''/'' s; a = hd parts; p = (if length parts = 1 then None else Some (parts ! 1));
          v4 = (case (v4_of a, case p of None \<Rightarrow> Some 32 | Some t \<Rightarrow> v4_prefix t) of
                  (Some n, Some k) \<Rightarrow> Some (net_of True n k) | _ \<Rightarrow> None);
          v6 = (case (scoped_v6 a, case p of None \<Rightarrow> Some 128 | Some t \<Rightarrow> prefix_digits 128 t) of
                  (Some n, Some k) \<Rightarrow> Some (net_of False n k) | _ \<Rightarrow> None)
      in case (if length parts > 2 then None else if v4 \<noteq> None then v4 else v6) of
           None \<Rightarrow> Inl (Exn ''ValueError'' (repr_str s @ '' does not appear to be an IPv4 or IPv6 network''))
         | Some n \<Rightarrow> Inr n)"

definition member_of :: "address \<Rightarrow> network \<Rightarrow> bool" where
  "member_of a n =
     (case a of
        V4 x \<Rightarrow> nw_v4 n \<and> x div 2 ^ (32 - nw_len n) = nw_prefix n
      | V6 x \<Rightarrow> \<not> nw_v4 n \<and> x div 2 ^ (128 - nw_len n) = nw_prefix n)"

section \<open>The allow-list\<close>

fun allowed_networks :: "string list \<Rightarrow> exn + network list" where
  "allowed_networks [] = Inr []"
| "allowed_networks (v # vs) = bind_sum (ip_network v) (\<lambda>n. bind_sum (allowed_networks vs) (\<lambda>ns. Inr (n # ns)))"

definition unmapped :: "address \<Rightarrow> address" where
  "unmapped a = (case a of V6 x \<Rightarrow> if x div 2 ^ 32 = 0xFFFF then V4 (x mod 2 ^ 32) else V6 x | V4 x \<Rightarrow> V4 x)"

definition peer_allowed :: "string option \<Rightarrow> network list \<Rightarrow> bool" where
  "peer_allowed peer networks =
     (case Option.bind (if or_else peer [] = [] then None else peer) ip_address of
        None \<Rightarrow> False
      | Some a \<Rightarrow> list_ex (member_of (unmapped a)) networks)"

end
