(* ===== verification/Otlp.thy ===== *)
theory Otlp
  imports Ip_Net Http
begin

text \<open>
  \<open>ringdown/otlp.py\<close>: one OTLP/HTTP JSON export becomes events of the pipeline. Floats are the
  parameters of \<open>otlp_env\<close>: \<open>int\<close> of a float, \<open>float\<close> of a value and the instant of a number of
  nanoseconds; so is the clock. The text of a JSON error is not modelled.
\<close>

section \<open>Values\<close>

record otlp_env =
  oe_trunc :: "string \<Rightarrow> exn + int"
  oe_float :: "pyval \<Rightarrow> exn + string"
  oe_instant :: "int \<Rightarrow> exn + time"
  oe_now :: time

text \<open>\<open>try: a except ts: b\<close>.\<close>

definition catching :: "string list \<Rightarrow> exn + 'a \<Rightarrow> exn + 'a \<Rightarrow> exn + 'a" where
  "catching ts b a = (case a of Inl e \<Rightarrow> if exn_type e \<in> set ts then b else a | Inr x \<Rightarrow> a)"

text \<open>\<open>int(v)\<close>.\<close>

definition py_int :: "otlp_env \<Rightarrow> pyval \<Rightarrow> exn + int" where
  "py_int E v =
     (case v of
        PInt i \<Rightarrow> Inr i
      | PBool b \<Rightarrow> Inr (if b then 1 else 0)
      | PStr s \<Rightarrow> (case parse_int s of None \<Rightarrow> Inl (Exn ''ValueError'' ''invalid literal'') | Some i \<Rightarrow> Inr i)
      | PFloat r \<Rightarrow> oe_trunc E r
      | _ \<Rightarrow> Inl (Exn ''TypeError'' ''int''))"

text \<open>\<open>values[:256]\<close>: what a list or a text gives; anything else raises.\<close>

definition first_items :: "pyval \<Rightarrow> exn + pyval list" where
  "first_items v =
     (case v of
        PList xs \<Rightarrow> Inr (take 256 xs)
      | PStr s \<Rightarrow> Inr (map (\<lambda>c. PStr [c]) (take 256 s))
      | PDict d \<Rightarrow> Inl (Exn ''TypeError'' ''unhashable type'')
      | _ \<Rightarrow> Inl (Exn ''TypeError'' ''not subscriptable''))"

definition inner_values :: "pyval \<Rightarrow> pyval" where
  "inner_values v = (case v of PDict d \<Rightarrow> get_default d ''values'' (PList []) | _ \<Rightarrow> PList [])"

definition scalar_value :: "otlp_env \<Rightarrow> dict \<Rightarrow> (exn + pyval) option" where
  "scalar_value E d =
     (case map_of d ''stringValue'' of Some v \<Rightarrow> Some (Inr (PStr (scalar_text v))) | None \<Rightarrow>
     (case map_of d ''boolValue'' of Some v \<Rightarrow> Some (Inr (PBool (truthy v))) | None \<Rightarrow>
     (case map_of d ''intValue'' of
        Some v \<Rightarrow> Some (catching [''TypeError'', ''ValueError''] (Inr (PStr (scalar_text v)))
          (bind_sum (py_int E v) (\<lambda>i. Inr (if - (2 ^ 63) \<le> i \<and> i < 2 ^ 63 then PInt i else PStr (int_text i)))))
      | None \<Rightarrow>
     (case map_of d ''doubleValue'' of
        Some v \<Rightarrow> Some (catching [''TypeError'', ''ValueError''] (Inr PNone) (bind_sum (oe_float E v) (\<lambda>r. Inr (PFloat r))))
      | None \<Rightarrow>
     (case map_of d ''bytesValue'' of Some v \<Rightarrow> Some (Inr (PStr (scalar_text v))) | None \<Rightarrow> None)))))"

text \<open>
  \<open>_any_value\<close> and \<open>_attributes\<close>. They call each other one level deeper and give up below level 8, which
  is what bounds the recursion on a hostile payload.
\<close>

function any_value :: "otlp_env \<Rightarrow> nat \<Rightarrow> pyval \<Rightarrow> exn + pyval"
and any_values :: "otlp_env \<Rightarrow> nat \<Rightarrow> pyval list \<Rightarrow> exn + pyval list"
and attribute_items :: "otlp_env \<Rightarrow> nat \<Rightarrow> pyval list \<Rightarrow> dict \<Rightarrow> exn + dict" where
  "any_value E depth v =
     (case v of
        PDict d \<Rightarrow>
          if depth > 8 then Inr PNone
          else (case scalar_value E d of Some r \<Rightarrow> r | None \<Rightarrow>
               (case map_of d ''arrayValue'' of
                  Some a \<Rightarrow>
                    (case first_items (inner_values a) of
                       Inl e \<Rightarrow> Inl e
                     | Inr xs \<Rightarrow> (case any_values E (Suc depth) xs of Inl e \<Rightarrow> Inl e | Inr ys \<Rightarrow> Inr (PList ys)))
                | None \<Rightarrow>
               (case map_of d ''kvlistValue'' of
                  Some a \<Rightarrow>
                    (case (case inner_values a of PList xs \<Rightarrow> attribute_items E (Suc depth) (take 256 xs) [] | _ \<Rightarrow> Inr []) of
                       Inl e \<Rightarrow> Inl e | Inr kv \<Rightarrow> Inr (PDict kv))
                | None \<Rightarrow> Inr PNone)))
      | _ \<Rightarrow> Inr PNone)"
| "any_values E depth [] = Inr []"
| "any_values E depth (x # xs) =
     (case any_value E depth x of
        Inl e \<Rightarrow> Inl e
      | Inr y \<Rightarrow> (case any_values E depth xs of Inl e \<Rightarrow> Inl e | Inr ys \<Rightarrow> Inr (y # ys)))"
| "attribute_items E depth [] acc = Inr acc"
| "attribute_items E depth (x # xs) acc =
     (case x of
        PDict d \<Rightarrow>
          (case map_of d ''key'' of
             None \<Rightarrow> attribute_items E depth xs acc
           | Some k \<Rightarrow>
             (case any_value E depth (dict_get d ''value'') of
                Inl e \<Rightarrow> Inl e
              | Inr y \<Rightarrow> attribute_items E depth xs (dict_set acc (take 512 (scalar_text k)) y)))
      | _ \<Rightarrow> attribute_items E depth xs acc)"
  by pat_completeness auto

termination
  by (relation "inv_image (less_than <*lex*> less_than)
       (\<lambda>a. case a of Inl (E, depth, v) \<Rightarrow> (9 - depth, 0) | Inr (Inl (E, depth, xs)) \<Rightarrow> (9 - depth, Suc (length xs))
          | Inr (Inr (E, depth, xs, acc)) \<Rightarrow> (9 - depth, Suc (length xs)))") auto

declare any_value.simps [simp del]

definition attributes_of :: "otlp_env \<Rightarrow> nat \<Rightarrow> pyval \<Rightarrow> exn + dict" where
  "attributes_of E depth v = (case v of PList xs \<Rightarrow> attribute_items E depth (take 256 xs) [] | _ \<Rightarrow> Inr [])"

section \<open>Records\<close>

definition envelope_error :: "string \<Rightarrow> exn + 'a" where
  "envelope_error msg = Inl (Exn ''OtlpPayloadError'' msg)"

text \<open>\<open>_timestamp\<close>.\<close>

definition timestamp_of :: "otlp_env \<Rightarrow> dict \<Rightarrow> exn + time" where
  "timestamp_of E record =
     (let raw = (if truthy (dict_get record ''timeUnixNano'') then dict_get record ''timeUnixNano''
                 else dict_get record ''observedTimeUnixNano'')
      in catching [''TypeError'', ''ValueError'', ''OSError'', ''OverflowError''] (Inr (oe_now E))
           (bind_sum (py_int E raw) (\<lambda>ns. if ns > 0 then oe_instant E ns else Inr (oe_now E))))"

text \<open>\<open>_text\<close>.\<close>

definition text_of :: "pyval \<Rightarrow> nat \<Rightarrow> string option" where
  "text_of v limit = (if v = PNone then None else Some (take limit (scalar_text v)))"

definition severity_of :: "otlp_env \<Rightarrow> dict \<Rightarrow> exn + int option" where
  "severity_of E record =
     catching [''TypeError'', ''ValueError''] (Inr None)
       (bind_sum (py_int E (get_default record ''severityNumber'' (PInt 0))) (\<lambda>n. Inr (if 1 \<le> n \<and> n \<le> 24 then Some n else None)))"

definition body_text :: "pyval \<Rightarrow> string" where
  "body_text v = (case v of PStr s \<Rightarrow> s | _ \<Rightarrow> json_dumps False False v)"

definition ingress_attributes :: "dict \<Rightarrow> dict \<Rightarrow> dict \<Rightarrow> string \<Rightarrow> dict \<Rightarrow> dict" where
  "ingress_attributes record_attrs resource_attrs scope_attrs peer record =
     dict_merge (dict_merge record_attrs
         [(''resource'', PDict resource_attrs), (''scope'', PDict scope_attrs),
          (''ringdown.ingress'', PStr ''otlp/http-json''), (''ringdown.peer.ip'', PStr peer)])
       (List.map_filter (\<lambda>k. if dict_get record k = PNone then None else Some (''otel.'' @ k, dict_get record k))
          [''traceId'', ''spanId'', ''flags''])"

definition record_event :: "otlp_env \<Rightarrow> string \<Rightarrow> dict \<Rightarrow> dict \<Rightarrow> dict \<Rightarrow> exn + event" where
  "record_event E peer resource_attrs scope_attrs record =
     bind_sum (attributes_of E 0 (get_default record ''attributes'' (PList []))) (\<lambda>record_attrs.
     bind_sum (any_value E 0 (get_default record ''body'' (PDict []))) (\<lambda>body.
     bind_sum (severity_of E record) (\<lambda>severity.
     bind_sum (timestamp_of E record) (\<lambda>ts.
     Inr \<lparr>ev_ts = Ts_Time ts,
       ev_source = Some (or_else (text_of (dict_get resource_attrs ''host.name'') 255)
                     (or_else (text_of (dict_get resource_attrs ''service.instance.id'') 255) peer)),
       ev_facility = text_of (dict_get record_attrs ''log.syslog.facility.name'') 64,
       ev_severity = severity,
       ev_severity_text = text_of (dict_get record ''severityText'') 64,
       ev_program = Some (or_else (text_of (dict_get resource_attrs ''service.name'') 255)
                      (or_else (text_of (dict_get scope_attrs ''name'') 255) ''otlp'')),
       ev_body = Some (take 64000 (body_text body)),
       ev_attributes = PDict (ingress_attributes record_attrs resource_attrs scope_attrs peer record),
       ev_raw = Some (take 64000 (json_dumps False False (PDict record)))\<rparr>))))"

section \<open>The envelope\<close>

fun add_records :: "otlp_env \<Rightarrow> string \<Rightarrow> int \<Rightarrow> dict \<Rightarrow> dict \<Rightarrow> pyval list \<Rightarrow> event list \<Rightarrow> exn + event list" where
  "add_records E peer max_records ra sa [] events = Inr events"
| "add_records E peer max_records ra sa (r # rs) events =
     (if int (length events) \<ge> max_records then envelope_error (''request exceeds '' @ int_text max_records @ '' log records'')
      else (case r of
              PDict record \<Rightarrow> bind_sum (record_event E peer ra sa record) (\<lambda>ev. add_records E peer max_records ra sa rs (events @ [ev]))
            | _ \<Rightarrow> envelope_error ''logRecords entries must be objects''))"

definition scope_attributes :: "otlp_env \<Rightarrow> pyval \<Rightarrow> exn + dict" where
  "scope_attributes E scope =
     (case scope of
        PDict d \<Rightarrow>
          bind_sum (attributes_of E 0 (get_default d ''attributes'' (PList []))) (\<lambda>attrs.
          Inr (dict_merge (List.map_filter (\<lambda>k. map_option (\<lambda>t. (k, PStr t)) (text_of (dict_get d k) 512)) [''name'', ''version'']) attrs))
      | _ \<Rightarrow> Inr [])"

fun add_scopes :: "otlp_env \<Rightarrow> string \<Rightarrow> int \<Rightarrow> dict \<Rightarrow> pyval list \<Rightarrow> event list \<Rightarrow> exn + event list" where
  "add_scopes E peer max_records ra [] events = Inr events"
| "add_scopes E peer max_records ra (g # gs) events =
     (case g of
        PDict d \<Rightarrow>
          bind_sum (scope_attributes E (get_default d ''scope'' (PDict []))) (\<lambda>sa.
            (case get_default d ''logRecords'' (PList []) of
               PList rs \<Rightarrow> bind_sum (add_records E peer max_records ra sa rs events) (add_scopes E peer max_records ra gs)
             | _ \<Rightarrow> envelope_error ''logRecords must be an array''))
      | _ \<Rightarrow> envelope_error ''scopeLogs entries must be objects'')"

definition resource_attributes :: "otlp_env \<Rightarrow> pyval \<Rightarrow> exn + dict" where
  "resource_attributes E resource =
     attributes_of E 0 (case resource of PDict d \<Rightarrow> get_default d ''attributes'' (PList []) | _ \<Rightarrow> PList [])"

fun add_resources :: "otlp_env \<Rightarrow> string \<Rightarrow> int \<Rightarrow> pyval list \<Rightarrow> event list \<Rightarrow> exn + event list" where
  "add_resources E peer max_records [] events = Inr events"
| "add_resources E peer max_records (g # gs) events =
     (case g of
        PDict d \<Rightarrow>
          bind_sum (resource_attributes E (get_default d ''resource'' (PDict []))) (\<lambda>ra.
            (case get_default d ''scopeLogs'' (PList []) of
               PList ss \<Rightarrow> bind_sum (add_scopes E peer max_records ra ss events) (add_resources E peer max_records gs)
             | _ \<Rightarrow> envelope_error ''scopeLogs must be an array''))
      | _ \<Rightarrow> envelope_error ''resourceLogs entries must be objects'')"

definition parse_otlp_json :: "otlp_env \<Rightarrow> pyval \<Rightarrow> string \<Rightarrow> int \<Rightarrow> exn + event list" where
  "parse_otlp_json E payload peer max_records =
     (case payload of
        PDict d \<Rightarrow>
          (case get_default d ''resourceLogs'' (PList []) of
             PList groups \<Rightarrow> add_resources E peer max_records groups []
           | _ \<Rightarrow> envelope_error ''resourceLogs must be an array'')
      | _ \<Rightarrow> envelope_error ''top-level OTLP payload must be an object'')"

section \<open>The endpoint\<close>

text \<open>
  The collector's queue holds lines with their peer and parsed events; \<open>oq_max = 0\<close> is a queue without
  bound. A request's body comes in chunks of bytes; \<open>oq_decode\<close> is how \<open>json.loads\<close> finds the encoding.
\<close>

datatype queue_item = Line string "string option" | Parsed event

record otlp_config =
  oc_networks :: "network list"
  oc_max_body :: int
  oc_max_records :: int
  oc_queue_max :: nat
  oc_decode :: "string \<Rightarrow> exn + string"
  oc_float :: "string \<Rightarrow> string"

record otlp_request =
  rq_peer :: "string option"
  rq_content_type :: string
  rq_content_length :: string
  rq_chunks :: "string list"

record otlp_reply =
  rp_status :: int
  rp_body :: dict
  rp_retry_after :: bool

definition answer :: "int \<Rightarrow> string \<Rightarrow> otlp_reply" where
  "answer status msg = \<lparr>rp_status = status, rp_body = [(''error'', PStr msg)], rp_retry_after = False\<rparr>"

fun read_body :: "int \<Rightarrow> string list \<Rightarrow> string \<Rightarrow> string option" where
  "read_body cap [] body = Some body"
| "read_body cap (c # cs) body = (if int (length (body @ c)) > cap then None else read_body cap cs (body @ c))"

definition declared_length :: "otlp_request \<Rightarrow> int option" where
  "declared_length rq = (if rq_content_length rq = [] then Some 0 else parse_int (rq_content_length rq))"

definition export_logs :: "otlp_env \<Rightarrow> otlp_config \<Rightarrow> otlp_request \<Rightarrow> queue_item list \<Rightarrow> (exn + otlp_reply) \<times> queue_item list" where
  "export_logs E C rq queue =
     (if \<not> peer_allowed (rq_peer rq) (oc_networks C) then (Inr (answer 403 ''source network is not trusted''), queue)
      else if py_lower (strip (before_char CHR '';'' (rq_content_type rq))) \<noteq> ''application/json''
      then (Inr (answer 415 ''only OTLP/HTTP JSON is enabled''), queue)
      else case declared_length rq of
        None \<Rightarrow> (Inr (answer 400 ''invalid content-length''), queue)
      | Some declared \<Rightarrow>
        if declared > oc_max_body C then (Inr (answer 413 ''OTLP request body is too large''), queue)
        else (case read_body (oc_max_body C) (rq_chunks rq) [] of
          None \<Rightarrow> (Inr (answer 413 ''OTLP request body is too large''), queue)
        | Some body \<Rightarrow>
          (case bind_sum (oc_decode C body) (\<lambda>txt. bind_sum (json_loads (oc_float C) txt) (\<lambda>payload.
                  parse_otlp_json E payload (or_else (rq_peer rq) ''unknown'') (oc_max_records C))) of
             Inl e \<Rightarrow>
               if exn_type e \<in> {''JSONDecodeError'', ''UnicodeDecodeError'', ''OtlpPayloadError''}
               then (Inr (answer 400 (exn_msg e)), queue) else (Inl e, queue)
           | Inr events \<Rightarrow>
             let available = (if oc_queue_max C \<noteq> 0 then int (oc_queue_max C) - int (length queue) else int (length events))
             in if int (length events) > available
                then (Inr ((answer 503 ''collector queue is full; retry later'')\<lparr>rp_retry_after := True\<rparr>), queue)
                else (Inr \<lparr>rp_status = 200, rp_body = [], rp_retry_after = False\<rparr>, queue @ map Parsed events))))"

definition health :: "otlp_config \<Rightarrow> otlp_request \<Rightarrow> queue_item list \<Rightarrow> otlp_reply" where
  "health C rq queue =
     (if \<not> peer_allowed (rq_peer rq) (oc_networks C) then answer 403 ''source network is not trusted''
      else \<lparr>rp_status = 200, rp_body = [(''status'', PStr ''ok''), (''queueDepth'', PInt (int (length queue)))], rp_retry_after = False\<rparr>)"

section \<open>All or nothing\<close>

lemma read_body_Some: "read_body cap cs b = Some body \<Longrightarrow> int (length b) \<le> cap \<Longrightarrow> body = b @ concat cs \<and> int (length body) \<le> cap"
  by (induction cap cs b rule: read_body.induct) (auto split: if_splits)

lemma read_body_fits: "int (length (b @ concat cs)) \<le> cap \<Longrightarrow> read_body cap cs b = Some (b @ concat cs)"
proof (induction cap cs b rule: read_body.induct)
  case (2 cap c cs b) then show ?case by auto
qed simp

text \<open>What an event of this ingress looks like, whatever was sent.\<close>

definition event_bounded :: "string \<Rightarrow> event \<Rightarrow> bool" where
  "event_bounded peer ev =
     (length (or_else (ev_body ev) []) \<le> 64000 \<and> length (or_else (ev_raw ev) []) \<le> 64000
      \<and> (\<exists>src. ev_source ev = Some src \<and> (src = peer \<or> (src \<noteq> [] \<and> length src \<le> 255)))
      \<and> (\<exists>prog. ev_program ev = Some prog \<and> prog \<noteq> [] \<and> length prog \<le> 255)
      \<and> (case ev_severity ev of None \<Rightarrow> True | Some n \<Rightarrow> 1 \<le> n \<and> n \<le> 24)
      \<and> length (or_else (ev_severity_text ev) []) \<le> 64 \<and> length (or_else (ev_facility ev) []) \<le> 64)"

lemma text_of_length: "length (or_else (text_of v n) []) \<le> n"
  by (simp add: text_of_def or_else_def)

lemma or_else_text: "or_else (text_of v n) d = d \<or> (or_else (text_of v n) d \<noteq> [] \<and> length (or_else (text_of v n) d) \<le> n)"
  by (auto simp: text_of_def or_else_def)

lemma severity_of_range: "severity_of E record = Inr (Some n) \<Longrightarrow> 1 \<le> n \<and> n \<le> 24"
  by (auto simp: severity_of_def catching_def bind_sum_def split: sum.splits if_splits)

lemma two_texts:
  "or_else (text_of v n) (or_else (text_of w n) d) = d
   \<or> (or_else (text_of v n) (or_else (text_of w n) d) \<noteq> [] \<and> length (or_else (text_of v n) (or_else (text_of w n) d)) \<le> n)"
  by (metis or_else_text)

lemma record_event_bounded:
  assumes "record_event E peer ra sa record = Inr ev" shows "event_bounded peer ev"
proof -
  obtain sev ts body attrs where sev: "severity_of E record = Inr sev"
    and ev: "ev = \<lparr>ev_ts = Ts_Time ts,
       ev_source = Some (or_else (text_of (dict_get ra ''host.name'') 255) (or_else (text_of (dict_get ra ''service.instance.id'') 255) peer)),
       ev_facility = text_of (dict_get attrs ''log.syslog.facility.name'') 64, ev_severity = sev,
       ev_severity_text = text_of (dict_get record ''severityText'') 64,
       ev_program = Some (or_else (text_of (dict_get ra ''service.name'') 255) (or_else (text_of (dict_get sa ''name'') 255) ''otlp'')),
       ev_body = Some (take 64000 (body_text body)), ev_attributes = PDict (ingress_attributes attrs ra sa peer record),
       ev_raw = Some (take 64000 (json_dumps False False (PDict record)))\<rparr>"
    using assms by (auto simp: record_event_def)
  have range: "case sev of None \<Rightarrow> True | Some n \<Rightarrow> 1 \<le> n \<and> n \<le> 24"
    using sev severity_of_range by (auto split: option.split)
  show ?thesis
    using range two_texts[of "dict_get ra ''host.name''" 255 "dict_get ra ''service.instance.id''" peer]
      two_texts[of "dict_get ra ''service.name''" 255 "dict_get sa ''name''" "''otlp''"]
    by (auto simp: event_bounded_def ev text_of_length)
qed

lemma list_case: "(case v of PList xs \<Rightarrow> f xs | _ \<Rightarrow> envelope_error m) = Inr y \<longleftrightarrow> (\<exists>xs. v = PList xs \<and> f xs = Inr y)"
  by (cases v) (auto simp: envelope_error_def)

definition collected :: "string \<Rightarrow> int \<Rightarrow> event list \<Rightarrow> bool" where
  "collected peer max_records events = (list_all (event_bounded peer) events \<and> int (length events) \<le> max 0 max_records)"

lemma add_records_collected:
  "add_records E peer m ra sa rs evs = Inr evs' \<Longrightarrow> collected peer m evs \<Longrightarrow> collected peer m evs'"
proof (induction rs arbitrary: evs)
  case (Cons r rs)
  then show ?case by (cases r) (auto simp: collected_def envelope_error_def dest!: record_event_bounded split: if_splits)
qed simp

lemma add_scopes_collected: "add_scopes E peer m ra gs evs = Inr evs' \<Longrightarrow> collected peer m evs \<Longrightarrow> collected peer m evs'"
proof (induction gs arbitrary: evs)
  case (Cons g gs)
  then show ?case
    by (cases g) (auto simp: list_case, simp_all add: envelope_error_def, blast dest: add_records_collected)
qed simp

lemma add_resources_collected: "add_resources E peer m gs evs = Inr evs' \<Longrightarrow> collected peer m evs \<Longrightarrow> collected peer m evs'"
proof (induction gs arbitrary: evs)
  case (Cons g gs)
  then show ?case
    by (cases g) (auto simp: list_case, simp_all add: envelope_error_def, blast dest: add_scopes_collected)
qed simp

lemma parse_collected: "parse_otlp_json E payload peer m = Inr events \<Longrightarrow> collected peer m events"
  by (auto simp: parse_otlp_json_def envelope_error_def collected_def split: pyval.split_asm dest: add_resources_collected)

text \<open>An outcome of the endpoint: taken whole, or nothing taken.\<close>

definition taken :: "otlp_config \<Rightarrow> otlp_request \<Rightarrow> queue_item list \<Rightarrow> (exn + otlp_reply) \<times> queue_item list \<Rightarrow> bool" where
  "taken C rq queue out =
     (\<exists>events. out = (Inr \<lparr>rp_status = 200, rp_body = [], rp_retry_after = False\<rparr>, queue @ map Parsed events)
      \<and> peer_allowed (rq_peer rq) (oc_networks C) \<and> int (length (concat (rq_chunks rq))) \<le> oc_max_body C
      \<and> int (length events) \<le> max 0 (oc_max_records C) \<and> list_all (event_bounded (or_else (rq_peer rq) ''unknown'')) events
      \<and> (oc_queue_max C = 0 \<or> events = [] \<or> length queue + length events \<le> oc_queue_max C))"

definition untouched :: "queue_item list \<Rightarrow> (exn + otlp_reply) \<times> queue_item list \<Rightarrow> bool" where
  "untouched queue out = (snd out = queue \<and> (\<forall>reply. fst out = Inr reply \<longrightarrow> rp_status reply \<in> {400, 403, 413, 415, 503}))"

definition whole :: "otlp_config \<Rightarrow> otlp_request \<Rightarrow> queue_item list \<Rightarrow> (exn + otlp_reply) \<times> queue_item list \<Rightarrow> bool" where
  "whole C rq queue out = (taken C rq queue out \<or> untouched queue out)"

lemma whole_if: "(c \<Longrightarrow> whole C rq q a) \<Longrightarrow> (\<not> c \<Longrightarrow> whole C rq q b) \<Longrightarrow> whole C rq q (if c then a else b)"
  by simp

lemma whole_option:
  "(x = None \<Longrightarrow> whole C rq q a) \<Longrightarrow> (\<And>y. x = Some y \<Longrightarrow> whole C rq q (f y)) \<Longrightarrow> whole C rq q (case x of None \<Rightarrow> a | Some y \<Rightarrow> f y)"
  by (simp split: option.split)

lemma whole_sum:
  "(\<And>e. x = Inl e \<Longrightarrow> whole C rq q (g e)) \<Longrightarrow> (\<And>y. x = Inr y \<Longrightarrow> whole C rq q (f y))
   \<Longrightarrow> whole C rq q (case x of Inl e \<Rightarrow> g e | Inr y \<Rightarrow> f y)"
  by (simp split: sum.split)

lemma whole_error:
  "whole C rq q (Inr (answer 403 m), q)" "whole C rq q (Inr (answer 415 m), q)" "whole C rq q (Inr (answer 400 m), q)"
  "whole C rq q (Inr (answer 413 m), q)" "whole C rq q (Inr ((answer 503 m)\<lparr>rp_retry_after := b\<rparr>), q)" "whole C rq q (Inl e, q)"
  by (simp_all add: whole_def untouched_def answer_def)

lemma export_logs_whole:
  assumes "0 \<le> oc_max_body C" shows "whole C rq queue (export_logs E C rq queue)"
  unfolding export_logs_def Let_def
proof (intro whole_if whole_option whole_sum whole_error)
  fix declared body events
  assume peer: "\<not> \<not> peer_allowed (rq_peer rq) (oc_networks C)"
    and body: "read_body (oc_max_body C) (rq_chunks rq) [] = Some body"
    and parsed: "bind_sum (oc_decode C body) (\<lambda>txt. bind_sum (json_loads (oc_float C) txt) (\<lambda>payload.
                  parse_otlp_json E payload (or_else (rq_peer rq) ''unknown'') (oc_max_records C))) = Inr events"
    and room: "\<not> int (length events) > (if oc_queue_max C \<noteq> 0 then int (oc_queue_max C) - int (length queue) else int (length events))"
  have "collected (or_else (rq_peer rq) ''unknown'') (oc_max_records C) events" using parsed parse_collected by auto
  moreover have "int (length (concat (rq_chunks rq))) \<le> oc_max_body C"
    using read_body_Some[OF body] assms by (auto simp del: length_concat)
  moreover have "oc_queue_max C = 0 \<or> events = [] \<or> length queue + length events \<le> oc_queue_max C" using room by (auto split: if_splits)
  ultimately show "whole C rq queue (Inr \<lparr>rp_status = 200, rp_body = [], rp_retry_after = False\<rparr>, queue @ map Parsed events)"
    using peer by (auto simp: whole_def taken_def collected_def simp del: length_concat)
qed


definition demo_otlp :: otlp_env where
  "demo_otlp = \<lparr>oe_trunc = (\<lambda>r. Inl (Exn ''OverflowError'' [])), oe_float = (\<lambda>v. Inl (Exn ''TypeError'' [])),
     oe_instant = (\<lambda>ns. Inr (ns div 1000)), oe_now = 0\<rparr>"

definition demo_endpoint :: otlp_config where
  "demo_endpoint = \<lparr>oc_networks = [net_of True 0x7F000000 8], oc_max_body = 1048576, oc_max_records = 5000, oc_queue_max = 10,
     oc_decode = Inr, oc_float = id\<rparr>"

definition demo_post :: "string \<Rightarrow> otlp_request" where
  "demo_post body = \<lparr>rq_peer = Some ''127.0.0.1'', rq_content_type = ''application/json; charset=utf-8'', rq_content_length = [],
     rq_chunks = [take 7 body, drop 7 body]\<rparr>"

definition demo_export :: pyval where
  "demo_export = PDict [(''resourceLogs'', PList [PDict [(''scopeLogs'', PList [PDict [(''logRecords'',
     PList [PDict [(''body'', PDict [(''stringValue'', PStr ''hi'')]), (''severityNumber'', PInt 17)]])]])]])]"

definition demo_log :: string where
  "demo_log = json_dumps True False demo_export"

lemma demo_log_read: "json_loads id demo_log = Inr demo_export" "read_body 1048576 (rq_chunks (demo_post demo_log)) [] = Some demo_log"
proof -
  show "json_loads id demo_log = Inr demo_export" unfolding demo_log_def by (rule loads_dumps) (simp add: demo_export_def)
  have "int (length ([] @ concat (rq_chunks (demo_post demo_log)))) \<le> 1048576" by code_simp
  from read_body_fits[OF this] show "read_body 1048576 (rq_chunks (demo_post demo_log)) [] = Some demo_log"
    by (simp add: demo_post_def)
qed

lemma demo_peer: "peer_allowed (Some ''127.0.0.1'') [net_of True 0x7F000000 8]"
  by code_simp

lemma demo_headers: "py_lower (strip (before_char CHR '';'' ''application/json; charset=utf-8'')) = ''application/json''"
  by code_simp

lemma demo_parsed: "\<exists>ev. parse_otlp_json demo_otlp demo_export ''127.0.0.1'' 5000 = Inr [ev] \<and> ev_severity ev = Some 17"
proof -
  let ?r = "[(''body'', PDict [(''stringValue'', PStr ''hi'')]), (''severityNumber'', PInt 17)]"
  have "attributes_of demo_otlp 0 (PList []) = Inr []" by (simp add: attributes_of_def)
  moreover have "any_value demo_otlp 0 (PDict [(''stringValue'', PStr ''hi'')]) = Inr (PStr ''hi'')"
    by (simp add: any_value.simps scalar_value_def)
  moreover have "severity_of demo_otlp ?r = Inr (Some 17)" by (simp add: severity_of_def get_default_def py_int_def catching_def)
  moreover have "timestamp_of demo_otlp ?r = Inr 0" by (simp add: timestamp_of_def dict_get_def py_int_def catching_def demo_otlp_def)
  ultimately have "\<exists>ev. record_event demo_otlp ''127.0.0.1'' [] [] ?r = Inr ev \<and> ev_severity ev = Some 17"
    by (simp add: record_event_def get_default_def)
  then show ?thesis
    by (auto simp: parse_otlp_json_def demo_export_def get_default_def resource_attributes_def scope_attributes_def attributes_of_def
      dict_get_def text_of_def List.map_filter_simps dict_merge_def)
qed

lemma demo_exported:
  "\<exists>ev. export_logs demo_otlp demo_endpoint (demo_post demo_log) [] = (Inr \<lparr>rp_status = 200, rp_body = [], rp_retry_after = False\<rparr>, [Parsed ev])
     \<and> ev_severity ev = Some 17"
proof -
  obtain ev where ev: "parse_otlp_json demo_otlp demo_export ''127.0.0.1'' 5000 = Inr [ev]" "ev_severity ev = Some 17"
    using demo_parsed by blast
  have rq: "rq_peer (demo_post demo_log) = Some ''127.0.0.1''" "rq_content_type (demo_post demo_log) = ''application/json; charset=utf-8''"
    "declared_length (demo_post demo_log) = Some 0" by (simp_all add: demo_post_def declared_length_def)
  show ?thesis using demo_log_read(1) demo_log_read(2) demo_peer demo_headers ev
    by (simp add: export_logs_def rq demo_endpoint_def)
qed


end
