(* ===== verification/Netdata.thy ===== *)
theory Netdata
  imports Otlp
begin

text \<open>
  \<open>integrations/netdata_ringdown_otlp.py\<close>: a Netdata health transition as one OTLP record. What
  \<open>int(float(s) * 1e9)\<close> gives, the clock and the delivery are parameters. Of the model's
  characters, the micro sign and y with diaeresis have capitals outside it and are kept.
\<close>

section \<open>The payload\<close>

definition fields :: "string list" where
  "fields = [''recipient'', ''host'', ''name'', ''chart'', ''status'', ''old_status'', ''value'',
     ''units'', ''classification'', ''context'', ''component'', ''type'', ''alarm_id'',
     ''event_id'', ''transition_id'', ''when'', ''value_string'']"

definition netdata_severity :: "string \<Rightarrow> int" where
  "netdata_severity status = (if status = ''CLEAR'' then 9 else if status = ''WARNING'' then 13 else if status = ''CRITICAL'' then 18 else 9)"

definition upper_char :: "char \<Rightarrow> string" where
  "upper_char c =
     (let n = code_point c in
      if (97 \<le> n \<and> n \<le> 122) \<or> (224 \<le> n \<and> n \<le> 254 \<and> n \<noteq> 247) then [char_of (n - 32)]
      else if n = 223 then ''SS'' else [c])"

definition py_upper :: "string \<Rightarrow> string" where
  "py_upper s = concat (map upper_char s)"

definition string_value :: "string \<Rightarrow> pyval" where
  "string_value v = PDict [(''stringValue'', PStr (take 4096 v))]"

definition attribute :: "string \<Rightarrow> string \<Rightarrow> pyval" where
  "attribute k v = PDict [(''key'', PStr k), (''value'', string_value v)]"

definition attribute_fields :: "(string \<times> string) list" where
  "attribute_fields =
     [(''netdata.recipient'', ''recipient''), (''netdata.alarm.name'', ''name''), (''netdata.chart'', ''chart''),
      (''netdata.status'', ''status''), (''netdata.old_status'', ''old_status''), (''netdata.value'', ''value''),
      (''netdata.units'', ''units''), (''netdata.class'', ''classification''), (''netdata.context'', ''context''),
      (''netdata.component'', ''component''), (''netdata.type'', ''type''), (''netdata.alarm.id'', ''alarm_id''),
      (''netdata.event.id'', ''event_id''), (''netdata.transition.id'', ''transition_id'')]"

text \<open>The text of a field; a missing one is like an empty one everywhere.\<close>

definition field :: "string list \<Rightarrow> string \<Rightarrow> string" where
  "field arguments f = or_else (map_of (zip fields arguments) f) []"

definition or_text :: "string \<Rightarrow> string \<Rightarrow> string" where
  "or_text s d = (if s = [] then d else s)"

definition status_of :: "string list \<Rightarrow> string" where
  "status_of arguments = py_upper (or_text (field arguments ''status'') ''UNKNOWN'')"

definition display_value :: "string list \<Rightarrow> string" where
  "display_value arguments =
     or_text (field arguments ''value_string'')
       (join '' '' (filter (\<lambda>p. p \<noteq> []) [field arguments ''value'', field arguments ''units'']))"

definition alarm_body :: "string list \<Rightarrow> string" where
  "alarm_body arguments =
     ''Netdata alarm '' @ or_text (field arguments ''name'') ''unknown'' @ '' ''
     @ py_upper (or_text (field arguments ''old_status'') ''UNKNOWN'') @ '' -> '' @ status_of arguments
     @ '' on '' @ or_text (field arguments ''chart'') ''unknown''
     @ (if display_value arguments = [] then [] else '': '' @ display_value arguments)"

definition alarm_attributes :: "string list \<Rightarrow> (string \<times> string) list" where
  "alarm_attributes arguments =
     (''event'', ''netdata.alarm'')
     # List.map_filter (\<lambda>(k, f). if field arguments f = [] then None else Some (k, field arguments f)) attribute_fields"

definition alarm_time :: "(string \<Rightarrow> exn + int) \<Rightarrow> string list \<Rightarrow> int \<Rightarrow> exn + int" where
  "alarm_time nanos arguments now_ns =
     catching [''TypeError'', ''ValueError'', ''OverflowError''] (Inr now_ns) (nanos (field arguments ''when''))"

definition alarm_host :: "string list \<Rightarrow> string" where
  "alarm_host arguments = or_text (field arguments ''host'') ''unknown-netdata-host''"

definition alarm_record :: "string list \<Rightarrow> int \<Rightarrow> int \<Rightarrow> dict" where
  "alarm_record arguments timestamp_ns observed_ns =
     [(''timeUnixNano'', PStr (int_text timestamp_ns)), (''observedTimeUnixNano'', PStr (int_text observed_ns)),
      (''severityNumber'', PInt (netdata_severity (status_of arguments))), (''severityText'', PStr (status_of arguments)),
      (''body'', string_value (alarm_body arguments)),
      (''attributes'', PList (map (\<lambda>(k, v). attribute k v) (alarm_attributes arguments)))]"

definition alarm_payload :: "string list \<Rightarrow> dict \<Rightarrow> pyval" where
  "alarm_payload arguments record =
     PDict [(''resourceLogs'', PList [PDict [
       (''resource'', PDict [(''attributes'', PList [attribute ''service.name'' ''netdata'',
          attribute ''service.instance.id'' (alarm_host arguments), attribute ''host.name'' (alarm_host arguments)])]),
       (''scopeLogs'', PList [PDict [(''scope'', PDict [(''name'', PStr ''netdata-health'')]), (''logRecords'', PList [PDict record])]])]])]"

definition build_payload :: "(string \<Rightarrow> exn + int) \<Rightarrow> string list \<Rightarrow> int \<Rightarrow> int \<Rightarrow> exn + pyval" where
  "build_payload nanos arguments now_ns observed_ns =
     bind_sum (alarm_time nanos arguments now_ns) (\<lambda>t. Inr (alarm_payload arguments (alarm_record arguments t observed_ns)))"

text \<open>\<open>main\<close>: the exit code, given the endpoint of the environment and how a POST of a text ends.\<close>

definition notify :: "(string \<Rightarrow> exn + int) \<Rightarrow> string \<Rightarrow> (string \<Rightarrow> string \<Rightarrow> exn + int) \<Rightarrow> string list \<Rightarrow> int \<Rightarrow> int \<Rightarrow> exn + int" where
  "notify nanos endpoint post arguments now_ns observed_ns =
     (if strip endpoint = [] then Inr 2
      else bind_sum (build_payload nanos arguments now_ns observed_ns) (\<lambda>payload.
           Inr (case post (strip endpoint) (json_dumps True False payload) of
                  Inl e \<Rightarrow> 1
                | Inr status \<Rightarrow> if status < 200 \<or> status \<ge> 300 then 1 else 0)))"

section \<open>Reading it back\<close>

lemma string_value_back: "depth \<le> 8 \<Longrightarrow> any_value E depth (string_value v) = Inr (PStr (take 4096 v))"
  by (simp add: any_value.simps string_value_def scalar_value_def)

lemma attribute_items_back:
  assumes "depth \<le> 8" "list_all (\<lambda>(k, v). length k \<le> 512) kvs"
  shows "attribute_items E depth (map (\<lambda>(k, v). attribute k v) kvs) acc = Inr (dict_merge acc (map (\<lambda>(k, v). (k, PStr (take 4096 v))) kvs))"
  using assms(2)
proof (induction kvs arbitrary: acc)
  case Nil then show ?case by (simp add: dict_merge_def)
next
  case (Cons kv kvs)
  obtain k v where kv: "kv = (k, v)" by force
  have len: "length k \<le> 512" using Cons.prems by (simp add: kv)
  have "attribute_items E depth (map (\<lambda>(k, v). attribute k v) (kv # kvs)) acc
      = attribute_items E depth (map (\<lambda>(k, v). attribute k v) kvs) (dict_set acc k (PStr (take 4096 v)))"
    using len by (simp add: kv attribute_def dict_get_def string_value_back[OF assms(1)])
  then show ?case using Cons.IH Cons.prems by (simp add: kv dict_merge_def)
qed

lemma dict_merge_fresh: "distinct (map fst kvs) \<Longrightarrow> fst ` set kvs \<inter> fst ` set acc = {} \<Longrightarrow> dict_merge acc kvs = acc @ kvs"
proof (induction kvs arbitrary: acc)
  case Nil then show ?case by (simp add: dict_merge_def)
next
  case (Cons kv kvs)
  obtain k v where kv: "kv = (k, v)" by force
  have "k \<notin> fst ` set acc" using Cons.prems(2) by (auto simp: kv)
  then have "dict_set acc k v = acc @ [(k, v)]" by (rule dict_set_fresh)
  then have "dict_merge acc (kv # kvs) = dict_merge (acc @ [(k, v)]) kvs" by (simp add: dict_merge_def kv)
  moreover have "fst ` set kvs \<inter> fst ` set (acc @ [(k, v)]) = {}" using Cons.prems by (auto simp: kv)
  ultimately show ?case using Cons.IH Cons.prems(1) by (simp add: kv)
qed

lemma alarm_keys: "set (map fst (alarm_attributes args)) \<subseteq> set (''event'' # map fst attribute_fields) \<and> distinct (map fst (alarm_attributes args))
  \<and> length (alarm_attributes args) \<le> 15"
proof -
  let ?g = "\<lambda>(k, f). if field args f = [] then None else Some (k, field args f)"
  have keys: "map fst (List.map_filter ?g kfs) = map fst (filter (\<lambda>(k, f). field args f \<noteq> []) kfs)" for kfs
    by (induction kfs) (auto simp: List.map_filter_simps)
  have k: "map fst (alarm_attributes args) = ''event'' # map fst (filter (\<lambda>(k, f). field args f \<noteq> []) attribute_fields)"
    by (simp add: alarm_attributes_def keys)
  have d: "distinct (map fst attribute_fields)" "''event'' \<notin> set (map fst attribute_fields)" "length attribute_fields = 14"
    by code_simp+
  have "length (alarm_attributes args) = Suc (length (filter (\<lambda>(k, f). field args f \<noteq> []) attribute_fields))"
    using arg_cong[OF k, of length] by simp
  then show ?thesis
    unfolding k using d distinct_map_filter[OF d(1)] length_filter_le[of _ attribute_fields] by auto
qed

lemma alarm_key_lengths: "list_all (\<lambda>(k, v). length k \<le> 512) (alarm_attributes args)"
proof -
  have "list_all (\<lambda>k. length k \<le> 512) (''event'' # map fst attribute_fields)" by code_simp
  then show ?thesis using alarm_keys[of args] by (fastforce simp: list_all_iff)
qed

definition alarm_attrs :: "string list \<Rightarrow> dict" where
  "alarm_attrs args = map (\<lambda>(k, v). (k, PStr (take 4096 v))) (alarm_attributes args)"

lemma alarm_attributes_back:
  "attributes_of E 0 (PList (map (\<lambda>(k, v). attribute k v) (alarm_attributes args))) = Inr (alarm_attrs args)"
proof -
  have keys: "map fst (alarm_attrs args) = map fst (alarm_attributes args)" by (auto simp: alarm_attrs_def)
  have "distinct (map fst (alarm_attrs args))" using alarm_keys[of args] by (simp only: keys)
  then have "dict_merge [] (alarm_attrs args) = alarm_attrs args" using dict_merge_fresh[of "alarm_attrs args" "[]"] by simp
  then show ?thesis
    using alarm_keys[of args] attribute_items_back[OF _ alarm_key_lengths, of 0 E args "[]"]
    by (simp add: attributes_of_def alarm_attrs_def)
qed

lemma parse_int_text: "parse_int (int_text (int n)) = Some (int n)"
proof -
  have p: "digits_value (nat_digits n) = n" "nat_digits n \<noteq> []" "list_all is_digit (nat_digits n)" using nat_digits_props[of n] by auto
  have digits: "int_digits fresh acc ds = Some (foldl (\<lambda>a c. a * 10 + (code_point c - 48)) acc ds)"
    if "list_all is_digit ds" "ds \<noteq> [] \<or> \<not> fresh" for fresh acc ds
    using that by (induction ds arbitrary: fresh acc) auto
  have nosp: "\<not> is_space c" "c \<noteq> CHR ''-''" "c \<noteq> CHR ''+''" if "is_digit c" for c
    using that by (auto simp: is_digit_def is_space_def code_point_def)
  have "stripped (nat_digits n)" using p(2,3) nosp(1) by (auto simp: stripped_def list_all_iff)
  then have s: "strip (int_text (int n)) = nat_digits n" by (simp add: int_text_def strip_id)
  obtain c cs where c: "nat_digits n = c # cs" using p(2) by (cases "nat_digits n") auto
  have "int_digits True 0 (c # cs) = Some n" using digits[of "c # cs" True 0] p c by (simp add: digits_value_def)
  moreover have "c \<noteq> CHR ''-''" "c \<noteq> CHR ''+''" using nosp p(3) by (simp_all add: c)
  ultimately show ?thesis by (simp add: parse_int_def s c)
qed

definition alarm_resource :: "string list \<Rightarrow> dict" where
  "alarm_resource args = [(''service.name'', PStr ''netdata''), (''service.instance.id'', PStr (take 4096 (alarm_host args))),
     (''host.name'', PStr (take 4096 (alarm_host args)))]"

lemma alarm_resource_back:
  "attributes_of E 0 (PList [attribute ''service.name'' ''netdata'', attribute ''service.instance.id'' (alarm_host args),
     attribute ''host.name'' (alarm_host args)]) = Inr (alarm_resource args)"
  using attribute_items_back[of 0 "[(''service.name'', ''netdata''), (''service.instance.id'', alarm_host args), (''host.name'', alarm_host args)]" E "[]"]
  by (simp add: attributes_of_def alarm_resource_def dict_merge_def)

text \<open>The event of an alarm.\<close>

definition alarm_event :: "string \<Rightarrow> string list \<Rightarrow> dict \<Rightarrow> time \<Rightarrow> event" where
  "alarm_event peer args record t =
     \<lparr>ev_ts = Ts_Time t, ev_source = Some (take 255 (alarm_host args)), ev_facility = None,
      ev_severity = Some (netdata_severity (status_of args)), ev_severity_text = Some (take 64 (status_of args)),
      ev_program = Some ''netdata'', ev_body = Some (take 4096 (alarm_body args)),
      ev_attributes = PDict (ingress_attributes (alarm_attrs args) (alarm_resource args) [(''name'', PStr ''netdata-health'')] peer record),
      ev_raw = Some (take 64000 (json_dumps False False (PDict record)))\<rparr>"

lemma no_facility: "dict_get (alarm_attrs args) ''log.syslog.facility.name'' = PNone"
proof -
  have "''log.syslog.facility.name'' \<notin> set (''event'' # map fst attribute_fields)" by code_simp
  moreover have "map fst (alarm_attrs args) = map fst (alarm_attributes args)" by (auto simp: alarm_attrs_def)
  ultimately have "''log.syslog.facility.name'' \<notin> set (map fst (alarm_attrs args))" using alarm_keys[of args] by auto
  then have "map_of (alarm_attrs args) ''log.syslog.facility.name'' = None" by (simp add: map_of_eq_None_iff)
  then show ?thesis by (simp add: dict_get_def)
qed

lemma alarm_record_back:
  assumes "0 < ns" "oe_instant E ns = Inr t"
  shows "record_event E peer (alarm_resource args) [(''name'', PStr ''netdata-health'')] (alarm_record args ns obs)
    = Inr (alarm_event peer args (alarm_record args ns obs) t)"
proof -
  let ?r = "alarm_record args ns obs"
  have attrs: "attributes_of E 0 (get_default ?r ''attributes'' (PList [])) = Inr (alarm_attrs args)"
    using alarm_attributes_back[of E args] by (simp add: get_default_def alarm_record_def)
  have body: "any_value E 0 (get_default ?r ''body'' (PDict [])) = Inr (PStr (take 4096 (alarm_body args)))"
    using string_value_back[of 0 E "alarm_body args"] by (simp add: get_default_def alarm_record_def)
  have sev: "severity_of E ?r = Inr (Some (netdata_severity (status_of args)))"
    by (simp add: severity_of_def get_default_def alarm_record_def py_int_def catching_def netdata_severity_def)
  have nonempty: "int_text ns \<noteq> []" using assms(1) nat_digits_props[of "nat ns"] by (simp add: int_text_def)
  have "timestamp_of E ?r = Inr t"
    using assms nonempty parse_int_text[of "nat ns"]
    by (simp add: timestamp_of_def dict_get_def alarm_record_def py_int_def catching_def)
  moreover have "alarm_host args \<noteq> []" by (simp add: alarm_host_def or_text_def)
  ultimately show ?thesis
    by (simp add: record_event_def attrs body sev alarm_event_def no_facility text_of_def body_text_def)
      (simp add: alarm_resource_def dict_get_def alarm_record_def or_else_def)
qed

lemma alarm_parsed:
  assumes "0 < ns" "oe_instant E ns = Inr t" "1 \<le> max_records"
  shows "parse_otlp_json E (alarm_payload args (alarm_record args ns obs)) peer max_records
    = Inr [alarm_event peer args (alarm_record args ns obs) t]"
proof -
  have scope: "scope_attributes E (PDict [(''name'', PStr ''netdata-health'')]) = Inr [(''name'', PStr ''netdata-health'')]"
    by (simp add: scope_attributes_def get_default_def attributes_of_def dict_get_def text_of_def List.map_filter_simps dict_merge_def)
  show ?thesis
    using assms(3) alarm_record_back[OF assms(1,2), of peer args obs] alarm_resource_back[of E args]
    by (simp add: parse_otlp_json_def alarm_payload_def get_default_def resource_attributes_def scope)
qed

lemma alarm_json_ok: "json_ok (alarm_payload args (alarm_record args ns obs))"
  by (simp add: alarm_payload_def alarm_record_def attribute_def string_value_def list_all_iff split_beta)

text \<open>What the collector adds does not hide what the alarm says.\<close>

definition added_keys :: "string list" where
  "added_keys = [''resource'', ''scope'', ''ringdown.ingress'', ''ringdown.peer.ip'', ''otel.traceId'', ''otel.spanId'', ''otel.flags'']"

lemma ingress_key_kept:
  "k \<notin> set added_keys \<Longrightarrow> map_of (ingress_attributes attrs ra sa peer record) k = map_of attrs k"
  by (simp add: ingress_attributes_def map_of_dict_merge_notin added_keys_def List.map_filter_simps image_iff split: if_splits)

lemma alarm_attribute_kept:
  assumes "(k, f) \<in> set attribute_fields" "field args f \<noteq> []"
  shows "dict_get (ingress_attributes (alarm_attrs args) ra sa peer record) k = PStr (take 4096 (field args f))"
proof -
  have "list_all (\<lambda>(k, f). k \<notin> set added_keys) attribute_fields" by code_simp
  then have k: "k \<notin> set added_keys" using assms(1) by (auto simp: list_all_iff)
  have "(k, field args f) \<in> set (alarm_attributes args)"
    using assms by (force simp: alarm_attributes_def List.map_filter_def)
  then have m: "(k, PStr (take 4096 (field args f))) \<in> set (alarm_attrs args)" by (force simp: alarm_attrs_def)
  have "map fst (alarm_attrs args) = map fst (alarm_attributes args)" by (auto simp: alarm_attrs_def)
  then have "distinct (map fst (alarm_attrs args))" using alarm_keys[of args] by simp
  from map_of_is_SomeI[OF this m] show ?thesis by (simp add: dict_get_def ingress_key_kept[OF k])
qed

lemma peer_attribute_kept: "dict_get (ingress_attributes attrs ra sa peer record) ''ringdown.peer.ip'' = PStr peer"
proof -
  have "map_of (dict_merge attrs [(''resource'', PDict ra), (''scope'', PDict sa), (''ringdown.ingress'', PStr ''otlp/http-json''),
      (''ringdown.peer.ip'', PStr peer)]) ''ringdown.peer.ip'' = Some (PStr peer)"
    by (simp add: dict_merge_def map_of_dict_set)
  then show ?thesis
    by (simp add: dict_get_def ingress_attributes_def map_of_dict_merge_notin List.map_filter_simps image_iff split: if_splits)
qed

section \<open>End to end\<close>

text \<open>
  C37. An alarm arrives as it was sent. When the notifier's payload for an alarm reaches the
  endpoint, in any chunks, from a trusted peer and within the size bound, and the queue has room,
  the endpoint answers 200 and queues exactly one event: of the alarm's host, of the program
  netdata, with the alarm's instant, status, severity and message, and with every non-empty field
  of the alarm as the attribute the notifier names it, each cut at the stated lengths.
\<close>

theorem netdata_alarm_arrives:
  assumes "build_payload nanos args now_ns obs = Inr payload" "alarm_time nanos args now_ns = Inr ns" "0 < ns" "oe_instant E ns = Inr t"
    and "rq_peer rq = Some peer" "peer_allowed (rq_peer rq) (oc_networks C)" "py_lower (strip (before_char CHR '';'' (rq_content_type rq))) = ''application/json''"
    and "declared_length rq = Some n" "n \<le> oc_max_body C" "concat (rq_chunks rq) = json_dumps True False payload"
    and "int (length (json_dumps True False payload)) \<le> oc_max_body C" "oc_decode C (json_dumps True False payload) = Inr (json_dumps True False payload)"
    and "1 \<le> oc_max_records C" "oc_queue_max C = 0 \<or> length queue < oc_queue_max C"
  shows "\<exists>ev attrs. export_logs E C rq queue = (Inr \<lparr>rp_status = 200, rp_body = [], rp_retry_after = False\<rparr>, queue @ [Parsed ev])
    \<and> ev_ts ev = Ts_Time t \<and> ev_source ev = Some (take 255 (alarm_host args)) \<and> ev_program ev = Some ''netdata''
    \<and> ev_severity ev = Some (netdata_severity (status_of args)) \<and> ev_severity_text ev = Some (take 64 (status_of args))
    \<and> ev_body ev = Some (take 4096 (alarm_body args)) \<and> ev_attributes ev = PDict attrs
    \<and> (\<forall>(k, f) \<in> set attribute_fields. field args f \<noteq> [] \<longrightarrow> dict_get attrs k = PStr (take 4096 (field args f)))
    \<and> dict_get attrs ''ringdown.peer.ip'' = PStr peer"
proof -
  let ?ev = "alarm_event peer args (alarm_record args ns obs) t"
  have payload: "payload = alarm_payload args (alarm_record args ns obs)" using assms(1,2) by (simp add: build_payload_def)
  have peer: "or_else (rq_peer rq) ''unknown'' = peer"
    using assms(5,6) by (auto simp: peer_allowed_def or_else_def split: if_splits)
  have body: "read_body (oc_max_body C) (rq_chunks rq) [] = Some (json_dumps True False payload)"
    using read_body_fits[of "[]" "rq_chunks rq" "oc_max_body C"] assms(10,11) by (simp del: length_concat)
  have "export_logs E C rq queue = (Inr \<lparr>rp_status = 200, rp_body = [], rp_retry_after = False\<rparr>, queue @ [Parsed ?ev])"
    using assms(6-9,12,14) alarm_parsed[OF assms(3,4,13), of args obs peer] loads_dumps[OF alarm_json_ok, of "oc_float C" True False args ns obs]
    by (auto simp: export_logs_def body peer payload)
  moreover have "dict_get (ingress_attributes (alarm_attrs args) (alarm_resource args) scope peer rc) k = PStr (take 4096 (field args f))"
    if "(k, f) \<in> set attribute_fields" "field args f \<noteq> []" for k f scope rc
    using that by (rule alarm_attribute_kept)
  moreover have "dict_get (ingress_attributes (alarm_attrs args) (alarm_resource args) scope peer rc) ''ringdown.peer.ip'' = PStr peer" for scope rc
    by (rule peer_attribute_kept)
  ultimately show ?thesis by (intro exI[of _ ?ev]) (auto simp: alarm_event_def)
qed

section \<open>One alarm\<close>

definition demo_args :: "string list" where
  "demo_args = [''ops'', ''db1'', ''disk_full'', ''disk.space'', ''warning'', ''clear'']"

definition demo_alarm :: string where
  "demo_alarm = json_dumps True False (alarm_payload demo_args (alarm_record demo_args 5000 7))"

definition demo_sized :: otlp_config where
  "demo_sized = demo_endpoint\<lparr>oc_max_body := int (length demo_alarm)\<rparr>"

theorem netdata_alarm_arrives_witness:
  "\<exists>ev. export_logs demo_otlp demo_sized (demo_post demo_alarm) [] = (Inr \<lparr>rp_status = 200, rp_body = [], rp_retry_after = False\<rparr>, [Parsed ev])
     \<and> ev_source ev = Some ''db1'' \<and> ev_severity ev = Some 13 \<and> ev_body ev = Some ''Netdata alarm disk_full CLEAR -> WARNING on disk.space''"
proof -
  let ?nanos = "\<lambda>s. Inr 5000 :: exn + int"
  have t: "alarm_time ?nanos demo_args 7 = Inr 5000" by (simp add: alarm_time_def catching_def)
  then have p: "build_payload ?nanos demo_args 7 7 = Inr (alarm_payload demo_args (alarm_record demo_args 5000 7))"
    by (simp add: build_payload_def)
  have peer: "rq_peer (demo_post demo_alarm) = Some ''127.0.0.1''" by (simp add: demo_post_def)
  have trusted: "peer_allowed (rq_peer (demo_post demo_alarm)) (oc_networks demo_sized)"
    using demo_peer by (simp add: demo_post_def demo_sized_def demo_endpoint_def)
  have kind: "py_lower (strip (before_char CHR '';'' (rq_content_type (demo_post demo_alarm)))) = ''application/json''"
    using demo_headers by (simp add: demo_post_def)
  have vals: "alarm_host demo_args = ''db1''" "netdata_severity (status_of demo_args) = 13"
    "alarm_body demo_args = ''Netdata alarm disk_full CLEAR -> WARNING on disk.space''" by code_simp+
  have rest: "declared_length (demo_post demo_alarm) = Some 0" "0 \<le> oc_max_body demo_sized" "1 \<le> oc_max_records demo_sized"
      "oc_queue_max demo_sized = 0 \<or> length ([] :: queue_item list) < oc_queue_max demo_sized" "oe_instant demo_otlp 5000 = Inr 5"
      "concat (rq_chunks (demo_post demo_alarm)) = demo_alarm" "int (length demo_alarm) \<le> oc_max_body demo_sized"
      "oc_decode demo_sized demo_alarm = Inr demo_alarm"
    by (simp_all add: demo_post_def declared_length_def demo_sized_def demo_endpoint_def demo_otlp_def)
  show ?thesis
    using netdata_alarm_arrives[OF p t _ rest(5) peer trusted kind rest(1,2) _ _ _ rest(3,4)] rest(6-8)
    by (auto simp: vals demo_alarm_def[symmetric])
qed

end
