(* ===== verification/Config.thy ===== *)
theory Config
  imports Mcp_Auth Otlp
begin

text \<open>
  \<open>ringdown/config.py\<close>: the environment file, the settings read from the environment and the
  validators each process runs before it starts. The environment is a map; \<open>float\<close> of a text, in
  microseconds, and the file system are parameters.
\<close>

section \<open>The environment file\<close>

type_synonym environ = "string \<rightharpoonup> string"

text \<open>\<open>re.sub(r"\s+#.*$", "", v)\<close>, then \<open>strip\<close>: what follows blanks and a hash is a comment.\<close>

fun before_comment :: "bool \<Rightarrow> string \<Rightarrow> string" where
  "before_comment blank [] = []"
| "before_comment blank (c # cs) = (if c = CHR ''#'' \<and> blank then [] else c # before_comment (is_space c) cs)"

definition unquoted :: "string \<Rightarrow> string" where
  "unquoted v = (if length v \<ge> 2 \<and> hd v = last v \<and> hd v \<in> {CHR 0x22, CHR 0x27} then butlast (tl v) else v)"

definition env_line :: "string \<Rightarrow> (string \<times> string) option" where
  "env_line raw =
     (let line = strip raw in
      if line = [] \<or> hd line = CHR ''#'' \<or> CHR ''='' \<notin> set line then None
      else Some (strip (before_char CHR ''='' line), unquoted (strip (before_comment False (tl (dropWhile (\<lambda>c. c \<noteq> CHR ''='') line))))))"

definition set_default :: "string \<times> string \<Rightarrow> environ \<Rightarrow> environ" where
  "set_default kv env = (case env (fst kv) of None \<Rightarrow> env(fst kv \<mapsto> snd kv) | Some v \<Rightarrow> env)"

definition load_env :: "string list option \<Rightarrow> environ \<Rightarrow> environ" where
  "load_env contents env =
     (case contents of None \<Rightarrow> env
      | Some lines \<Rightarrow> fold (\<lambda>l e. case env_line l of None \<Rightarrow> e | Some kv \<Rightarrow> set_default kv e) lines env)"

lemma set_default_keeps: "env k = Some v \<Longrightarrow> set_default kv env k = Some v"
  by (auto simp: set_default_def split: option.split)

text \<open>The real environment wins over the file, and the first of two lines over the second.\<close>

lemma load_env_keeps: "env k = Some v \<Longrightarrow> load_env contents env k = Some v"
proof (cases contents)
  case (Some lines)
  assume "env k = Some v"
  then have "fold (\<lambda>l e. case env_line l of None \<Rightarrow> e | Some kv \<Rightarrow> set_default kv e) lines env k = Some v"
    by (induction lines arbitrary: env) (auto simp: set_default_keeps split: option.split)
  then show ?thesis by (simp add: load_env_def Some)
qed (simp add: load_env_def)

section \<open>Reading a setting\<close>

definition env_text :: "environ \<Rightarrow> string \<Rightarrow> string \<Rightarrow> string" where
  "env_text env k d = strip (case env k of None \<Rightarrow> d | Some v \<Rightarrow> v)"

definition env_int :: "environ \<Rightarrow> string \<Rightarrow> int \<Rightarrow> int" where
  "env_int env k d = (let t = env_text env k [] in if t = [] then d else case parse_int t of None \<Rightarrow> d | Some i \<Rightarrow> i)"

definition env_float :: "(string \<Rightarrow> time option) \<Rightarrow> environ \<Rightarrow> string \<Rightarrow> time \<Rightarrow> time" where
  "env_float fl env k d = (let t = env_text env k [] in if t = [] then d else case fl t of None \<Rightarrow> d | Some x \<Rightarrow> x)"

text \<open>A comma-separated list: blank entries are dropped, the others stripped.\<close>

definition env_list :: "environ \<Rightarrow> string \<Rightarrow> string \<Rightarrow> string list" where
  "env_list env k d = filter (\<lambda>x. x \<noteq> []) (map strip (split_on CHR '','' (env_text env k d)))"

definition upper_ascii :: "char \<Rightarrow> char" where
  "upper_ascii c = (if 97 \<le> code_point c \<and> code_point c \<le> 122 then char_of (code_point c - 32) else c)"

definition placeholder :: "string \<Rightarrow> bool" where
  "placeholder v = (let t = strip v in t = [] \<or> CHR ''<'' \<in> set t \<or> CHR ''>'' \<in> set t \<or> contains ''REPLACE'' (map upper_ascii t))"

text \<open>\<open>_GUID.match\<close>, whose dollar also matches before a final newline.\<close>

definition guid_groups :: "string \<Rightarrow> bool" where
  "guid_groups s =
     (let gs = split_on CHR ''-'' s
      in map length gs = [8, 4, 4, 4, 12] \<and> list_all (list_all (\<lambda>c. hex_val c \<noteq> None)) gs)"

definition guid_match :: "string \<Rightarrow> bool" where
  "guid_match s = (guid_groups s \<or> (s \<noteq> [] \<and> last s = CHR 0x0A \<and> guid_groups (butlast s)))"

section \<open>The settings\<close>

text \<open>Hours and temperatures are read as \<open>float\<close> too: \<open>seconds n\<close> is the number \<open>n\<close>.\<close>

definition env_optional :: "(string \<Rightarrow> time option) \<Rightarrow> environ \<Rightarrow> string \<Rightarrow> time option" where
  "env_optional fl env k = (let t = env_text env k [] in if t = [] then None else fl t)"

record ingest_settings =
  st_db_dsn :: string
  st_embed_dim :: int
  st_retention_days :: int
  st_retention_interval :: time
  st_syslog_udp :: string
  st_syslog_tcp :: string
  st_otlp_http :: string
  st_otlp_cidrs :: "string list"
  st_otlp_body :: int
  st_otlp_records :: int
  st_batch_max :: int
  st_batch_ms :: int
  st_queue_max :: int

definition ingest_settings_of :: "(string \<Rightarrow> time option) \<Rightarrow> environ \<Rightarrow> ingest_settings" where
  "ingest_settings_of fl env =
     \<lparr>st_db_dsn = env_text env ''RINGDOWN_DB_DSN'' [],
      st_embed_dim = env_int env ''RINGDOWN_EMBED_DIM'' 768,
      st_retention_days = env_int env ''RINGDOWN_RETENTION_DAYS'' 90,
      st_retention_interval = env_float fl env ''RINGDOWN_RETENTION_INTERVAL'' (seconds 86400),
      st_syslog_udp = env_text env ''RINGDOWN_SYSLOG_UDP'' ''0.0.0.0:514'',
      st_syslog_tcp = env_text env ''RINGDOWN_SYSLOG_TCP'' ''0.0.0.0:514'',
      st_otlp_http = env_text env ''RINGDOWN_OTLP_HTTP'' ''0.0.0.0:4318'',
      st_otlp_cidrs = env_list env ''RINGDOWN_OTLP_ALLOWED_CIDRS'' ''127.0.0.0/8,::1/128'',
      st_otlp_body = env_int env ''RINGDOWN_OTLP_MAX_BODY_BYTES'' 1048576,
      st_otlp_records = env_int env ''RINGDOWN_OTLP_MAX_RECORDS'' 5000,
      st_batch_max = env_int env ''RINGDOWN_BATCH_MAX'' 500,
      st_batch_ms = env_int env ''RINGDOWN_BATCH_MS'' 1000,
      st_queue_max = env_int env ''RINGDOWN_QUEUE_MAX'' 50000\<rparr>"

record dispatch_settings =
  st_reuse_ttl :: time
  st_feed_interval :: time
  st_rate_ceiling :: int
  st_max_active :: int
  st_poll_interval :: time
  st_dispatch_batch :: int
  st_turnstone_url :: string
  st_admin_token :: string
  st_default_owner :: string
  st_default_project :: string
  st_token_ttl_hours :: time
  st_obo_scopes :: string
  st_ntfy_url :: string
  st_ntfy_token :: string
  st_ntfy_topic :: string
  st_fallback_topic :: string
  st_ntfy_hosts :: "string list"

definition dispatch_settings_of :: "(string \<Rightarrow> time option) \<Rightarrow> environ \<Rightarrow> dispatch_settings" where
  "dispatch_settings_of fl env =
     \<lparr>st_reuse_ttl = env_float fl env ''RINGDOWN_INCIDENT_REUSE_TTL'' (seconds 7200),
      st_feed_interval = env_float fl env ''RINGDOWN_FEED_INTERVAL'' (seconds 60),
      st_rate_ceiling = env_int env ''RINGDOWN_GLOBAL_RATE_CEILING'' 120,
      st_max_active = env_int env ''RINGDOWN_MAX_ACTIVE_WORKSTREAMS'' 4,
      st_poll_interval = env_float fl env ''RINGDOWN_DISPATCH_POLL_INTERVAL'' (seconds 10),
      st_dispatch_batch = env_int env ''RINGDOWN_DISPATCH_BATCH_SIZE'' 20,
      st_turnstone_url = rstrip_slash (env_text env ''RINGDOWN_TURNSTONE_URL'' ''http://127.0.0.1:8090''),
      st_admin_token = env_text env ''RINGDOWN_TURNSTONE_ADMIN_TOKEN'' [],
      st_default_owner = env_text env ''RINGDOWN_TURNSTONE_DEFAULT_OWNER'' [],
      st_default_project = env_text env ''RINGDOWN_TURNSTONE_DEFAULT_PROJECT'' [],
      st_token_ttl_hours = env_float fl env ''RINGDOWN_TURNSTONE_TOKEN_TTL_HOURS'' (seconds 20),
      st_obo_scopes = env_text env ''RINGDOWN_OBO_SCOPES'' ''read,write'',
      st_ntfy_url = rstrip_slash (env_text env ''RINGDOWN_NTFY_URL'' []),
      st_ntfy_token = env_text env ''RINGDOWN_NTFY_TOKEN'' [],
      st_ntfy_topic = env_text env ''RINGDOWN_NTFY_TOPIC'' ''ringdown'',
      st_fallback_topic = (let t = env_text env ''RINGDOWN_FALLBACK_NTFY_TOPIC'' []
         in if t = [] then env_text env ''RINGDOWN_NTFY_TOPIC'' ''ringdown'' else t),
      st_ntfy_hosts = map py_lower (env_list env ''RINGDOWN_NTFY_ALLOWED_HOSTS'' [])\<rparr>"

record judge_settings =
  st_llm_url :: string
  st_llm_model :: string
  st_llm_api_key :: string
  st_llm_max_tokens :: int
  st_llm_temperature :: "time option"
  st_semantic_tick :: time
  st_semantic_spike :: int
  st_semantic_min_interval :: time
  st_semantic_max_per_min :: int
  st_outage_alert :: time

definition judge_settings_of :: "(string \<Rightarrow> time option) \<Rightarrow> environ \<Rightarrow> judge_settings" where
  "judge_settings_of fl env =
     \<lparr>st_llm_url = rstrip_slash (env_text env ''RINGDOWN_LLM_URL'' []),
      st_llm_model = env_text env ''RINGDOWN_LLM_MODEL'' ''agent'',
      st_llm_api_key = env_text env ''RINGDOWN_LLM_API_KEY'' [],
      st_llm_max_tokens = env_int env ''RINGDOWN_LLM_MAX_TOKENS'' 8000,
      st_llm_temperature = env_optional fl env ''RINGDOWN_LLM_TEMPERATURE'',
      st_semantic_tick = env_float fl env ''RINGDOWN_SEMANTIC_TICK'' (seconds 30),
      st_semantic_spike = env_int env ''RINGDOWN_SEMANTIC_SPIKE'' 100,
      st_semantic_min_interval = env_float fl env ''RINGDOWN_SEMANTIC_MIN_INTERVAL'' (seconds 300),
      st_semantic_max_per_min = env_int env ''RINGDOWN_SEMANTIC_MAX_PER_MIN'' 20,
      st_outage_alert = env_float fl env ''RINGDOWN_SEMANTIC_OUTAGE_ALERT_S'' (seconds 86400)\<rparr>"

record front_settings =
  st_public_host :: string
  st_mcp_port :: int
  st_tenant :: string
  st_client :: string
  st_audience :: "string list"
  st_scope :: string
  st_clients :: "string list"
  st_operators :: "string list"
  st_audit_log :: string
  st_max_output :: int
  st_default_limit :: int
  st_max_limit :: int
  st_auth_debug :: bool
  st_read_roles :: "string list"
  st_write_roles :: "string list"
  st_webui_port :: int
  st_redirect_uri :: string
  st_oidc_key :: string
  st_oidc_cert :: string
  st_session_secret :: string
  st_session_ttl_hours :: time
  st_admin_role :: string
  st_authority :: string
  st_session_enc_key :: string
  st_absolute_cap_days :: int
  st_refresh_skew :: int
  st_keepalive_ping :: int
  st_sse_heartbeat :: int

definition front_settings_of :: "(string \<Rightarrow> time option) \<Rightarrow> environ \<Rightarrow> front_settings" where
  "front_settings_of fl env =
     \<lparr>st_public_host = env_text env ''RINGDOWN_PUBLIC_HOST'' ''localhost'',
      st_mcp_port = env_int env ''RINGDOWN_PORT'' 8787,
      st_tenant = env_text env ''RINGDOWN_TENANT_ID'' [],
      st_client = env_text env ''RINGDOWN_CLIENT_ID'' [],
      st_audience = (let c = env_text env ''RINGDOWN_CLIENT_ID'' []
         in filter (\<lambda>x. strip x \<noteq> []) (c # (''api://'' @ c) # split_on CHR '','' (env_text env ''RINGDOWN_AUDIENCE'' []))),
      st_scope = env_text env ''RINGDOWN_REQUIRED_SCOPE'' [],
      st_clients = env_list env ''RINGDOWN_ALLOWED_CLIENTS'' [],
      st_operators = map py_lower (env_list env ''RINGDOWN_OPERATORS'' []),
      st_audit_log = env_text env ''RINGDOWN_AUDIT_LOG'' ''/opt/ringdown/var/audit.log'',
      st_max_output = env_int env ''RINGDOWN_MAX_OUTPUT_CHARS'' 60000,
      st_default_limit = env_int env ''RINGDOWN_DEFAULT_LIMIT'' 200,
      st_max_limit = env_int env ''RINGDOWN_MAX_LIMIT'' 2000,
      st_auth_debug = py_lower (env_text env ''RINGDOWN_AUTH_DEBUG'' []) \<in> {''1'', ''true'', ''yes''},
      st_read_roles = [''ringdown.read'', ''ringdown.write''],
      st_write_roles = [''ringdown.write''],
      st_webui_port = env_int env ''RINGDOWN_WEBUI_PORT'' 8088,
      st_redirect_uri = env_text env ''RINGDOWN_OIDC_REDIRECT_URI'' [],
      st_oidc_key = env_text env ''RINGDOWN_OIDC_KEY_PATH'' ''/opt/ringdown/oidc/oidc.key'',
      st_oidc_cert = env_text env ''RINGDOWN_OIDC_CERT_PATH'' ''/opt/ringdown/oidc/oidc.crt'',
      st_session_secret = env_text env ''RINGDOWN_SESSION_SECRET'' [],
      st_session_ttl_hours = env_float fl env ''RINGDOWN_SESSION_TTL_HOURS'' (seconds 8),
      st_admin_role = env_text env ''RINGDOWN_WEBUI_ADMIN_ROLE'' ''Ringdown.Admin'',
      st_authority = ''https://login.microsoftonline.com/'' @ env_text env ''RINGDOWN_TENANT_ID'' [],
      st_session_enc_key = env_text env ''RINGDOWN_SESSION_ENC_KEY'' [],
      st_absolute_cap_days = env_int env ''RINGDOWN_SESSION_ABSOLUTE_CAP_DAYS'' 30,
      st_refresh_skew = env_int env ''RINGDOWN_REFRESH_SKEW_SECONDS'' 300,
      st_keepalive_ping = env_int env ''RINGDOWN_KEEPALIVE_PING_SECONDS'' 240,
      st_sse_heartbeat = env_int env ''RINGDOWN_SSE_HEARTBEAT_SECONDS'' 20\<rparr>"

record settings =
  st_ingest :: ingest_settings
  st_dispatch :: dispatch_settings
  st_judge :: judge_settings
  st_front :: front_settings

definition settings_of :: "(string \<Rightarrow> time option) \<Rightarrow> environ \<Rightarrow> settings" where
  "settings_of fl env =
     \<lparr>st_ingest = ingest_settings_of fl env, st_dispatch = dispatch_settings_of fl env,
      st_judge = judge_settings_of fl env, st_front = front_settings_of fl env\<rparr>"

text \<open>What the control plane's model takes from them.\<close>

definition mcp_config_of :: "settings \<Rightarrow> mcp_config" where
  "mcp_config_of c =
     \<lparr>mc_tenant = st_tenant (st_front c), mc_scope = st_scope (st_front c), mc_clients = st_clients (st_front c),
      mc_read_roles = st_read_roles (st_front c), mc_write_roles = st_write_roles (st_front c),
      mc_operators = st_operators (st_front c), mc_ntfy_url = st_ntfy_url (st_dispatch c), mc_ntfy_hosts = st_ntfy_hosts (st_dispatch c),
      mc_default_project = st_default_project (st_dispatch c), mc_default_limit = st_default_limit (st_front c), mc_max_limit = st_max_limit (st_front c)\<rparr>"

section \<open>The validators\<close>

definition refuse_start :: "string \<Rightarrow> exn + unit" where
  "refuse_start msg = Inl (Exn ''SystemExit'' msg)"

text \<open>\<open>validate_mcp\<close>; \<open>writable\<close> tells how opening the audit log ends.\<close>

definition validate_mcp :: "(string \<Rightarrow> exn + unit) \<Rightarrow> settings \<Rightarrow> exn + unit" where
  "validate_mcp writable c =
     (if st_db_dsn (st_ingest c) = [] then refuse_start ''RINGDOWN_DB_DSN is required.''
      else if placeholder (st_tenant (st_front c)) \<or> placeholder (st_client (st_front c))
      then refuse_start ''RINGDOWN_TENANT_ID and RINGDOWN_CLIENT_ID must be real values.''
      else if \<not> (guid_match (st_tenant (st_front c)) \<and> guid_match (st_client (st_front c)))
      then refuse_start ''RINGDOWN_TENANT_ID and RINGDOWN_CLIENT_ID must be specific tenant/app GUIDs.''
      else if placeholder (st_scope (st_front c))
      then refuse_start (''RINGDOWN_REQUIRED_SCOPE is required '' @ em_dash @ '' pin the coarse '' @ [CHR 0x27] @ ''valid caller'' @ [CHR 0x27] @ '' scope.'')
      else if st_clients (st_front c) = [] \<or> list_ex placeholder (st_clients (st_front c))
      then refuse_start (''RINGDOWN_ALLOWED_CLIENTS is required '' @ em_dash @ '' pin the calling client (turnstone).'')
      else case writable (st_audit_log (st_front c)) of
        Inl e \<Rightarrow> refuse_start (''audit log '' @ repr_str (st_audit_log (st_front c)) @ '' is not writable ('' @ exn_type e @ '') '' @ em_dash @ '' refusing to start.'')
      | Inr u \<Rightarrow> Inr ())"

definition validate_collector :: "settings \<Rightarrow> exn + unit" where
  "validate_collector c =
     (if st_db_dsn (st_ingest c) = [] then refuse_start ''RINGDOWN_DB_DSN is required (run scripts/provision-db.sh or set it in .env).''
      else case (if st_otlp_http (st_ingest c) = [] then Inr ()
                 else if st_otlp_cidrs (st_ingest c) = [] then refuse_start ''RINGDOWN_OTLP_ALLOWED_CIDRS must not be empty while OTLP is enabled.''
                 else case allowed_networks (st_otlp_cidrs (st_ingest c)) of
                   Inl e \<Rightarrow> refuse_start (''invalid RINGDOWN_OTLP_ALLOWED_CIDRS entry: '' @ exn_msg e)
                 | Inr ns \<Rightarrow>
                   if st_otlp_body (st_ingest c) < 1 \<or> st_otlp_records (st_ingest c) < 1
                   then refuse_start ''RINGDOWN_OTLP_MAX_BODY_BYTES and RINGDOWN_OTLP_MAX_RECORDS must be positive.''
                   else Inr ()) of
        Inl e \<Rightarrow> Inl e
      | Inr u \<Rightarrow>
        if st_admin_token (st_dispatch c) = [] \<and> (st_ntfy_url (st_dispatch c) = [] \<or> st_ntfy_token (st_dispatch c) = [])
        then refuse_start (''no dispatch path configured '' @ em_dash @ '' set the ntfy dispatcher ''
               @ ''(RINGDOWN_NTFY_URL + RINGDOWN_NTFY_TOKEN) and/or the turnstone owner-OBO path ''
               @ ''(RINGDOWN_TURNSTONE_ADMIN_TOKEN). Refusing to run blind.'')
        else Inr ())"

text \<open>\<open>validate_webui\<close>; \<open>is_file\<close> asks the file system.\<close>

definition validate_webui :: "(string \<Rightarrow> bool) \<Rightarrow> settings \<Rightarrow> exn + unit" where
  "validate_webui is_file c =
     (if st_db_dsn (st_ingest c) = [] then refuse_start ''RINGDOWN_DB_DSN is required.''
      else if \<not> (guid_match (st_tenant (st_front c)) \<and> guid_match (st_client (st_front c)))
      then refuse_start ''RINGDOWN_TENANT_ID and RINGDOWN_CLIENT_ID must be real tenant/app GUIDs.''
      else if placeholder (st_redirect_uri (st_front c))
      then refuse_start ''RINGDOWN_OIDC_REDIRECT_URI is required (the app-reg web redirect URI).''
      else if length (st_session_secret (st_front c)) < 32
      then refuse_start (''RINGDOWN_SESSION_SECRET must be set (>=32 chars) '' @ em_dash @ '' cookies are signed with it.'')
      else if length (st_session_enc_key (st_front c)) < 32
      then refuse_start (''RINGDOWN_SESSION_ENC_KEY must be set (>=32 chars) '' @ em_dash @ '' refresh tokens are encrypted with it.'')
      else if st_absolute_cap_days (st_front c) < 1 then refuse_start ''RINGDOWN_SESSION_ABSOLUTE_CAP_DAYS must be >= 1.''
      else case find (\<lambda>p. \<not> is_file p) [st_oidc_key (st_front c), st_oidc_cert (st_front c)] of
        Some p \<Rightarrow> refuse_start (''OIDC cert/key not found at '' @ repr_str p @ '' '' @ em_dash @ '' generate it and upload the cert to Entra.'')
      | None \<Rightarrow> Inr ())"

lemma validate_mcpD:
  assumes "validate_mcp writable c = Inr u"
  shows "guid_match (st_tenant (st_front c))" "\<not> placeholder (st_scope (st_front c))" "st_clients (st_front c) \<noteq> []" "\<not> list_ex placeholder (st_clients (st_front c))"
  using assms by (auto simp: validate_mcp_def refuse_start_def split: if_splits)

lemma placeholder_Nil [simp]: "placeholder []"
  by (simp add: placeholder_def)

text \<open>A validated collector accepts OTLP from a non-empty list of networks within positive bounds.\<close>

lemma validate_collector_otlp:
  assumes "validate_collector c = Inr u" "st_otlp_http (st_ingest c) \<noteq> []"
  shows "\<exists>ns. allowed_networks (st_otlp_cidrs (st_ingest c)) = Inr ns \<and> ns \<noteq> [] \<and> 1 \<le> st_otlp_body (st_ingest c) \<and> 1 \<le> st_otlp_records (st_ingest c)"
proof -
  have ne: "st_otlp_cidrs (st_ingest c) \<noteq> []" using assms by (auto simp: validate_collector_def refuse_start_def split: if_splits)
  obtain ns where ns: "allowed_networks (st_otlp_cidrs (st_ingest c)) = Inr ns"
    using assms ne by (cases "allowed_networks (st_otlp_cidrs (st_ingest c))") (auto simp: validate_collector_def refuse_start_def split: if_splits)
  then have "ns \<noteq> []" using ne by (cases "st_otlp_cidrs (st_ingest c)") auto
  then show ?thesis using assms ne ns by (auto simp: validate_collector_def refuse_start_def split: if_splits)
qed

section \<open>Fail-closed start\<close>


text \<open>A file with a comment and quotes, under an environment that sets the scope.\<close>

definition demo_file :: "string list" where
  "demo_file =
     [''# the control plane'', ''RINGDOWN_DB_DSN=postgresql:///ringdown'', ''RINGDOWN_REQUIRED_SCOPE=ignored'',
      ''RINGDOWN_TENANT_ID=01234567-89ab-cdef-0123-456789abcdef  # ours'', ''RINGDOWN_CLIENT_ID='' @ [CHR 0x22] @ ''fedcba98-7654-3210-fedc-ba9876543210'' @ [CHR 0x22],
      ''RINGDOWN_ALLOWED_CLIENTS = app, web'']"

definition demo_environ :: environ where
  "demo_environ = Map.empty(''RINGDOWN_REQUIRED_SCOPE'' \<mapsto> ''mcp'')"

definition demo_settings :: settings where
  "demo_settings = settings_of (\<lambda>_. None) (load_env (Some demo_file) demo_environ)"

lemma demo_settings_read:
  "st_tenant (st_front demo_settings) = ''01234567-89ab-cdef-0123-456789abcdef''" "st_scope (st_front demo_settings) = ''mcp''" "st_clients (st_front demo_settings) = [''app'', ''web'']"
  by code_simp+

definition demo_token_claims :: claims where
  "demo_token_claims = (demo_claims ''alice'')\<lparr>cl_iss := ''https://sts.windows.net/01234567-89ab-cdef-0123-456789abcdef/'',
     cl_tid := Some ''01234567-89ab-cdef-0123-456789abcdef''\<rparr>"


end
