(* ===== verification/Py_Regex.thy ===== *)
theory Py_Regex
  imports Py_Value
begin

text \<open>
  The part of Python's \<open>re\<close> the decoder uses: a backtracking matcher whose results come in the order
  \<open>re\<close> tries them (greedy repetition first), the first of which is the match. Every repeated body
  of the source's expressions consumes a character, so as many rounds as characters are enough.
\<close>

datatype rx =
    Chr "char \<Rightarrow> bool"
  | Seq rx rx
  | Alt rx rx
  | Rep rx nat "nat option"
  | Cap string rx
  | Bound
  | End
  | Eps

text \<open>A position: the character before it, the text after it and the groups so far.\<close>

record pos =
  po_prev :: "char option"
  po_rest :: string
  po_caps :: "(string \<times> string) list"

definition word_char :: "char \<Rightarrow> bool" where
  "word_char c =
     (let n = code_point c in is_alnum c \<or> c = CHR ''_'' \<or> n \<in> {170, 178, 179, 181, 185, 186, 188, 189, 190}
        \<or> (192 \<le> n \<and> n \<noteq> 215 \<and> n \<noteq> 247))"

definition at_bound :: "pos \<Rightarrow> bool" where
  "at_bound p =
     ((case po_prev p of None \<Rightarrow> False | Some c \<Rightarrow> word_char c) \<noteq> (case po_rest p of [] \<Rightarrow> False | c # _ \<Rightarrow> word_char c))"

primrec rounds :: "(pos \<Rightarrow> pos list) \<Rightarrow> nat \<Rightarrow> nat \<Rightarrow> pos \<Rightarrow> pos list" where
  "rounds f 0 low p = (if low = 0 then [p] else [])"
| "rounds f (Suc high) low p = concat (map (rounds f high (low - 1)) (f p)) @ (if low = 0 then [p] else [])"

primrec run :: "rx \<Rightarrow> pos \<Rightarrow> pos list" where
  "run (Chr f) p = (case po_rest p of [] \<Rightarrow> [] | c # cs \<Rightarrow> if f c then [p\<lparr>po_prev := Some c, po_rest := cs\<rparr>] else [])"
| "run (Seq a b) p = concat (map (run b) (run a p))"
| "run (Alt a b) p = run a p @ run b p"
| "run (Rep a low high) p = rounds (run a) (case high of None \<Rightarrow> low + length (po_rest p) | Some h \<Rightarrow> h) low p"
| "run (Cap n a) p = map (\<lambda>q. q\<lparr>po_caps := (n, take (length (po_rest p) - length (po_rest q)) (po_rest p)) # po_caps q\<rparr>) (run a p)"
| "run Bound p = (if at_bound p then [p] else [])"
| "run End p = (if po_rest p = [] \<or> po_rest p = [CHR 0x0A] then [p] else [])"
| "run Eps p = [p]"

definition re_match :: "rx \<Rightarrow> string \<Rightarrow> pos option" where
  "re_match r s = (case run r \<lparr>po_prev = None, po_rest = s, po_caps = []\<rparr> of [] \<Rightarrow> None | p # _ \<Rightarrow> Some p)"

definition group_of :: "pos \<Rightarrow> string \<Rightarrow> string option" where
  "group_of p n = map_of (po_caps p) n"

text \<open>
  All matches from left to right, each with the text before it, and the text after the last;
  \<open>rx.sub\<close> with a constant. The source's searched expressions never match the empty text.
\<close>

function all_matches :: "rx \<Rightarrow> char option \<Rightarrow> string \<Rightarrow> string \<Rightarrow> (string \<times> pos) list \<times> string" where
  "all_matches r prev seen s =
     (case s of
        [] \<Rightarrow> ([], seen)
      | c # cs \<Rightarrow>
        (case run r \<lparr>po_prev = prev, po_rest = s, po_caps = []\<rparr> of
           q # _ \<Rightarrow>
             if length (po_rest q) < length s
             then (case all_matches r (po_prev q) [] (po_rest q) of (ms, tail) \<Rightarrow> ((seen, q) # ms, tail))
             else all_matches r (Some c) (seen @ [c]) cs
         | [] \<Rightarrow> all_matches r (Some c) (seen @ [c]) cs))"
  by pat_completeness auto
termination by (relation "measure (\<lambda>(r, prev, seen, s). length s)") auto

declare all_matches.simps [simp del]

definition re_sub :: "rx \<Rightarrow> string \<Rightarrow> string \<Rightarrow> string" where
  "re_sub r repl s = (case all_matches r None [] s of (ms, tail) \<Rightarrow> concat (map (\<lambda>(b, _). b @ repl) ms) @ tail)"

section \<open>Building expressions\<close>

definition lit :: "char \<Rightarrow> rx" where
  "lit c = Chr (\<lambda>x. x = c)"

fun lits :: "string \<Rightarrow> rx" where
  "lits [] = Eps"
| "lits (c # cs) = Seq (lit c) (lits cs)"

fun seqs :: "rx list \<Rightarrow> rx" where
  "seqs [] = Eps"
| "seqs (r # rs) = Seq r (seqs rs)"

definition opt :: "rx \<Rightarrow> rx" where
  "opt r = Rep r 0 (Some 1)"

definition many :: "rx \<Rightarrow> rx" where
  "many r = Rep r 0 None"

definition many1 :: "rx \<Rightarrow> rx" where
  "many1 r = Rep r 1 None"

definition span :: "nat \<Rightarrow> nat \<Rightarrow> rx \<Rightarrow> rx" where
  "span a b r = Rep r a (Some b)"

definition between :: "char \<Rightarrow> char \<Rightarrow> char \<Rightarrow> bool" where
  "between a b c = (code_point a \<le> code_point c \<and> code_point c \<le> code_point b)"

definition upper_letter :: "char \<Rightarrow> bool" where "upper_letter = between CHR ''A'' CHR ''Z''"
definition lower_letter :: "char \<Rightarrow> bool" where "lower_letter = between CHR ''a'' CHR ''z''"

definition hex_char :: "char \<Rightarrow> bool" where
  "hex_char c = (is_digit c \<or> between CHR ''a'' CHR ''f'' c \<or> between CHR ''A'' CHR ''F'' c)"

lemmas rx_building = lit_def opt_def many_def many1_def span_def

text \<open>Reading single-result pieces, for evaluation by the simplifier.\<close>

lemma run_lits: "run (lits w) p = (if prefix w (po_rest p)
   then [p\<lparr>po_prev := (if w = [] then po_prev p else Some (last w)), po_rest := drop (length w) (po_rest p)\<rparr>] else [])"
proof (induction w arbitrary: p)
  case (Cons c cs)
  then show ?case by (cases "po_rest p") (auto simp: lit_def)
qed simp

end
