(* ===== verification/Syslog.thy ===== *)
theory Syslog
  imports Py_Regex Store Filters Json
begin

text \<open>
  \<open>ringdown/syslog_parse.py\<close>: a syslog line becomes an event, and the shape of its message. Parameters:
  the clock, \<open>datetime.fromisoformat\<close> with \<open>astimezone\<close>, and SHA-1.
\<close>

section \<open>Tables\<close>

definition syslog_names :: "string list" where
  "syslog_names = [''emerg'', ''alert'', ''crit'', ''err'', ''warning'', ''notice'', ''info'', ''debug'']"

definition syslog_to_otel :: "int list" where
  "syslog_to_otel = [24, 21, 19, 17, 13, 10, 9, 5]"

definition lookup :: "'a list \<Rightarrow> nat \<Rightarrow> 'a option" where
  "lookup xs n = (if n < length xs then Some (xs ! n) else None)"

definition facilities :: "(nat \<times> string) list" where
  "facilities = [(0, ''kern''), (1, ''user''), (2, ''mail''), (3, ''daemon''), (4, ''auth''), (5, ''syslog''),
     (6, ''lpr''), (7, ''news''), (8, ''uucp''), (9, ''cron''), (10, ''authpriv''), (11, ''ftp''),
     (16, ''local0''), (17, ''local1''), (18, ''local2''), (19, ''local3''),
     (20, ''local4''), (21, ''local5''), (22, ''local6''), (23, ''local7'')]"

definition months :: "string list" where
  "months = [''Jan'', ''Feb'', ''Mar'', ''Apr'', ''May'', ''Jun'', ''Jul'', ''Aug'', ''Sep'', ''Oct'', ''Nov'', ''Dec'']"

section \<open>Expressions\<close>

definition digit :: rx where "digit = Chr is_digit"
definition space :: rx where "space = Chr is_space"
definition month_word :: rx where "month_word = seqs [Chr upper_letter, span 2 2 (Chr lower_letter)]"
definition two_digits :: rx where "two_digits = span 2 2 digit"
definition clock :: rx where "clock = seqs [two_digits, lit CHR '':'', two_digits, lit CHR '':'', two_digits]"
definition any_char :: rx where "any_char = Chr (\<lambda>c. c \<noteq> CHR 0x0A)"

definition pri_re :: rx where
  "pri_re = seqs [lit CHR ''<'', Cap ''pri'' (span 1 3 digit), lit CHR ''>'']"

definition rfc3164_re :: rx where
  "rfc3164_re = seqs
     [Cap ''ts'' (seqs [month_word, many1 space, span 1 2 digit, many1 space, clock]), many1 space,
      Cap ''host'' (many1 (Chr (\<lambda>c. \<not> is_space c))), many1 space,
      opt (seqs [Cap ''tag'' (many1 (Chr (\<lambda>c. \<not> is_space c \<and> c \<noteq> CHR '':'' \<and> c \<noteq> CHR ''[''))),
        opt (seqs [lit CHR ''['', Cap ''pid'' (many1 digit), lit CHR '']'']), lit CHR '':'', many space]),
      Cap ''msg'' (many any_char), End]"

definition cisco_re :: rx where
  "cisco_re = seqs
     [opt (seqs [Cap ''seq'' (many1 digit), lits '': '']),
      opt (seqs [Cap ''host'' (seqs [Chr is_alnum, many (Chr (\<lambda>c. is_alnum c \<or> c \<in> {CHR ''.'', CHR ''_'', CHR ''-''}))]), lits '': '']),
      Cap ''dts'' (seqs [opt (Chr (\<lambda>c. c = CHR ''*'' \<or> c = CHR ''.'')), month_word, many1 (lit CHR '' ''), span 1 2 digit,
        many1 (lit CHR '' ''), clock, opt (seqs [lit CHR ''.'', many1 digit]),
        opt (seqs [lit CHR '' '', span 2 5 (Chr (\<lambda>c. upper_letter c \<or> lower_letter c))])]),
      lits '': %'', Cap ''fac'' (many1 (Chr (\<lambda>c. upper_letter c \<or> is_digit c \<or> c = CHR ''_''))), lit CHR ''-'',
      Cap ''sev'' digit, lit CHR ''-'', Cap ''code'' (many1 (Chr (\<lambda>c. upper_letter c \<or> is_digit c \<or> c = CHR ''_''))), lits '': '',
      Cap ''msg'' (many (Chr (\<lambda>_. True))), End]"

definition sd_pair_re :: rx where
  "sd_pair_re = seqs [Cap ''k'' (many1 (Chr word_char)), lit CHR ''='', lit CHR 0x22, Cap ''v'' (many (Chr (\<lambda>c. c \<noteq> CHR 0x22))), lit CHR 0x22]"

section \<open>Time stamps\<close>

text \<open>Days from the epoch of a civil date.\<close>

definition days_of :: "int \<Rightarrow> int \<Rightarrow> int \<Rightarrow> int" where
  "days_of y m d =
     (let y' = (if m \<le> 2 then y - 1 else y); era = y' div 400; yoe = y' mod 400;
          doy = (153 * (if m > 2 then m - 3 else m + 9) + 2) div 5 + d - 1;
          doe = yoe * 365 + yoe div 4 - yoe div 100 + doy
      in era * 146097 + doe - 719468)"

definition valid_date :: "int \<Rightarrow> int \<Rightarrow> int \<Rightarrow> bool" where
  "valid_date y m d = (1 \<le> y \<and> y \<le> 9999 \<and> 1 \<le> m \<and> m \<le> 12 \<and> 1 \<le> d \<and> civil (days_of y m d) = (y, m, d))"

definition make_time :: "int \<Rightarrow> int \<Rightarrow> int \<Rightarrow> int \<Rightarrow> int \<Rightarrow> int \<Rightarrow> time option" where
  "make_time y mo d h mi s =
     (if valid_date y mo d \<and> h \<le> 23 \<and> mi \<le> 59 \<and> s \<le> 59 then Some ((((days_of y mo d * 24 + h) * 60 + mi) * 60 + s) * 1000000) else None)"

definition month_number :: "string \<Rightarrow> int option" where
  "month_number w = map_option (\<lambda>i. int i + 1) (find (\<lambda>i. months ! i = w) [0..<12])"

text \<open>
  \<open>_parse_3164_ts\<close>, on a text the expression admitted: the current year, or the one before when
  the result is more than a day ahead. Any exception is \<open>None\<close>.
\<close>

definition parse_3164_ts :: "time \<Rightarrow> string \<Rightarrow> time option" where
  "parse_3164_ts t s =
     (let rest = strip (drop 3 s); day = takeWhile (\<lambda>c. \<not> is_space c) rest; hms = lstrip (drop (length day) rest);
          year = fst (civil (day_of t))
      in case (month_number (take 3 s), split_on CHR '':'' hms) of
           (Some mo, [h, m, x]) \<Rightarrow>
             (case (parse_int day, parse_int h, parse_int m, parse_int x) of
                (Some d, Some hh, Some mm, Some ss) \<Rightarrow>
                  (case make_time year mo d hh mm ss of
                     None \<Rightarrow> None
                   | Some u \<Rightarrow> if u - t > seconds 86400 then make_time (year - 1) mo d hh mm ss else Some u)
              | _ \<Rightarrow> None)
         | _ \<Rightarrow> None)"

definition parse_5424_ts :: "(string \<Rightarrow> time option) \<Rightarrow> string \<Rightarrow> time option" where
  "parse_5424_ts iso_ts s = (if s = ''-'' then None else iso_ts (concat (map (\<lambda>c. if c = CHR ''Z'' then ''+00:00'' else [c]) s)))"

section \<open>Structured data\<close>

definition sd_pairs :: "string \<Rightarrow> dict" where
  "sd_pairs s =
     fold (\<lambda>(_, q) d. dict_set d (or_else (group_of q ''k'') []) (PStr (or_else (group_of q ''v'') []))) (fst (all_matches sd_pair_re None [] s)) []"

definition sd_element :: "string \<Rightarrow> string \<times> pyval" where
  "sd_element chunk =
     (if CHR '' '' \<in> set chunk then (before_char CHR '' '' chunk, PDict (sd_pairs (tl (dropWhile (\<lambda>c. c \<noteq> CHR '' '') chunk))))
      else (chunk, PDict []))"

function sd_elements :: "dict \<Rightarrow> string \<Rightarrow> dict \<times> string" where
  "sd_elements out s =
     (if s = [] \<or> hd s \<noteq> CHR ''['' \<or> CHR '']'' \<notin> set s then (out, s)
      else (case sd_element (takeWhile (\<lambda>c. c \<noteq> CHR '']'') (tl s)) of
              (k, v) \<Rightarrow> sd_elements (dict_set out k v) (tl (dropWhile (\<lambda>c. c \<noteq> CHR '']'') s))))"
  by pat_completeness auto
termination
proof (relation "measure (\<lambda>(out, s). length s)")
  fix out s x k v
  assume "\<not> (s = [] \<or> hd s \<noteq> CHR ''['' \<or> CHR '']'' \<notin> set s)"
  then have "s \<noteq> []" by simp
  moreover have "length (dropWhile (\<lambda>c. c \<noteq> CHR '']'') s) \<le> length s" by (rule length_dropWhile_le)
  ultimately show "((dict_set out k v, tl (dropWhile (\<lambda>c. c \<noteq> CHR '']'') s)), out, s) \<in> measure (\<lambda>(out, s). length s)"
    by (cases s) auto
qed simp

declare sd_elements.simps [simp del]

definition parse_sd :: "string \<Rightarrow> dict \<times> string" where
  "parse_sd s =
     (if s = ''-'' \<or> prefix ''- '' s then ([], lstrip (tl s))
      else if \<not> prefix ''['' s then ([], s)
      else (case sd_elements [] s of (out, rest) \<Rightarrow> (out, lstrip rest)))"

section \<open>A line\<close>

record cisco_line =
  cl_host :: "string option"
  cl_program :: string
  cl_severity :: "int option"
  cl_severity_text :: "string option"
  cl_msg :: string
  cl_attrs :: dict

definition parse_cisco :: "string \<Rightarrow> cisco_line option" where
  "parse_cisco txt =
     map_option (\<lambda>m. let g = (\<lambda>n. or_else (group_of m n) []); sev = digits_value (g ''sev'') in
       \<lparr>cl_host = group_of m ''host'', cl_program = ''%'' @ g ''fac'' @ ''-'' @ g ''sev'' @ ''-'' @ g ''code'',
        cl_severity = lookup syslog_to_otel sev, cl_severity_text = lookup syslog_names sev, cl_msg = strip (g ''msg''),
        cl_attrs = (''device_time'', PStr (strip (dropWhile (\<lambda>c. c = CHR ''*'' \<or> c = CHR ''.'') (g ''dts''))))
          # (if g ''seq'' = [] then [] else [(''cisco_seq'', PStr (g ''seq''))])\<rparr>) (re_match cisco_re txt)"

text \<open>\<open>text.split(" ", n)\<close>: at most \<open>n\<close> cuts.\<close>

fun cut_fields :: "nat \<Rightarrow> string \<Rightarrow> string list" where
  "cut_fields 0 s = [s]"
| "cut_fields (Suc n) s =
     (if CHR '' '' \<in> set s then before_char CHR '' '' s # cut_fields n (tl (dropWhile (\<lambda>c. c \<noteq> CHR '' '') s)) else [s])"

definition no_dash :: "string \<Rightarrow> string option" where
  "no_dash s = (if s = ''-'' then None else Some s)"

record decoded =
  de_ts :: "time option"
  de_host :: "string option"
  de_program :: "string option"
  de_body :: string
  de_attrs :: dict

definition undecoded :: "string \<Rightarrow> decoded" where
  "undecoded txt = \<lparr>de_ts = None, de_host = None, de_program = None, de_body = txt, de_attrs = []\<rparr>"

definition decode_5424 :: "(string \<Rightarrow> time option) \<Rightarrow> string \<Rightarrow> decoded" where
  "decode_5424 iso_ts txt =
     (case cut_fields 5 (drop 2 txt) of
        [tstr, host, app, procid, msgid, rest] \<Rightarrow>
          (case parse_sd rest of (sd, body) \<Rightarrow>
             \<lparr>de_ts = parse_5424_ts iso_ts tstr, de_host = no_dash host, de_program = no_dash app, de_body = body,
              de_attrs = (if sd = [] then [] else [(''sd'', PDict sd)])
                @ (if procid \<in> {''-'', []} then [] else [(''procid'', PStr procid)])
                @ (if msgid \<in> {''-'', []} then [] else [(''msgid'', PStr msgid)])\<rparr>)
      | _ \<Rightarrow> undecoded txt)"

definition decode_3164 :: "time \<Rightarrow> string \<Rightarrow> decoded" where
  "decode_3164 t txt =
     (case re_match rfc3164_re txt of
        None \<Rightarrow> undecoded txt
      | Some m \<Rightarrow>
        \<lparr>de_ts = parse_3164_ts t (or_else (group_of m ''ts'') []), de_host = group_of m ''host'', de_program = group_of m ''tag'',
         de_body = or_else (group_of m ''msg'') [],
         de_attrs = (case group_of m ''pid'' of None \<Rightarrow> [] | Some p \<Rightarrow> [(''pid'', PStr p)])\<rparr>)"

text \<open>The priority at the front: facility, severity and its word; and the text after it.\<close>

definition read_pri :: "string \<Rightarrow> (string option \<times> int option \<times> string option) \<times> string" where
  "read_pri txt =
     (case re_match pri_re txt of
        None \<Rightarrow> ((None, None, None), txt)
      | Some m \<Rightarrow>
        let pri = digits_value (or_else (group_of m ''pri'') []); fac = pri div 8; sev = pri mod 8
        in ((Some (case map_of facilities fac of Some f \<Rightarrow> f | None \<Rightarrow> int_text (int fac)), lookup syslog_to_otel sev, lookup syslog_names sev), po_rest m))"

definition parse_syslog :: "(string \<Rightarrow> time option) \<Rightarrow> time \<Rightarrow> string \<Rightarrow> string option \<Rightarrow> event" where
  "parse_syslog iso_ts t raw peer =
     (case read_pri (strip raw) of ((facility, severity, sevtext), txt) \<Rightarrow>
        (case parse_cisco txt of
           Some c \<Rightarrow>
             \<lparr>ev_ts = Ts_Time t, ev_source = Some (or_else (cl_host c) (or_else peer ''unknown'')), ev_facility = facility,
              ev_severity = (if cl_severity c = None then severity else cl_severity c),
              ev_severity_text = (if cl_severity c = None then sevtext else cl_severity_text c),
              ev_program = Some (cl_program c), ev_body = Some (cl_msg c), ev_attributes = PDict (cl_attrs c),
              ev_raw = Some (take 64000 raw)\<rparr>
         | None \<Rightarrow>
           let d = (if take 2 txt = ''1 '' then decode_5424 iso_ts txt else decode_3164 t txt) in
             \<lparr>ev_ts = Ts_Time (case de_ts d of None \<Rightarrow> t | Some u \<Rightarrow> u), ev_source = Some (or_else (de_host d) (or_else peer ''unknown'')),
              ev_facility = facility, ev_severity = severity, ev_severity_text = sevtext, ev_program = de_program d,
              ev_body = Some (de_body d), ev_attributes = PDict (de_attrs d), ev_raw = Some (take 64000 raw)\<rparr>))"

section \<open>Templates\<close>

definition hex :: rx where "hex = Chr hex_char"

definition maskers :: "rx list" where
  "maskers =
     [seqs [Bound, span 8 8 hex, lit CHR ''-'', span 3 3 (seqs [span 4 4 hex, lit CHR ''-'']), span 12 12 hex, Bound],
      seqs [Bound, span 5 5 (seqs [span 2 2 hex, lit CHR '':'']), span 2 2 hex, Bound],
      seqs [Bound, span 1 3 digit, span 3 3 (seqs [lit CHR ''.'', span 1 3 digit]), opt (seqs [lit CHR '':'', many1 digit]), Bound],
      seqs [Bound, span 2 7 (seqs [span 0 4 hex, lit CHR '':'']), span 0 4 hex, Bound],
      seqs [Bound, lits ''0x'', many1 hex, Bound],
      seqs [Bound, Rep hex 16 None, Bound],
      seqs [Bound, many1 digit, opt (seqs [lit CHR ''.'', many1 digit]), Bound]]"

definition collapse_re :: rx where
  "collapse_re = seqs [lits ''<*>'', many1 (seqs [many1 space, lits ''<*>''])]"

definition template_of :: "string \<Rightarrow> string" where
  "template_of body = strip (re_sub collapse_re ''<*>'' (fold (\<lambda>r. re_sub r ''<*>'') maskers body))"

definition mine_template :: "(string \<Rightarrow> string) \<Rightarrow> string option \<Rightarrow> string option \<Rightarrow> string \<times> string" where
  "mine_template sha1 program body =
     (let t = template_of (or_else body []) in (sha1 (or_else program [] @ [CHR 0x00] @ t), t))"

end
