(* ===== verification/Syslog_Props.thy ===== *)
theory Syslog_Props
  imports Syslog
begin

text \<open>
  What the decoder of \<open>ringdown/syslog_parse.py\<close> does on lines in the format of RFC 5424.
\<close>

section \<open>The priority\<close>

lemma run_digit: "run digit p = (case po_rest p of [] \<Rightarrow> [] | c # cs \<Rightarrow> if is_digit c then [p\<lparr>po_prev := Some c, po_rest := cs\<rparr>] else [])"
  by (simp add: digit_def)

lemma pri_digits:
  assumes "list_all is_digit ds" "1 \<le> length ds" "length ds \<le> 3"
  shows "\<exists>m. re_match pri_re (''<'' @ ds @ ''>'' @ rest) = Some m \<and> group_of m ''pri'' = Some ds \<and> po_rest m = rest"
proof -
  have gt: "\<not> is_digit CHR ''>''" by code_simp
  have ne: "c \<noteq> CHR ''>''" if "is_digit c" for c using that gt by auto
  consider a where "ds = [a]" | a b where "ds = [a, b]" | a b c where "ds = [a, b, c]"
    using assms(2,3) by (cases ds; cases "tl ds"; cases "tl (tl ds)") auto
  then show ?thesis
    using assms(1) by cases (auto simp: re_match_def pri_re_def span_def lit_def run_digit gt ne group_of_def eval_nat_numeral)
qed

lemma int_text_digits: "list_all is_digit (int_text (int n))" "int_text (int n) \<noteq> []" "digits_value (int_text (int n)) = n"
  using nat_digits_props[of n] by (simp_all add: int_text_def)

lemma pri_width: "n < 192 \<Longrightarrow> length (int_text (int n)) \<le> 3"
proof -
  have "list_all (\<lambda>n. length (int_text (int n)) \<le> 3) [0..<192]" by code_simp
  then show "n < 192 \<Longrightarrow> length (int_text (int n)) \<le> 3" by (simp add: list_all_iff)
qed

definition facility_name :: "nat \<Rightarrow> string" where
  "facility_name fac = (case map_of facilities fac of Some f \<Rightarrow> f | None \<Rightarrow> int_text (int fac))"

lemma read_pri_back:
  assumes "n < 192"
  shows "read_pri (''<'' @ int_text (int n) @ ''>'' @ rest)
    = ((Some (facility_name (n div 8)), Some (syslog_to_otel ! (n mod 8)), Some (syslog_names ! (n mod 8))), rest)"
proof -
  have len: "1 \<le> length (int_text (int n))" using int_text_digits(2)[of n] by (cases "int_text (int n)") auto
  obtain m where m: "re_match pri_re (''<'' @ int_text (int n) @ ''>'' @ rest) = Some m" "group_of m ''pri'' = Some (int_text (int n))"
    "po_rest m = rest"
    using pri_digits[OF int_text_digits(1) len pri_width[OF assms]] by blast
  have sev: "lookup syslog_to_otel (n mod 8) = Some (syslog_to_otel ! (n mod 8))" "lookup syslog_names (n mod 8) = Some (syslog_names ! (n mod 8))"
    by (simp_all add: lookup_def syslog_to_otel_def syslog_names_def)
  have g: "or_else (group_of m ''pri'') [] = int_text (int n)" using m(2) int_text_digits(2) by (simp add: or_else_def)
  show ?thesis by (simp only: read_pri_def m(1) option.case g Let_def int_text_digits(3) sev m(3) facility_name_def)
qed

section \<open>RFC 5424\<close>

text \<open>A version number is no Cisco line: after it comes a blank, not a colon.\<close>

lemma rounds_stuck: "f p = [] \<Longrightarrow> rounds f n 0 p = [p]"
  by (cases n) simp_all

lemma version_no_cisco: "parse_cisco (''1 '' @ rest) = None"
proof -
  have c: "is_digit CHR ''1''" "\<not> is_digit CHR '' ''" "is_alnum CHR ''1''" "\<not> is_alnum CHR '' ''" "\<not> upper_letter CHR ''1''" by code_simp+
  have "re_match cisco_re (''1 '' @ rest) = None"
    by (simp add: re_match_def cisco_re_def rx_building run_digit c month_word_def)
  then show ?thesis by (simp add: parse_cisco_def)
qed

definition blank_free :: "string \<Rightarrow> bool" where
  "blank_free s = (CHR '' '' \<notin> set s)"

lemma cut_field: "blank_free w \<Longrightarrow> cut_fields (Suc n) (w @ CHR '' '' # r) = w # cut_fields n r"
proof -
  assume w: "blank_free w"
  then have "takeWhile (\<lambda>c. c \<noteq> CHR '' '') (w @ CHR '' '' # r) = w" "dropWhile (\<lambda>c. c \<noteq> CHR '' '') (w @ CHR '' '' # r) = CHR '' '' # r"
    by (auto simp: blank_free_def takeWhile_append dropWhile_append)
  then show ?thesis by (simp add: before_char_def)
qed

definition rfc5424_line :: "nat \<Rightarrow> string \<Rightarrow> string \<Rightarrow> string \<Rightarrow> string \<Rightarrow> string \<Rightarrow> string \<Rightarrow> string" where
  "rfc5424_line pri ts host app procid msgid msg =
     ''<'' @ int_text (int pri) @ ''>1 '' @ ts @ '' '' @ host @ '' '' @ app @ '' '' @ procid @ '' '' @ msgid @ '' - '' @ msg"

lemma decode_5424_line:
  assumes "blank_free ts" "blank_free host" "blank_free app" "blank_free procid" "blank_free msgid" "stripped msg"
  shows "decode_5424 iso_ts (''1 '' @ ts @ '' '' @ host @ '' '' @ app @ '' '' @ procid @ '' '' @ msgid @ '' - '' @ msg)
    = \<lparr>de_ts = parse_5424_ts iso_ts ts, de_host = no_dash host, de_program = no_dash app, de_body = msg,
       de_attrs = (if procid \<in> {''-'', []} then [] else [(''procid'', PStr procid)])
         @ (if msgid \<in> {''-'', []} then [] else [(''msgid'', PStr msgid)])\<rparr>"
proof -
  have five: "(5 :: nat) = Suc (Suc (Suc (Suc (Suc 0))))" by simp
  have cut: "cut_fields 5 (ts @ CHR '' '' # host @ CHR '' '' # app @ CHR '' '' # procid @ CHR '' '' # msgid @ CHR '' '' # CHR ''-'' # CHR '' '' # msg)
      = [ts, host, app, procid, msgid, CHR ''-'' # CHR '' '' # msg]"
    using assms(1-5) by (simp only: five cut_field cut_fields.simps(1))
  have "lstrip (CHR '' '' # msg) = msg"
    using assms(6) by (cases msg) (auto simp: lstrip_def stripped_def is_space_def code_point_def)
  then have "parse_sd (CHR ''-'' # CHR '' '' # msg) = ([], msg)" by (simp add: parse_sd_def)
  then show ?thesis by (simp add: decode_5424_def cut)
qed



end
