(* ===== verification/Collector.thy ===== *)
theory Collector
  imports Syslog Otlp Mcp Router
begin

text \<open>
  \<open>ringdown/collector.py\<close>: the listeners' queue, \<open>flush\<close>, which stores a batch in one transaction, and the
  \<open>flusher\<close> loop. PostgreSQL refuses a text with a NUL character and a \<open>jsonb\<close> with one, or with a
  float JSON has no literal for; a lost connection is the parameter \<open>ce_fault\<close>.
\<close>

section \<open>The tables\<close>

record stored_event =
  se_id :: id
  se_event :: event
  se_template :: id

record template_row =
  te_id :: id
  te_fingerprint :: string
  te_template :: string
  te_hits :: int
  te_last_seen :: time

record stat_row =
  st_filter :: id
  st_source :: string
  st_matched :: int
  st_last_matched :: time

record store =
  so_log :: "stored_event list"
  so_next_event :: id
  so_templates :: "template_row list"
  so_next_template :: id
  so_table :: "source_row list"
  so_filter_ids :: "id list"
  so_stats :: "stat_row list"
  so_weeks :: "int set"

text \<open>\<open>_monday\<close>, as the number of the day.\<close>

definition monday :: "time \<Rightarrow> int" where
  "monday t = day_of t - weekday t"

definition ensure_week :: "int \<Rightarrow> store \<Rightarrow> store" where
  "ensure_week d s = s\<lparr>so_weeks := insert d (so_weeks s)\<rparr>"

text \<open>What a column takes.\<close>

definition text_ok :: "string \<Rightarrow> bool" where
  "text_ok s = (CHR 0x00 \<notin> set s)"

fun jsonb_ok :: "pyval \<Rightarrow> bool" where
  "jsonb_ok (PFloat r) = (r \<notin> {''inf'', ''-inf'', ''nan''})"
| "jsonb_ok (PStr s) = text_ok s"
| "jsonb_ok (PList xs) = list_all jsonb_ok xs"
| "jsonb_ok (PDict d) = list_all (\<lambda>(k, v). text_ok k \<and> jsonb_ok v) d"
| "jsonb_ok v = True"

definition row_ok :: "event \<Rightarrow> bool" where
  "row_ok ev =
     (list_all text_ok [or_else (ev_source ev) [], or_else (ev_facility ev) [], or_else (ev_severity_text ev) [],
        or_else (ev_program ev) [], or_else (ev_body ev) [], or_else (ev_raw ev) []]
      \<and> jsonb_ok (ev_attributes ev) \<and> ev_source ev \<noteq> None \<and> ev_body ev \<noteq> None
      \<and> (case ev_severity ev of None \<Rightarrow> True | Some n \<Rightarrow> -32768 \<le> n \<and> n \<le> 32767))"

section \<open>The flush\<close>

definition event_time :: "event \<Rightarrow> time option" where
  "event_time ev = (case ev_ts ev of Ts_Time t \<Rightarrow> Some t | _ \<Rightarrow> None)"

definition upsert_template :: "time \<Rightarrow> string \<Rightarrow> string \<Rightarrow> nat \<Rightarrow> store \<Rightarrow> store" where
  "upsert_template now_db fp tmpl n s =
     (if list_ex (\<lambda>r. te_fingerprint r = fp) (so_templates s)
      then s\<lparr>so_templates := update_where (\<lambda>r. te_fingerprint r = fp) (\<lambda>r. r\<lparr>te_last_seen := now_db, te_hits := te_hits r + int n\<rparr>) (so_templates s)\<rparr>
      else s\<lparr>so_templates := so_templates s @ [\<lparr>te_id = so_next_template s, te_fingerprint = fp, te_template = tmpl, te_hits = int n,
               te_last_seen = now_db\<rparr>],
             so_next_template := so_next_template s + 1\<rparr>)"

definition template_id :: "store \<Rightarrow> string \<Rightarrow> id" where
  "template_id s fp = (case find_row (\<lambda>r. te_fingerprint r = fp) (so_templates s) of None \<Rightarrow> 0 | Some r \<Rightarrow> te_id r)"

definition insert_event :: "(event \<Rightarrow> string \<times> string) \<Rightarrow> event \<Rightarrow> store \<Rightarrow> store" where
  "insert_event mine ev s =
     s\<lparr>so_log := so_log s @ [\<lparr>se_id = so_next_event s, se_event = ev, se_template = template_id s (fst (mine ev))\<rparr>],
       so_next_event := so_next_event s + 1\<rparr>"

definition upsert_source :: "time \<Rightarrow> string \<Rightarrow> nat \<Rightarrow> store \<Rightarrow> store" where
  "upsert_source now_db src n s =
     (if list_ex (\<lambda>r. so_source r = src) (so_table s)
      then s\<lparr>so_table := update_where (\<lambda>r. so_source r = src)
               (\<lambda>r. r\<lparr>so_last_seen := now_db, so_events := so_events r + int n, so_active := True\<rparr>) (so_table s)\<rparr>
      else s\<lparr>so_table := so_table s @ [\<lparr>so_source = src, so_label = None, so_kind = None, so_active = True,
               so_first_seen = now_db, so_last_seen = now_db, so_events = int n\<rparr>]\<rparr>)"

definition upsert_stat :: "time \<Rightarrow> (id \<times> string) \<times> nat \<Rightarrow> store \<Rightarrow> store" where
  "upsert_stat now_db entry s =
     (case entry of ((fid, src), n) \<Rightarrow>
        if fid \<notin> set (so_filter_ids s) then s
        else if list_ex (\<lambda>r. st_filter r = fid \<and> st_source r = src) (so_stats s)
        then s\<lparr>so_stats := update_where (\<lambda>r. st_filter r = fid \<and> st_source r = src)
                 (\<lambda>r. r\<lparr>st_matched := st_matched r + int n, st_last_matched := now_db\<rparr>) (so_stats s)\<rparr>
        else s\<lparr>so_stats := so_stats s @ [\<lparr>st_filter = fid, st_source = src, st_matched = int n, st_last_matched = now_db\<rparr>]\<rparr>)"

text \<open>Values in the order they first come, each with its number of occurrences.\<close>

definition tallied :: "'a list \<Rightarrow> ('a \<times> nat) list" where
  "tallied xs = map (\<lambda>x. (x, count_list xs x)) (first_seen xs)"

definition flush :: "(event \<Rightarrow> string \<times> string) \<Rightarrow> time \<Rightarrow> exn option \<Rightarrow> event list \<Rightarrow> counter \<Rightarrow> store \<Rightarrow> exn + store" where
  "flush mine now_db fault batch dropped s =
     (if batch = [] \<and> dropped = [] then Inr s
      else if list_ex (\<lambda>ev. event_time ev = None) batch then Inl (Exn ''AttributeError'' ''astimezone'')
      else case fault of Some e \<Rightarrow> Inl e | None \<Rightarrow>
        if \<not> list_all (\<lambda>ev. row_ok ev \<and> text_ok (snd (mine ev))) batch \<or> \<not> list_all (\<lambda>((fid, src), n). text_ok src) dropped
        then Inl (Exn ''DataError'' ''value not accepted'')
        else (let s1 = fold ensure_week (map (\<lambda>ev. monday (the (event_time ev))) batch) s;
                  s2 = fold (\<lambda>(fp, n). upsert_template now_db fp (snd (mine (the (find (\<lambda>ev. fst (mine ev) = fp) batch)))) n)
                         (tallied (map (fst \<circ> mine) batch)) s1;
                  s3 = fold (insert_event mine) batch s2;
                  s4 = fold (\<lambda>(src, n). upsert_source now_db src n) (tallied (map (\<lambda>ev. or_else (ev_source ev) []) batch)) s3
              in Inr (fold (upsert_stat now_db) dropped s4)))"

section \<open>The loop\<close>

text \<open>
  What a round depends on: what arrived before it, whether the stop event is set, how many items
  come within the batch window, the filters loaded then, the clocks, a failing connection, and what the
  rollback after a failed flush raises, if it does.
\<close>

record collector_env =
  ce_engine :: engine
  ce_iso :: "string \<Rightarrow> time option"
  ce_sha1 :: "string \<Rightarrow> string"
  ce_batch_max :: int
  ce_arrive :: "nat \<Rightarrow> queue_item list"
  ce_stop :: "nat \<Rightarrow> bool"
  ce_window :: "nat \<Rightarrow> nat"
  ce_filters :: "nat \<Rightarrow> filter_set"
  ce_now :: "nat \<Rightarrow> time"
  ce_fault :: "nat \<Rightarrow> exn option"
  ce_rollback :: "nat \<Rightarrow> exn option"

datatype round_note = Flushed "event list" counter | Lost nat exn

text \<open>The queue, the tables, what the rounds did, and the exception that ended the task, if one did.\<close>

record collector =
  co_queue :: "queue_item list"
  co_store :: store
  co_notes :: "round_note list"
  co_dead :: "exn option"

definition received :: "collector_env \<Rightarrow> nat \<Rightarrow> queue_item \<Rightarrow> event" where
  "received C n item = (case item of Parsed ev \<Rightarrow> ev | Line raw peer \<Rightarrow> parse_syslog (ce_iso C) (ce_now C n) raw peer)"

definition mined :: "collector_env \<Rightarrow> event \<Rightarrow> string \<times> string" where
  "mined C ev = mine_template (ce_sha1 C) (ev_program ev) (ev_body ev)"

text \<open>The first item is waited for; more are taken while the batch and its window allow.\<close>

definition taken_count :: "collector_env \<Rightarrow> nat \<Rightarrow> nat" where
  "taken_count C n = max 1 (min (ce_window C n) (nat (ce_batch_max C)))"

definition flush_round :: "collector_env \<Rightarrow> nat \<Rightarrow> collector \<Rightarrow> collector" where
  "flush_round C n s =
     (let k = taken_count C n; evs = map (received C n) (take k (co_queue s));
          (batch, dropped) = partition_events (ce_engine C) (ce_filters C n) evs
      in case flush (mined C) (ce_now C n) (ce_fault C n) batch dropped (co_store s) of
           Inl e \<Rightarrow> s\<lparr>co_queue := drop k (co_queue s), co_notes := co_notes s @ [Lost (length evs) e],
                       co_dead := ce_rollback C n\<rparr>
         | Inr d \<Rightarrow> s\<lparr>co_queue := drop k (co_queue s), co_store := d, co_notes := co_notes s @ [Flushed batch dropped]\<rparr>)"

definition flusher_step :: "collector_env \<Rightarrow> nat \<Rightarrow> collector \<Rightarrow> collector" where
  "flusher_step C n s =
     (let s1 = s\<lparr>co_queue := co_queue s @ ce_arrive C n\<rparr>
      in if co_queue s1 = [] \<or> co_dead s1 \<noteq> None then s1 else flush_round C n s1)"

text \<open>
  \<open>flusher\<close>, by rounds of fuel: it ends when the stop event is set and the queue is empty, or with the
  exception of a rollback. \<open>main\<close> awaits the task only at shutdown, so the listeners go on.
\<close>

fun flusher :: "collector_env \<Rightarrow> nat \<Rightarrow> nat \<Rightarrow> collector \<Rightarrow> collector option" where
  "flusher C fuel n s =
     (if co_dead s \<noteq> None \<or> ce_stop C n \<and> co_queue s = [] then Some s
      else case fuel of 0 \<Rightarrow> None | Suc m \<Rightarrow> flusher C m (n + 1) (flusher_step C n s))"

declare flusher.simps [simp del]

section \<open>The listeners\<close>

text \<open>
  A datagram that finds the queue full is shed; a stream's line waits for room, and an empty line
  is skipped. \<open>decode\<close> replaces invalid bytes.
\<close>

definition datagram_received :: "nat \<Rightarrow> (string \<Rightarrow> string) \<Rightarrow> string \<Rightarrow> string \<Rightarrow> queue_item list \<Rightarrow> queue_item list" where
  "datagram_received cap decode data peer queue =
     (if cap \<noteq> 0 \<and> cap \<le> length queue then queue else queue @ [Line (decode data) (Some peer)])"

definition rstrip_eol :: "string \<Rightarrow> string" where
  "rstrip_eol s = rev (dropWhile (\<lambda>c. c = CHR 0x0D \<or> c = CHR 0x0A) (rev s))"

definition stream_items :: "(string \<Rightarrow> string) \<Rightarrow> string option \<Rightarrow> string list \<Rightarrow> queue_item list" where
  "stream_items decode peer lines =
     map (\<lambda>l. Line l peer) (filter (\<lambda>l. l \<noteq> []) (map (\<lambda>l. rstrip_eol (decode l)) lines))"

text \<open>\<open>_hostport\<close>.\<close>

definition hostport :: "string \<Rightarrow> exn + string \<times> int" where
  "hostport s =
     (let parts = split_on CHR '':'' s; host = join '':'' (butlast parts)
      in case parse_int (last parts) of
           None \<Rightarrow> Inl (Exn ''ValueError'' ''invalid literal'')
         | Some p \<Rightarrow> Inr (if host = [] then ''0.0.0.0'' else host, p))"

text \<open>A flushed batch goes to the router, whose firings the coordinator handles.\<close>

definition routed :: "engine \<Rightarrow> live_rule list \<Rightarrow> round_note \<Rightarrow> (fire_context \<times> bound_target) list" where
  "routed R rules note = (case note of Flushed batch dropped \<Rightarrow> consider_batch R rules batch | Lost k e \<Rightarrow> [])"

end
