(* ===== verification/Collector_Props.thy ===== *)
theory Collector_Props
  imports Collector
begin

text \<open>
  What \<open>flush\<close> keeps of the tables (\<open>store_ok\<close>) and counts, and that the \<open>flusher\<close> loop ends with every
  line it was given stored, counted as dropped or reported as lost.
\<close>

section \<open>Counting upserts\<close>

lemma sum_update_where:
  fixes n :: int
  assumes "distinct (map key xs)" "list_ex (\<lambda>r. key r = k) xs" "\<And>r. key r = k \<Longrightarrow> f (g r) = f r + n"
  shows "sum_list (map f (update_where (\<lambda>r. key r = k) g xs)) = sum_list (map f xs) + n"
  using assms(1,2)
proof (induction xs)
  case (Cons x xs)
  have "update_where (\<lambda>r. key r = k) g xs = xs" if "key x = k"
    unfolding update_where_def using Cons.prems(1) that by (auto intro!: map_idI simp: image_iff)
  moreover have "update_where (\<lambda>r. key r = k) g (x # xs) = (if key x = k then g x else x) # update_where (\<lambda>r. key r = k) g xs"
    by (simp add: update_where_def)
  ultimately show ?case using Cons by (auto simp: assms(3))
qed simp

lemma fold_total:
  fixes m :: "'s \<Rightarrow> int"
  assumes "\<And>x s. P s \<Longrightarrow> P (h x s) \<and> m (h x s) = m s + w x" "P s"
  shows "P (fold h xs s) \<and> m (fold h xs s) = m s + sum_list (map w xs)"
  using assms(2)
proof (induction xs arbitrary: s)
  case (Cons x xs)
  then show ?case using assms(1)[of s x] by fastforce
qed simp

lemma fold_keeps: "(\<And>x s. m (h x s) = m s) \<Longrightarrow> m (fold h xs s) = m s"
  by (induction xs arbitrary: s) auto

lemma set_tallied: "set (map fst (tallied xs)) = set xs"
  by (simp add: tallied_def first_seen_def comp_def)

lemma tallied_total: "sum_list (map (int \<circ> snd) (tallied xs)) = int (length xs)"
proof -
  have "sum_list (map (int \<circ> snd) (tallied xs)) = (\<Sum>x \<in> set (first_seen xs). int (count_list xs x))"
    by (simp add: tallied_def comp_def first_seen_def sum_list_distinct_conv_sum_set)
  also have "\<dots> = int (length xs)"
    by (simp add: first_seen_def sum_count_set flip: of_nat_sum)
  finally show ?thesis .
qed

section \<open>The tables after a flush\<close>

definition source_total :: "store \<Rightarrow> int" where
  "source_total s = sum_list (map so_events (so_table s))"

definition template_total :: "store \<Rightarrow> int" where
  "template_total s = sum_list (map te_hits (so_templates s))"

definition stored :: "store \<Rightarrow> event list" where
  "stored s = map se_event (so_log s)"

text \<open>
  Keys are unique, ids below the sequences, and every stored event points to the template whose
  fingerprint is mined from it.
\<close>

definition template_keys :: "store \<Rightarrow> (id \<times> string) set" where
  "template_keys s = set (map (\<lambda>r. (te_id r, te_fingerprint r)) (so_templates s))"

definition store_ok :: "(event \<Rightarrow> string \<times> string) \<Rightarrow> store \<Rightarrow> bool" where
  "store_ok mine s =
     (distinct (map so_source (so_table s)) \<and> distinct (map te_fingerprint (so_templates s))
      \<and> distinct (map te_id (so_templates s)) \<and> (\<forall>r \<in> set (so_templates s). te_id r < so_next_template s)
      \<and> distinct (map se_id (so_log s)) \<and> (\<forall>e \<in> set (so_log s). se_id e < so_next_event s)
      \<and> (\<forall>e \<in> set (so_log s). (se_template e, fst (mine (se_event e))) \<in> template_keys s))"

definition has_print :: "string \<Rightarrow> store \<Rightarrow> bool" where
  "has_print fp s = (fp \<in> set (map te_fingerprint (so_templates s)))"

lemma has_print_ex: "list_ex (\<lambda>r. te_fingerprint r = fp) (so_templates s) = has_print fp s"
  by (auto simp: has_print_def list_ex_iff)

lemma upsert_source_keeps:
  "so_log (upsert_source t src n s) = so_log s" "so_next_event (upsert_source t src n s) = so_next_event s"
  "so_templates (upsert_source t src n s) = so_templates s" "so_next_template (upsert_source t src n s) = so_next_template s"
  by (simp_all add: upsert_source_def)

lemma upsert_source_ok:
  assumes "store_ok mine s"
  shows "store_ok mine (upsert_source t src n s) \<and> source_total (upsert_source t src n s) = source_total s + int n"
proof -
  have "source_total (upsert_source t src n s) = source_total s + int n"
    using assms by (simp add: source_total_def upsert_source_def store_ok_def sum_update_where[where key = so_source])
  moreover have "distinct (map so_source (so_table (upsert_source t src n s)))"
    using assms by (auto simp: upsert_source_def store_ok_def map_update_where_id list_ex_iff)
  ultimately show ?thesis using assms by (simp add: store_ok_def template_keys_def upsert_source_keeps)
qed

lemma upsert_template_keeps:
  "so_log (upsert_template t fp x n s) = so_log s" "so_next_event (upsert_template t fp x n s) = so_next_event s"
  "so_table (upsert_template t fp x n s) = so_table s"
  by (simp_all add: upsert_template_def)

lemma upsert_template_rows:
  "map te_fingerprint (so_templates (upsert_template t fp x n s))
      = map te_fingerprint (so_templates s) @ (if has_print fp s then [] else [fp])"
  "map te_id (so_templates (upsert_template t fp x n s))
      = map te_id (so_templates s) @ (if has_print fp s then [] else [so_next_template s])"
  "map (\<lambda>r. (te_id r, te_fingerprint r)) (so_templates (upsert_template t fp x n s))
      = map (\<lambda>r. (te_id r, te_fingerprint r)) (so_templates s) @ (if has_print fp s then [] else [(so_next_template s, fp)])"
  "so_next_template (upsert_template t fp x n s) = so_next_template s + (if has_print fp s then 0 else 1)"
  by (simp_all add: upsert_template_def has_print_ex map_update_where_id)

lemma upsert_template_ok:
  assumes ok: "store_ok mine s"
  shows "store_ok mine (upsert_template t fp x n s) \<and> template_total (upsert_template t fp x n s) = template_total s + int n"
proof -
  let ?s = "upsert_template t fp x n s"
  have total: "template_total ?s = template_total s + int n"
    using ok by (simp add: template_total_def upsert_template_def store_ok_def sum_update_where[where key = te_fingerprint])
  have keys: "template_keys s \<subseteq> template_keys ?s" by (auto simp only: template_keys_def upsert_template_rows(3) set_append)
  have "fp \<notin> te_fingerprint ` set (so_templates s)" if "\<not> has_print fp s"
    using that by (simp add: has_print_def)
  then have prints: "distinct (map te_fingerprint (so_templates ?s))"
    using ok by (auto simp: upsert_template_rows(1) store_ok_def)
  have ids: "distinct (map te_id (so_templates ?s))"
    using ok by (force simp: upsert_template_rows(2) store_ok_def)
  have "i < so_next_template ?s" if "i \<in> set (map te_id (so_templates ?s))" for i
    using that ok unfolding upsert_template_rows(2,4) by (fastforce simp: store_ok_def split: if_splits)
  then have "\<forall>r \<in> set (so_templates ?s). te_id r < so_next_template ?s" by simp
  then show ?thesis
    using ok total prints ids keys unfolding store_ok_def upsert_template_keeps by blast
qed

lemma upsert_template_print: "has_print fq (upsert_template t fp x n s) = (fq = fp \<or> has_print fq s)"
  unfolding has_print_def[of fq "upsert_template t fp x n s"] upsert_template_rows(1) by (auto simp: has_print_def)

lemma template_id_found: "has_print fp s \<Longrightarrow> (template_id s fp, fp) \<in> template_keys s"
  by (force simp: has_print_def template_keys_def template_id_def find_row_None_iff dest: find_row_SomeD split: option.splits)

lemma insert_event_ok:
  assumes ok: "store_ok mine s" and "has_print (fst (mine ev)) s"
  shows "store_ok mine (insert_event mine ev s)"
proof -
  have "template_keys (insert_event mine ev s) = template_keys s" by (simp add: template_keys_def insert_event_def)
  then show ?thesis using ok template_id_found[OF assms(2)] by (force simp: store_ok_def insert_event_def)
qed

lemma insert_event_keeps:
  "so_templates (insert_event mine ev s) = so_templates s" "so_table (insert_event mine ev s) = so_table s"
  "stored (insert_event mine ev s) = stored s @ [ev]"
  by (simp_all add: insert_event_def stored_def)

lemma insert_events:
  assumes "store_ok mine s" "\<forall>ev \<in> set evs. has_print (fst (mine ev)) s"
  shows "store_ok mine (fold (insert_event mine) evs s) \<and> stored (fold (insert_event mine) evs s) = stored s @ evs
    \<and> so_templates (fold (insert_event mine) evs s) = so_templates s \<and> so_table (fold (insert_event mine) evs s) = so_table s"
  using assms
proof (induction evs arbitrary: s)
  case (Cons ev evs)
  then have "store_ok mine (insert_event mine ev s)" "\<forall>e \<in> set evs. has_print (fst (mine e)) (insert_event mine ev s)"
    by (auto intro: insert_event_ok simp: has_print_def insert_event_keeps)
  then show ?case using Cons.IH by (simp add: insert_event_keeps)
qed simp

lemma upsert_templates:
  assumes "store_ok mine s"
  shows "store_ok mine (fold (\<lambda>(fp, n). upsert_template t fp (x fp) n) fps s)
    \<and> template_total (fold (\<lambda>(fp, n). upsert_template t fp (x fp) n) fps s) = template_total s + sum_list (map (int \<circ> snd) fps)
    \<and> (\<forall>fp \<in> set (map fst fps). has_print fp (fold (\<lambda>(fp, n). upsert_template t fp (x fp) n) fps s))"
proof -
  let ?h = "\<lambda>(fp, n). upsert_template t fp (x fp) n"
  have "store_ok mine (fold ?h fps s) \<and> template_total (fold ?h fps s) = template_total s + sum_list (map (int \<circ> snd) fps)"
    using assms by (intro fold_total) (auto simp: upsert_template_ok)
  moreover have "has_print fq (fold ?h fps u) = (has_print fq u \<or> fq \<in> set (map fst fps))" for fq u
    by (induction fps arbitrary: u) (auto simp: upsert_template_print)
  ultimately show ?thesis by simp
qed

lemma upsert_templates_keep:
  "so_log (fold (\<lambda>(fp, n). upsert_template t fp (x fp) n) fps s) = so_log s"
  "so_table (fold (\<lambda>(fp, n). upsert_template t fp (x fp) n) fps s) = so_table s"
  by (rule fold_keeps[where m = so_log], simp add: upsert_template_keeps split: prod.split)
     (rule fold_keeps[where m = so_table], simp add: upsert_template_keeps split: prod.split)

lemma upsert_sources:
  assumes "store_ok mine s"
  shows "store_ok mine (fold (\<lambda>(src, n). upsert_source t src n) xs s)
    \<and> source_total (fold (\<lambda>(src, n). upsert_source t src n) xs s) = source_total s + sum_list (map (int \<circ> snd) xs)"
  using assms by (intro fold_total) (auto simp: upsert_source_ok)

lemma upsert_sources_keep:
  "so_log (fold (\<lambda>(src, n). upsert_source t src n) xs s) = so_log s"
  "so_templates (fold (\<lambda>(src, n). upsert_source t src n) xs s) = so_templates s"
  by (rule fold_keeps[where m = so_log], simp add: upsert_source_keeps split: prod.split)
     (rule fold_keeps[where m = so_templates], simp add: upsert_source_keeps split: prod.split)

lemma ensure_weeks_keep:
  "so_log (fold ensure_week ds s) = so_log s" "so_templates (fold ensure_week ds s) = so_templates s"
  "so_table (fold ensure_week ds s) = so_table s" "so_next_event (fold ensure_week ds s) = so_next_event s"
  "so_next_template (fold ensure_week ds s) = so_next_template s"
  by (induction ds arbitrary: s) (simp_all add: ensure_week_def)

lemma upsert_stats_keep:
  "so_log (fold (upsert_stat t) ds s) = so_log s" "so_templates (fold (upsert_stat t) ds s) = so_templates s"
  "so_table (fold (upsert_stat t) ds s) = so_table s" "so_next_event (fold (upsert_stat t) ds s) = so_next_event s"
  "so_next_template (fold (upsert_stat t) ds s) = so_next_template s"
  by (induction ds arbitrary: s) (simp_all add: upsert_stat_def split: prod.split)

lemma store_ok_cong:
  assumes "so_log s' = so_log s" "so_templates s' = so_templates s" "so_table s' = so_table s"
    "so_next_event s' = so_next_event s" "so_next_template s' = so_next_template s"
  shows "store_ok mine s' = store_ok mine s" "stored s' = stored s" "source_total s' = source_total s"
    "template_total s' = template_total s"
  by (simp_all add: store_ok_def template_keys_def stored_def source_total_def template_total_def assms)

text \<open>A flush that returns has stored the batch, all of it, and counted every event with its template and its source.\<close>

lemma flush_stores:
  assumes ok: "store_ok mine s" and ran: "flush mine t fault batch dropped s = Inr d"
  shows "store_ok mine d \<and> stored d = stored s @ batch \<and> source_total d = source_total s + int (length batch)
    \<and> template_total d = template_total s + int (length batch)"
proof (cases "batch = [] \<and> dropped = []")
  case True
  then show ?thesis using assms by (auto simp: flush_def)
next
  case False
  define s1 where "s1 = fold ensure_week (map (\<lambda>ev. monday (the (event_time ev))) batch) s"
  define s2 where "s2 = fold (\<lambda>(fp, n). upsert_template t fp (snd (mine (the (find (\<lambda>ev. fst (mine ev) = fp) batch)))) n)
                         (tallied (map (fst \<circ> mine) batch)) s1"
  define s3 where "s3 = fold (insert_event mine) batch s2"
  define s4 where "s4 = fold (\<lambda>(src, n). upsert_source t src n) (tallied (map (\<lambda>ev. or_else (ev_source ev) []) batch)) s3"
  have d: "d = fold (upsert_stat t) dropped s4"
    using ran False unfolding flush_def Let_def s4_def s3_def s2_def s1_def by (simp split: if_splits option.splits)
  note c1 = store_ok_cong[of s1 s, unfolded s1_def ensure_weeks_keep, OF refl refl refl refl refl, folded s1_def]
  note c4 = store_ok_cong[of d s4, unfolded d upsert_stats_keep, OF refl refl refl refl refl, folded d]
  have ok1: "store_ok mine s1" using ok by (simp add: c1)
  have k2: "so_log s2 = so_log s1" "so_table s2 = so_table s1"
    unfolding s2_def by (rule upsert_templates_keep)+
  have s2: "store_ok mine s2" "template_total s2 = template_total s1 + int (length batch)"
      "\<forall>ev \<in> set batch. has_print (fst (mine ev)) s2"
    using upsert_templates[OF ok1, of t "\<lambda>fp. snd (mine (the (find (\<lambda>ev. fst (mine ev) = fp) batch)))" "tallied (map (fst \<circ> mine) batch)"]
    unfolding s2_def set_tallied tallied_total by simp_all
  have s3: "store_ok mine s3" "stored s3 = stored s2 @ batch" "so_templates s3 = so_templates s2" "so_table s3 = so_table s2"
    using insert_events[OF s2(1,3)] unfolding s3_def by blast+
  have s4: "store_ok mine s4" "source_total s4 = source_total s3 + int (length batch)"
    using upsert_sources[OF s3(1), of t "tallied (map (\<lambda>ev. or_else (ev_source ev) []) batch)"]
    unfolding s4_def tallied_total by simp_all
  have k4: "so_log s4 = so_log s3" "so_templates s4 = so_templates s3" unfolding s4_def by (rule upsert_sources_keep)+
  have "stored d = stored s @ batch" using s3(2) k2(1) k4(1) by (simp add: c4 c1(2)[symmetric]) (simp add: stored_def)
  moreover have "source_total d = source_total s + int (length batch)"
    using s4(2) s3(4) k2(2) by (simp add: c4 c1(3)[symmetric]) (simp add: source_total_def)
  moreover have "template_total d = template_total s + int (length batch)"
    using s2(2) s3(3) k4(2) by (simp add: c4 c1(4)[symmetric]) (simp add: template_total_def)
  ultimately show ?thesis using s4(1) by (simp add: c4)
qed

text \<open>A flush returns exactly when nothing is to store, or the connection holds and every text and instant is accepted.\<close>

lemma flush_accepts:
  "(\<exists>d. flush mine t fault batch dropped s = Inr d) \<longleftrightarrow>
     batch = [] \<and> dropped = [] \<or> (fault = None
       \<and> list_all (\<lambda>ev. event_time ev \<noteq> None \<and> row_ok ev \<and> text_ok (snd (mine ev))) batch
       \<and> list_all (\<lambda>((fid, src), n). text_ok src) dropped)"
  by (auto simp: flush_def Let_def list_all_iff list_ex_iff split: option.split)

section \<open>What the decoders promise the flush\<close>

text \<open>A text without NUL, attributes \<open>jsonb\<close> takes, and a template without NUL.\<close>

definition clean_event :: "(event \<Rightarrow> string \<times> string) \<Rightarrow> event \<Rightarrow> bool" where
  "clean_event mine ev =
     (list_all text_ok [or_else (ev_source ev) [], or_else (ev_facility ev) [], or_else (ev_severity_text ev) [],
        or_else (ev_program ev) [], or_else (ev_body ev) [], or_else (ev_raw ev) []]
      \<and> jsonb_ok (ev_attributes ev) \<and> text_ok (snd (mine ev)))"

lemma dropped_sources:
  assumes "partition_from R fs evs (passed, dropped) = (passed', dropped')" "\<forall>ev \<in> set evs. text_ok (or_else (ev_source ev) [])"
    and "\<forall>((fid, src), n) \<in> set dropped. text_ok src"
  shows "set passed' \<subseteq> set passed \<union> set evs \<and> (\<forall>((fid, src), n) \<in> set dropped'. text_ok src)"
  using assms
proof (induction evs arbitrary: passed dropped)
  case (Cons ev evs)
  show ?case
  proof (cases "match_event R fs ev")
    case None
    then show ?thesis using Cons.IH[of "passed @ [ev]" dropped] Cons.prems by auto
  next
    case (Some f)
    let ?src = "or_else (ev_source ev) ''?''"
    have "text_ok ?src" using Cons.prems(2) by (auto simp: or_else_def text_ok_def split: option.splits if_splits)
    then have "\<forall>((fid, src), n) \<in> set (count_up (if_id f, ?src) dropped). text_ok src"
      using Cons.prems(3) by (induction "(if_id f, ?src)" dropped rule: count_up.induct) auto
    then show ?thesis using Cons.IH[of passed "count_up (if_id f, ?src) dropped"] Cons.prems Some by auto
  qed
qed auto

text \<open>
  The interface between a decoder and the flush: every event made has an instant, a source, a body
  and a severity of the normalized scale.
\<close>

locale event_producer =
  fixes made :: "event \<Rightarrow> bool"
  assumes made_time: "made ev \<Longrightarrow> event_time ev \<noteq> None"
    and made_source: "made ev \<Longrightarrow> ev_source ev \<noteq> None"
    and made_body: "made ev \<Longrightarrow> ev_body ev \<noteq> None"
    and made_severity: "made ev \<Longrightarrow> ev_severity ev = Some n \<Longrightarrow> 1 \<le> n \<and> n \<le> 24"
begin

lemma row_stored: "made ev \<Longrightarrow> clean_event mine ev \<Longrightarrow> row_ok ev"
  using made_source made_body made_severity by (fastforce simp: row_ok_def clean_event_def split: option.split)

lemma flush_succeeds:
  assumes "\<forall>ev \<in> set evs. made ev \<and> clean_event mine ev" "partition_events R fs evs = (batch, dropped)"
  shows "\<exists>d. flush mine t None batch dropped s = Inr d"
proof -
  have "\<forall>ev \<in> set evs. text_ok (or_else (ev_source ev) [])" using assms(1) by (simp add: clean_event_def)
  then have d: "set batch \<subseteq> set evs" "\<forall>((fid, src), n) \<in> set dropped. text_ok src"
    using dropped_sources[of R fs evs "[]" "[]" batch dropped] assms(2) by (auto simp: partition_events_def)
  then have "list_all (\<lambda>ev. row_ok ev \<and> text_ok (snd (mine ev))) batch" "\<not> list_ex (\<lambda>ev. event_time ev = None) batch"
    using assms(1) row_stored[of _ mine] made_time by (auto simp: list_all_iff list_ex_iff clean_event_def)
  moreover have "list_all (\<lambda>((fid, src), n). text_ok src) dropped" using d(2) by (simp add: list_all_iff)
  ultimately show ?thesis by (simp add: flush_def Let_def)
qed

end

text \<open>The two decoders, and the events of both.\<close>

definition syslog_made :: "event \<Rightarrow> bool" where
  "syslog_made ev = (\<exists>iso_ts t raw peer. ev = parse_syslog iso_ts t raw peer)"

definition otlp_made :: "event \<Rightarrow> bool" where
  "otlp_made ev = (\<exists>E peer ra sa record. record_event E peer ra sa record = Inr ev)"

definition decoder_made :: "event \<Rightarrow> bool" where
  "decoder_made ev = (syslog_made ev \<or> otlp_made ev)"

lemma syslog_severity: "lookup syslog_to_otel i = Some n \<Longrightarrow> 1 \<le> n \<and> n \<le> 24"
proof -
  have "list_all (\<lambda>n. 1 \<le> n \<and> n \<le> 24) syslog_to_otel" by (simp add: syslog_to_otel_def)
  then show "lookup syslog_to_otel i = Some n \<Longrightarrow> 1 \<le> n \<and> n \<le> 24"
    by (auto simp: lookup_def list_all_length split: if_splits)
qed

lemma read_pri_severity: "read_pri txt = ((f, Some n, x), rest) \<Longrightarrow> 1 \<le> n \<and> n \<le> 24"
  by (auto simp: read_pri_def Let_def split: option.splits dest: syslog_severity)

lemma cisco_severity: "parse_cisco txt = Some c \<Longrightarrow> cl_severity c = Some n \<Longrightarrow> 1 \<le> n \<and> n \<le> 24"
  by (auto simp: parse_cisco_def Let_def dest: syslog_severity)

interpretation syslog: event_producer syslog_made
proof
  fix ev assume "syslog_made ev"
  then obtain iso_ts t raw peer where ev: "ev = parse_syslog iso_ts t raw peer" by (auto simp: syslog_made_def)
  show "event_time ev \<noteq> None" "ev_source ev \<noteq> None" "ev_body ev \<noteq> None"
    by (auto simp: ev parse_syslog_def event_time_def Let_def split: prod.split option.split)
  show "1 \<le> n \<and> n \<le> 24" if "ev_severity ev = Some n" for n
    using that by (auto simp: ev parse_syslog_def Let_def split: prod.splits option.splits if_splits
        dest: read_pri_severity cisco_severity)
qed

interpretation otlp: event_producer otlp_made
proof
  fix ev assume "otlp_made ev"
  then obtain E peer ra sa r where ev: "record_event E peer ra sa r = Inr ev" by (auto simp: otlp_made_def)
  show "event_time ev \<noteq> None" "ev_source ev \<noteq> None" "ev_body ev \<noteq> None"
    using ev by (auto simp: record_event_def event_time_def)
  show "1 \<le> n \<and> n \<le> 24" if "ev_severity ev = Some n" for n
    using record_event_bounded[OF ev] that by (simp add: event_bounded_def)
qed

interpretation decoder: event_producer decoder_made
  by unfold_locales (auto simp: decoder_made_def
      dest: syslog.made_time otlp.made_time syslog.made_source otlp.made_source syslog.made_body otlp.made_body
        syslog.made_severity otlp.made_severity)

section \<open>The loop ends\<close>

fun note_batch :: "round_note \<Rightarrow> event list" where
  "note_batch (Flushed batch dropped) = batch"
| "note_batch (Lost k e) = []"

fun note_lines :: "round_note \<Rightarrow> nat" where
  "note_lines (Flushed batch dropped) = length batch + sum_list (map snd dropped)"
| "note_lines (Lost k e) = k"

definition flushed :: "collector \<Rightarrow> event list" where
  "flushed s = concat (map note_batch (co_notes s))"

definition lines_held :: "collector \<Rightarrow> nat" where
  "lines_held s = length (co_queue s) + sum_list (map note_lines (co_notes s))"

text \<open>The tables \<open>d\<close> of the start, with what was flushed since.\<close>

definition booked :: "collector_env \<Rightarrow> store \<Rightarrow> collector \<Rightarrow> bool" where
  "booked C d s =
     (store_ok (mined C) (co_store s) \<and> stored (co_store s) = stored d @ flushed s
      \<and> source_total (co_store s) = source_total d + int (length (flushed s))
      \<and> template_total (co_store s) = template_total d + int (length (flushed s)))"

lemma partition_lines:
  assumes "partition_events R fs evs = (batch, dropped)"
  shows "length batch + sum_list (map snd dropped) = length evs"
  using partition_from_spec[of "[]" R fs evs "[]" batch dropped] assms
    sum_length_filter_compl[of "\<lambda>ev. match_event R fs ev = None" evs]
  by (simp add: partition_events_def)

lemma flush_round_lines: "lines_held (flush_round C n s) = lines_held s"
proof -
  let ?evs = "map (received C n) (take (taken_count C n) (co_queue s))"
  obtain batch dropped where p: "partition_events (ce_engine C) (ce_filters C n) ?evs = (batch, dropped)" by fastforce
  have "length (co_queue s) = length ?evs + length (drop (taken_count C n) (co_queue s))" by simp
  then show ?thesis using partition_lines[OF p] by (auto simp: flush_round_def Let_def lines_held_def p split: sum.split)
qed

lemma flush_round_booked: "booked C d s \<Longrightarrow> booked C d (flush_round C n s)"
  by (auto simp: flush_round_def Let_def booked_def flushed_def split: sum.split prod.split dest: flush_stores)

lemma flush_round_dead: "(\<forall>n. ce_rollback C n = None) \<Longrightarrow> co_dead s = None \<Longrightarrow> co_dead (flush_round C n s) = None"
  by (auto simp: flush_round_def Let_def split: sum.split prod.split)

lemma flusher_step_dead: "(\<forall>n. ce_rollback C n = None) \<Longrightarrow> co_dead s = None \<Longrightarrow> co_dead (flusher_step C n s) = None"
  by (simp add: flusher_step_def Let_def flush_round_dead)

lemma flush_round_shrinks: "co_queue s \<noteq> [] \<Longrightarrow> length (co_queue (flush_round C n s)) < length (co_queue s)"
  by (auto simp: flush_round_def Let_def taken_count_def split: sum.split prod.split)

lemma flusher_step_lines: "lines_held (flusher_step C n s) = lines_held s + length (ce_arrive C n)"
  by (simp add: flusher_step_def Let_def flush_round_lines) (simp add: lines_held_def)

lemma flusher_step_booked: "booked C d s \<Longrightarrow> booked C d (flusher_step C n s)"
proof -
  let ?s = "s\<lparr>co_queue := co_queue s @ ce_arrive C n\<rparr>"
  assume "booked C d s"
  then have "booked C d ?s" by (simp add: booked_def flushed_def)
  then show ?thesis using flush_round_booked[of C d ?s n]
    by (cases "co_queue s @ ce_arrive C n = [] \<or> co_dead s \<noteq> None") (auto simp: flusher_step_def Let_def)
qed

lemma flusher_step_queue:
  "co_queue s @ ce_arrive C n \<noteq> [] \<Longrightarrow> co_dead s = None \<Longrightarrow> length (co_queue (flusher_step C n s)) < length (co_queue s) + length (ce_arrive C n)"
  "length (co_queue (flusher_step C n s)) \<le> length (co_queue s) + length (ce_arrive C n)"
proof -
  let ?s = "s\<lparr>co_queue := co_queue s @ ce_arrive C n\<rparr>"
  show "length (co_queue (flusher_step C n s)) < length (co_queue s) + length (ce_arrive C n)" if "co_queue s @ ce_arrive C n \<noteq> []" "co_dead s = None"
    using that flush_round_shrinks[of ?s C n] by (simp add: flusher_step_def Let_def)
  then show "length (co_queue (flusher_step C n s)) \<le> length (co_queue s) + length (ce_arrive C n)"
    by (cases "co_queue s @ ce_arrive C n = [] \<or> co_dead s \<noteq> None") (auto simp: flusher_step_def Let_def intro: less_imp_le)
qed

text \<open>Lines that arrive between round \<open>n\<close> and round \<open>N\<close>.\<close>

definition arriving :: "collector_env \<Rightarrow> nat \<Rightarrow> nat \<Rightarrow> nat" where
  "arriving C n N = (\<Sum>i = n..<N. length (ce_arrive C i))"

lemma arriving_step: "n < N \<Longrightarrow> arriving C n N = length (ce_arrive C n) + arriving C (n + 1) N"
  by (simp add: arriving_def sum.atLeast_Suc_lessThan)

lemma arriving_none: "N \<le> n \<Longrightarrow> arriving C n N = 0"
  by (simp add: arriving_def)

lemma flusher_ends:
  assumes stop: "\<forall>i. ce_stop C i = (N \<le> i)" and quiet: "\<forall>i \<ge> N. ce_arrive C i = []"
    and "(N - n) + length (co_queue s) + arriving C n N \<le> fuel" "booked C d s"
  shows "\<exists>s'. flusher C fuel n s = Some s' \<and> booked C d s' \<and> lines_held s' \<le> lines_held s + arriving C n N
    \<and> (co_dead s' = None \<longrightarrow> co_queue s' = [] \<and> lines_held s' = lines_held s + arriving C n N)"
  using assms(3,4)
proof (induction fuel arbitrary: n s)
  case 0
  then show ?case using stop by (simp add: flusher.simps arriving_none)
next
  case (Suc m)
  show ?case
  proof (cases "co_dead s \<noteq> None \<or> N \<le> n \<and> co_queue s = []")
    case True
    then show ?thesis using stop Suc.prems(2) by (auto simp: flusher.simps arriving_none)
  next
    case False
    let ?s = "flusher_step C n s"
    have arr: "length (ce_arrive C n) + arriving C (n + 1) N = arriving C n N"
      using quiet by (cases "n < N") (simp_all add: arriving_step arriving_none)
    have "(N - (n + 1)) + length (co_queue ?s) + arriving C (n + 1) N \<le> m"
    proof (cases "n < N")
      case True
      then show ?thesis using Suc.prems(1) flusher_step_queue(2)[of C n s] arr by linarith
    next
      case none: False
      then have "co_queue s @ ce_arrive C n \<noteq> []" "co_dead s = None" using False by auto
      then show ?thesis using Suc.prems(1) flusher_step_queue(1)[of s C n] arr none by linarith
    qed
    from Suc.IH[OF this flusher_step_booked[OF Suc.prems(2)]]
    obtain s' where "flusher C m (n + 1) ?s = Some s'" "lines_held s' \<le> lines_held ?s + arriving C (n + 1) N"
        "co_dead s' = None \<longrightarrow> co_queue s' = [] \<and> lines_held s' = lines_held ?s + arriving C (n + 1) N" "booked C d s'"
      by (elim exE conjE)
    moreover have "flusher C (Suc m) n s = flusher C m (n + 1) ?s"
      by (subst flusher.simps) (use False stop in auto)
    moreover have "lines_held ?s + arriving C (n + 1) N = lines_held s + arriving C n N"
      using arr by (simp add: flusher_step_lines)
    ultimately show ?thesis by (intro exI[of _ s']) simp
  qed
qed

text \<open>An item that the listeners queue, and no text of which the database refuses in any round.\<close>

definition clean_item :: "collector_env \<Rightarrow> queue_item \<Rightarrow> bool" where
  "clean_item C item = ((\<forall>ev. item = Parsed ev \<longrightarrow> otlp_made ev) \<and> (\<forall>n. clean_event (mined C) (received C n item)))"

fun note_flushed :: "round_note \<Rightarrow> bool" where
  "note_flushed (Flushed batch dropped) = True"
| "note_flushed (Lost k e) = False"

lemma received_made: "clean_item C item \<Longrightarrow> decoder_made (received C n item)"
  by (cases item) (auto simp: clean_item_def received_def decoder_made_def syslog_made_def)

lemma flush_round_flushed:
  assumes "ce_fault C n = None" "\<forall>item \<in> set (co_queue s). clean_item C item" "list_all note_flushed (co_notes s)"
  shows "list_all note_flushed (co_notes (flush_round C n s)) \<and> set (co_queue (flush_round C n s)) \<subseteq> set (co_queue s)
    \<and> co_dead (flush_round C n s) = co_dead s"
proof -
  let ?evs = "map (received C n) (take (taken_count C n) (co_queue s))"
  obtain batch dropped where p: "partition_events (ce_engine C) (ce_filters C n) ?evs = (batch, dropped)" by fastforce
  have "\<forall>ev \<in> set ?evs. decoder_made ev \<and> clean_event (mined C) ev"
    using assms(2) by (auto dest!: in_set_takeD simp: received_made clean_item_def)
  then obtain d where "flush (mined C) (ce_now C n) None batch dropped (co_store s) = Inr d"
    using decoder.flush_succeeds[OF _ p] by blast
  then show ?thesis using assms(1,3) p by (auto simp: flush_round_def Let_def dest: in_set_dropD)
qed

lemma flusher_survives:
  assumes "\<forall>n. ce_rollback C n = None"
  shows "flusher C fuel n s = Some s' \<Longrightarrow> co_dead s = None \<Longrightarrow> co_dead s' = None"
proof (induction fuel arbitrary: n s)
  case 0
  then show ?case by (auto simp: flusher.simps split: if_splits)
next
  case (Suc m)
  then show ?case using flusher_step_dead[OF assms, of s n] by (auto simp: flusher.simps[of C "Suc m"] split: if_splits)
qed

lemma flusher_flushed:
  assumes "\<forall>n. ce_fault C n = None" "\<forall>n. \<forall>item \<in> set (ce_arrive C n). clean_item C item"
    and "flusher C fuel n s = Some s'" "\<forall>item \<in> set (co_queue s). clean_item C item" "list_all note_flushed (co_notes s)"
    "co_dead s = None"
  shows "list_all note_flushed (co_notes s') \<and> co_dead s' = None"
  using assms(3-6)
proof (induction fuel arbitrary: n s)
  case 0
  then show ?case by (auto simp: flusher.simps split: if_splits)
next
  case (Suc m)
  let ?t = "s\<lparr>co_queue := co_queue s @ ce_arrive C n\<rparr>"
  have t: "\<forall>item \<in> set (co_queue ?t). clean_item C item" "list_all note_flushed (co_notes ?t)" using Suc.prems(2,3) assms(2) by auto
  have "list_all note_flushed (co_notes (flusher_step C n s)) \<and> (\<forall>item \<in> set (co_queue (flusher_step C n s)). clean_item C item)
      \<and> co_dead (flusher_step C n s) = None"
    using flush_round_flushed[of C n ?t] assms(1) t Suc.prems(4) by (auto simp: flusher_step_def Let_def)
  then show ?case using Suc.IH[of "n + 1" "flusher_step C n s"] Suc.prems by (auto simp: flusher.simps[of C "Suc m"] split: if_splits)
qed


definition demo_line :: event where
  "demo_line = no_event\<lparr>ev_ts := Ts_Time 5, ev_source := Some ''web1'', ev_body := Some ''disk full'', ev_attributes := PDict []\<rparr>"

definition demo_collector :: collector_env where
  "demo_collector = \<lparr>ce_engine = demo_engine, ce_iso = (\<lambda>_. None), ce_sha1 = (\<lambda>s. s), ce_batch_max = 2,
     ce_arrive = (\<lambda>i. if i < 2 then [Parsed demo_line] else []), ce_stop = (\<lambda>i. 2 \<le> i), ce_window = (\<lambda>_. 1),
     ce_filters = (\<lambda>_. reload_filters demo_engine []), ce_now = int, ce_fault = (\<lambda>i. if i = 1 then Some (Exn ''OperationalError'' []) else None),
     ce_rollback = (\<lambda>_. None)\<rparr>"

definition no_rows :: store where
  "no_rows = \<lparr>so_log = [], so_next_event = 1, so_templates = [], so_next_template = 1, so_table = [], so_filter_ids = [],
     so_stats = [], so_weeks = {}\<rparr>"


section \<open>What loses a batch\<close>

text \<open>
  A rollback that raises (the connection is gone) ends the task: whatever arrives afterwards is queued and
  stays there.
\<close>

lemma dead_flusher_stores_nothing:
  assumes "co_dead s \<noteq> None"
  shows "fold (flusher_step C) [m..<n] s = s\<lparr>co_queue := co_queue s @ concat (map (ce_arrive C) [m..<n])\<rparr>"
  by (induction n) (use assms in \<open>auto simp: flusher_step_def Let_def\<close>)

text \<open>One event with a NUL character in a text makes every line of its round lost.\<close>

lemma nul_line_loses_round:
  assumes "ev \<in> set batch" "ev_body ev = Some body" "CHR 0x00 \<in> set body"
  shows "\<exists>e. flush mine t fault batch dropped s = Inl e"
proof -
  have "\<not> row_ok ev" using assms(2,3) by (simp add: row_ok_def text_ok_def or_else_def)
  then have "\<not> list_all (\<lambda>ev. row_ok ev \<and> text_ok (snd (mine ev))) batch" using assms(1) by (auto simp: list_all_iff)
  moreover have "batch \<noteq> []" using assms(1) by auto
  ultimately show ?thesis by (auto simp: flush_def split: option.split)
qed

end
