(* ===== verification/Webui.thy ===== *)
theory Webui
  imports Config Mcp_Serve Http
begin

text \<open>
  \<open>ringdown/webui.py\<close>, first part: signing in with OpenID Connect, the session table and the handlers
  that open, renew and end a session. Outside are the JWT library, AES-GCM, the hash functions, the
  random source, the identity provider and the clocks: fields of \<open>web_env\<close>, one value of it for
  each request.
\<close>

section \<open>What a request meets\<close>

text \<open>The claims of an ID token that the code reads.\<close>

record id_claims =
  ic_oid :: "string option"
  ic_upn :: "string option"
  ic_name :: "string option"
  ic_nonce :: pyval
  ic_roles :: "string list"

record web_env =
  wv_cfg :: front_settings
  wv_sign :: "string \<Rightarrow> dict \<Rightarrow> string"
  wv_verify :: "string \<Rightarrow> string \<Rightarrow> exn + dict"
  wv_thumb :: "exn + string"
  wv_assertion :: "dict \<Rightarrow> dict \<Rightarrow> exn + string"
  wv_post :: "string \<Rightarrow> (string \<times> string) list \<Rightarrow> exn + response"
  wv_id_token :: "string \<Rightarrow> string \<Rightarrow> string \<Rightarrow> exn + id_claims"
  wv_seal :: "string \<Rightarrow> string \<Rightarrow> string \<Rightarrow> string"
  wv_unseal :: "string \<Rightarrow> string \<Rightarrow> string \<Rightarrow> exn + string"
  wv_sha256 :: "string \<Rightarrow> string"
  wv_base64 :: "string \<Rightarrow> string"
  wv_random :: "nat \<Rightarrow> string"
  wv_uuid :: string
  wv_trunc :: "string \<Rightarrow> exn + int"
  wv_clock :: time
  wv_db_clock :: time
  wv_engine :: engine
  wv_pick :: "nat \<Rightarrow> event_row list \<Rightarrow> event_row list"

record web_request =
  wq_method :: string
  wq_origin :: "string option"
  wq_host :: string
  wq_length :: "string option"
  wq_type :: string
  wq_cookies :: "(string \<times> string) list"
  wq_query :: "(string \<times> string) list"
  wq_json :: "exn + pyval"

text \<open>Pages are kept as what varies in them.\<close>

datatype web_body =
    Message string string
  | Main_Page string string
  | Json_Body pyval
  | Plain string
  | Redirect string
  | Asset string string

record web_reply =
  wr_status :: int
  wr_body :: web_body
  wr_set :: "(string \<times> string \<times> int) list"
  wr_dropped :: "string list"

definition replying :: "int \<Rightarrow> web_body \<Rightarrow> web_reply" where
  "replying status body = \<lparr>wr_status = status, wr_body = body, wr_set = [], wr_dropped = []\<rparr>"

definition json_error :: "int \<Rightarrow> string \<Rightarrow> web_reply" where
  "json_error status msg = replying status (Json_Body (PDict [(''error'', PStr msg)]))"

record session_row =
  ss_sid :: string
  ss_oid :: "string option"
  ss_upn :: "string option"
  ss_name :: "string option"
  ss_sealed :: string
  ss_nonce :: string
  ss_access_exp :: time
  ss_absolute_exp :: time
  ss_last_seen :: time
  ss_revoked :: bool

record web =
  wb_sessions :: "session_row list"
  wb_ms :: mstate
  wb_evals :: "(id \<times> eval_row) list"

definition audit_web :: "string option \<Rightarrow> string \<Rightarrow> bool \<Rightarrow> dict \<Rightarrow> web \<Rightarrow> web" where
  "audit_web oid action ok detail w = w\<lparr>wb_ms := on_mdb (add_audit (or_else oid []) action detail ok) (wb_ms w)\<rparr>"

definition on_session :: "string \<Rightarrow> (session_row \<Rightarrow> session_row) \<Rightarrow> web \<Rightarrow> web" where
  "on_session sid f w = w\<lparr>wb_sessions := update_where (\<lambda>r. ss_sid r = sid) f (wb_sessions w)\<rparr>"

section \<open>Text helpers\<close>

definition escape_lt :: "string \<Rightarrow> string" where
  "escape_lt s = concat (map (\<lambda>c. if c = CHR ''<'' then ''&lt;'' else [c]) s)"

definition message :: "string \<Rightarrow> string \<Rightarrow> web_body" where
  "message title detail = Message (escape_lt title) (escape_lt detail)"

definition html_escape :: "string \<Rightarrow> string" where
  "html_escape s = concat (map (\<lambda>c.
     if c = CHR ''&'' then ''&amp;'' else if c = CHR ''<'' then ''&lt;'' else if c = CHR ''>'' then ''&gt;''
     else if c = CHR 0x22 then ''&quot;'' else if c = CHR 0x27 then ''&#x27;'' else [c]) s)"

definition rstrip_pad :: "string \<Rightarrow> string" where
  "rstrip_pad s = rev (dropWhile (\<lambda>c. c = CHR ''='') (rev s))"

text \<open>\<open>urlencode\<close>: the bytes of the UTF-8 text, quoted unless they are safe.\<close>

definition upper_hex :: "nat \<Rightarrow> char" where
  "upper_hex n = (if n < 10 then char_of (48 + n) else char_of (55 + n))"

definition percent :: "nat \<Rightarrow> string" where
  "percent b = [CHR ''%'', upper_hex (b div 16), upper_hex (b mod 16)]"

definition quote_plus_char :: "char \<Rightarrow> string" where
  "quote_plus_char c =
     (if is_alnum c \<or> c \<in> {CHR ''_'', CHR ''.'', CHR ''-'', CHR ''~''} then [c]
      else if c = CHR '' '' then ''+''
      else if code_point c < 128 then percent (code_point c)
      else percent (192 + code_point c div 64) @ percent (128 + code_point c mod 64))"

definition url_encoded :: "(string \<times> string) list \<Rightarrow> string" where
  "url_encoded ps = join ''&'' (map (\<lambda>(k, v). concat (map quote_plus_char k) @ ''='' @ concat (map quote_plus_char v)) ps)"

text \<open>\<open>hmac.compare_digest\<close> of two texts, which must be ASCII.\<close>

definition compare_digest :: "string \<Rightarrow> string \<Rightarrow> exn + bool" where
  "compare_digest a b =
     (if list_all (\<lambda>c. code_point c < 128) (a @ b) then Inr (a = b)
      else Inl (Exn ''TypeError'' ''comparing strings with non-ASCII characters is not supported''))"

definition compare_value :: "pyval \<Rightarrow> string \<Rightarrow> exn + bool" where
  "compare_value v b = (case v of PStr a \<Rightarrow> compare_digest a b | _ \<Rightarrow> Inl (Exn ''TypeError'' ''unsupported operand types''))"

text \<open>\<open>d[k]\<close> on what \<open>json()\<close> gave.\<close>

definition subscript :: "pyval \<Rightarrow> string \<Rightarrow> exn + pyval" where
  "subscript v k =
     (case v of
        PDict d \<Rightarrow> (case map_of d k of None \<Rightarrow> Inl (Exn ''KeyError'' k) | Some x \<Rightarrow> Inr x)
      | _ \<Rightarrow> Inl (Exn ''TypeError'' ''not subscriptable''))"

definition items_of :: "pyval \<Rightarrow> dict" where
  "items_of v = (case v of PDict d \<Rightarrow> d | _ \<Rightarrow> [])"

definition json_int :: "web_env \<Rightarrow> pyval \<Rightarrow> exn + int" where
  "json_int E v =
     (case v of
        PInt i \<Rightarrow> Inr i
      | PBool b \<Rightarrow> Inr (if b then 1 else 0)
      | PStr s \<Rightarrow> (case parse_int s of None \<Rightarrow> Inl (Exn ''ValueError'' ''invalid literal'') | Some i \<Rightarrow> Inr i)
      | PFloat r \<Rightarrow> wv_trunc E r
      | _ \<Rightarrow> Inl (Exn ''TypeError'' ''int''))"

section \<open>The identity provider\<close>

definition oidc_scope :: string where
  "oidc_scope = ''openid profile email offline_access''"

definition assertion_type :: string where
  "assertion_type = ''urn:ietf:params:oauth:client-assertion-type:jwt-bearer''"

definition token_endpoint :: "front_settings \<Rightarrow> string" where
  "token_endpoint c = st_authority c @ ''/oauth2/v2.0/token''"

definition unix_seconds :: "time \<Rightarrow> int" where
  "unix_seconds t = t div 1000000"

definition client_assertion :: "web_env \<Rightarrow> exn + string" where
  "client_assertion E =
     (let c = wv_cfg E; now = unix_seconds (wv_clock E)
      in bind_sum (wv_thumb E) (\<lambda>x5t. wv_assertion E
           [(''aud'', PStr (token_endpoint c)), (''iss'', PStr (st_client c)), (''sub'', PStr (st_client c)), (''jti'', PStr (wv_uuid E)),
            (''nbf'', PInt now), (''iat'', PInt now), (''exp'', PInt (now + 300))]
           [(''x5t'', PStr (rstrip_pad x5t))]))"

definition token_request :: "web_env \<Rightarrow> (string \<times> string) list \<Rightarrow> exn + pyval" where
  "token_request E form =
     bind_sum (client_assertion E) (\<lambda>signed.
     bind_sum (wv_post E (token_endpoint (wv_cfg E)) (form @ [(''client_id'', st_client (wv_cfg E)),
         (''client_assertion_type'', assertion_type), (''client_assertion'', signed)])) (\<lambda>r.
     bind_sum (raise_for_status r) (\<lambda>_. json_body r)))"

definition exchange_code :: "web_env \<Rightarrow> string \<Rightarrow> string \<Rightarrow> exn + pyval" where
  "exchange_code E code verifier = token_request E
     [(''grant_type'', ''authorization_code''), (''code'', code), (''redirect_uri'', st_redirect_uri (wv_cfg E)), (''scope'', oidc_scope),
      (''code_verifier'', verifier)]"

definition refresh_grant :: "web_env \<Rightarrow> string \<Rightarrow> exn + pyval" where
  "refresh_grant E rt = token_request E [(''grant_type'', ''refresh_token''), (''refresh_token'', rt), (''scope'', oidc_scope)]"

definition nonce_text :: "pyval \<Rightarrow> string" where
  "nonce_text v = (if truthy v then scalar_text v else [])"

text \<open>A token that is no text is refused by the library; a nonce that is \<open>None\<close> is not compared.\<close>

definition validate_id_token :: "web_env \<Rightarrow> pyval \<Rightarrow> pyval \<Rightarrow> exn + id_claims" where
  "validate_id_token E id_token nonce =
     bind_sum (case id_token of PStr t \<Rightarrow> wv_id_token E t (st_client (wv_cfg E)) (st_authority (wv_cfg E) @ ''/v2.0'')
               | _ \<Rightarrow> Inl (Exn ''DecodeError'' ''Invalid token type'')) (\<lambda>claims.
     if nonce = PNone then Inr claims
     else bind_sum (case nonce of PStr n \<Rightarrow> compare_digest (nonce_text (ic_nonce claims)) n
                    | _ \<Rightarrow> Inl (Exn ''TypeError'' ''unsupported operand types'')) (\<lambda>same.
       if same then Inr claims else Inl (Exn ''ValueError'' ''nonce mismatch'')))"

definition admin_role :: "web_env \<Rightarrow> id_claims \<Rightarrow> bool" where
  "admin_role E claims = (py_lower (st_admin_role (wv_cfg E)) \<in> set (map py_lower (ic_roles claims)))"

section \<open>Cookies and sealed tokens\<close>

definition signed :: "web_env \<Rightarrow> dict \<Rightarrow> string" where
  "signed E payload = wv_sign E (st_session_secret (wv_cfg E)) payload"

definition unsign :: "web_env \<Rightarrow> string \<Rightarrow> dict option" where
  "unsign E token = (case wv_verify E (st_session_secret (wv_cfg E)) token of Inl e \<Rightarrow> None | Inr d \<Rightarrow> Some d)"

text \<open>The server signs a session id only as a text.\<close>

definition sid_from_cookie :: "web_env \<Rightarrow> web_request \<Rightarrow> string option" where
  "sid_from_cookie E rq =
     (case map_of (wq_cookies rq) ''rd_session'' of
        None \<Rightarrow> None
      | Some c \<Rightarrow>
        if c = [] then None
        else (case unsign E c of
                None \<Rightarrow> None
              | Some d \<Rightarrow> (case dict_get d ''sid'' of PStr sid \<Rightarrow> if sid = [] then None else Some sid | _ \<Rightarrow> None)))"

definition enc_key :: "web_env \<Rightarrow> string" where
  "enc_key E = wv_sha256 E (st_session_enc_key (wv_cfg E))"

definition encrypt_rt :: "web_env \<Rightarrow> string \<Rightarrow> nat \<Rightarrow> string \<times> string" where
  "encrypt_rt E rt k = (wv_seal E (enc_key E) (wv_random E k) rt, wv_random E k)"

definition decrypt_rt :: "web_env \<Rightarrow> string \<Rightarrow> string \<Rightarrow> exn + string" where
  "decrypt_rt E ct nonce = wv_unseal E (enc_key E) nonce ct"

section \<open>The session table\<close>

text \<open>The values an \<open>interval\<close> and a \<open>timestamptz\<close> can hold.\<close>

definition timestamp_ok :: "time \<Rightarrow> bool" where
  "timestamp_ok t = (- 210866803200000000 \<le> t \<and> t < 9224318016000000000)"

definition later :: "time \<Rightarrow> int \<Rightarrow> exn + time" where
  "later t secs = (if timestamp_ok (t + secs * 1000000) then Inr (t + secs * 1000000) else Inl (Exn ''DatetimeFieldOverflow'' []))"

definition expires_in :: "web_env \<Rightarrow> pyval \<Rightarrow> exn + int" where
  "expires_in E tok = json_int E (get_default (items_of tok) ''expires_in'' (PInt 3600))"

text \<open>\<open>rt.encode()\<close> of a token that is no text fails.\<close>

definition token_text :: "pyval \<Rightarrow> exn + string" where
  "token_text v = (case v of PStr s \<Rightarrow> Inr s | _ \<Rightarrow> Inl (Exn ''AttributeError'' ''encode''))"

definition new_session :: "web_env \<Rightarrow> id_claims \<Rightarrow> pyval \<Rightarrow> web \<Rightarrow> exn + (string \<times> web)" where
  "new_session E claims tok w =
     (let rt = dict_get (items_of tok) ''refresh_token''; sid = wv_random E 0; now = wv_db_clock E in
      if \<not> truthy rt then Inl (Exn ''ValueError'' ''no refresh_token in token response - offline_access not granted'')
      else bind_sum (token_text rt) (\<lambda>rt.
           bind_sum (expires_in E tok) (\<lambda>secs.
           bind_sum (later now secs) (\<lambda>access_exp.
           bind_sum (later now (st_absolute_cap_days (wv_cfg E) * 86400)) (\<lambda>absolute_exp.
           if list_ex (\<lambda>r. ss_sid r = sid) (wb_sessions w) then Inl (Exn ''UniqueViolation'' sid)
           else case encrypt_rt E rt 1 of (ct, nonce) \<Rightarrow>
             Inr (sid, audit_web (ic_oid claims) ''webui_login'' True []
               (w\<lparr>wb_sessions := wb_sessions w @ [\<lparr>ss_sid = sid, ss_oid = ic_oid claims, ss_upn = ic_upn claims, ss_name = ic_name claims,
                   ss_sealed = ct, ss_nonce = nonce, ss_access_exp = access_exp, ss_absolute_exp = absolute_exp,
                   ss_last_seen = now, ss_revoked = False\<rparr>]\<rparr>)))))))"

text \<open>A row is live while it is not revoked and before its ceiling.\<close>

definition live_row :: "web_env \<Rightarrow> string \<Rightarrow> web \<Rightarrow> session_row option" where
  "live_row E sid w = find_row (\<lambda>r. ss_sid r = sid \<and> \<not> ss_revoked r \<and> ss_absolute_exp r > wv_db_clock E) (wb_sessions w)"

definition load_session :: "web_env \<Rightarrow> web_request \<Rightarrow> web \<Rightarrow> session_row option" where
  "load_session E rq w = (case sid_from_cookie E rq of None \<Rightarrow> None | Some sid \<Rightarrow> live_row E sid w)"

definition revoke_sid :: "string \<Rightarrow> web \<Rightarrow> web" where
  "revoke_sid sid = on_session sid (\<lambda>r. r\<lparr>ss_revoked := True\<rparr>)"

text \<open>What a refresh learns from the provider: the claims, the token to keep and the new expiry.\<close>

definition renewed :: "web_env \<Rightarrow> session_row \<Rightarrow> exn + (id_claims \<times> string \<times> time)" where
  "renewed E row =
     bind_sum (decrypt_rt E (ss_sealed row) (ss_nonce row)) (\<lambda>rt.
     bind_sum (refresh_grant E rt) (\<lambda>tok.
     bind_sum (subscript tok ''id_token'') (\<lambda>id_token.
     bind_sum (validate_id_token E id_token PNone) (\<lambda>claims.
     if \<not> admin_role E claims then Inl (Exn ''PermissionError'' ''admin role no longer present'')
     else bind_sum (let v = dict_get (items_of tok) ''refresh_token'' in if truthy v then token_text v else Inr rt) (\<lambda>next.
          bind_sum (expires_in E tok) (\<lambda>secs.
          bind_sum (later (wv_db_clock E) secs) (\<lambda>access_exp. Inr (claims, next, access_exp))))))))"

definition do_refresh :: "web_env \<Rightarrow> session_row \<Rightarrow> web \<Rightarrow> bool \<times> web" where
  "do_refresh E row w =
     (case renewed E row of
        Inr (claims, rt, access_exp) \<Rightarrow>
          (case encrypt_rt E rt 0 of (ct, nonce) \<Rightarrow>
             (True, audit_web (ss_oid row) ''webui_refresh'' True []
               (on_session (ss_sid row) (\<lambda>r. r\<lparr>ss_sealed := ct, ss_nonce := nonce, ss_access_exp := access_exp,
                  ss_last_seen := wv_db_clock E\<rparr>) w)))
      | Inl e \<Rightarrow>
          (False, audit_web (ss_oid row) ''webui_refresh_failed'' False [(''err'', PStr (exn_type e))] (revoke_sid (ss_sid row) w)))"

section \<open>The handlers of a session\<close>

definition login :: "web_env \<Rightarrow> web_reply" where
  "login E =
     (let c = wv_cfg E; verifier = wv_random E 0; state = wv_random E 1; nonce = wv_random E 2;
          challenge = rstrip_pad (wv_base64 E (wv_sha256 E verifier));
          flow = signed E [(''state'', PStr state), (''nonce'', PStr nonce), (''verifier'', PStr verifier),
                           (''exp'', PInt (unix_seconds (wv_clock E) + 600))]
      in (replying 302 (Redirect (st_authority c @ ''/oauth2/v2.0/authorize?'' @ url_encoded
           [(''client_id'', st_client c), (''response_type'', ''code''), (''redirect_uri'', st_redirect_uri c), (''scope'', oidc_scope),
            (''state'', state), (''nonce'', nonce), (''response_mode'', ''query''),
            (''code_challenge'', challenge), (''code_challenge_method'', ''S256'')])))\<lparr>wr_set := [(''rd_flow'', flow, 600)]\<rparr>)"

definition query :: "web_request \<Rightarrow> string \<Rightarrow> string" where
  "query rq k = or_else (map_of (wq_query rq) k) []"

text \<open>The token exchange of a callback, and what it proves of the caller.\<close>

definition signed_in :: "web_env \<Rightarrow> string \<Rightarrow> dict \<Rightarrow> exn + (id_claims \<times> pyval)" where
  "signed_in E code flow =
     bind_sum (subscript (PDict flow) ''verifier'') (\<lambda>verifier.
     bind_sum (exchange_code E code (scalar_text verifier)) (\<lambda>tok.
     bind_sum (subscript tok ''id_token'') (\<lambda>id_token.
     bind_sum (subscript (PDict flow) ''nonce'') (\<lambda>nonce.
     bind_sum (validate_id_token E id_token nonce) (\<lambda>claims. Inr (claims, tok))))))"

definition open_session :: "web_env \<Rightarrow> id_claims \<Rightarrow> pyval \<Rightarrow> web \<Rightarrow> web_reply \<times> web" where
  "open_session E claims tok w =
     (if \<not> admin_role E claims
      then (let upn = or_else (ic_upn claims) []; name = or_else (ic_name claims) [];
                who = (if upn \<noteq> [] then upn else if name \<noteq> [] then name else ''you'')
            in (replying 403 (message ''Access denied (403)'' (who @ '' is signed in but lacks the '' @ st_admin_role (wv_cfg E) @ '' role.'')), w))
      else case new_session E claims tok w of
        Inl e \<Rightarrow> (replying 400 (message ''Sign-in incomplete'' (''could not establish a session ('' @ exn_type e
                   @ ''). If this persists, offline_access may not be granted for the app.'')), w)
      | Inr (sid, w1) \<Rightarrow>
          let cap = st_absolute_cap_days (wv_cfg E) * 86400;
              cookie = signed E [(''sid'', PStr sid), (''exp'', PInt (unix_seconds (wv_clock E) + cap))]
          in ((replying 302 (Redirect ''/''))\<lparr>wr_set := [(''rd_session'', cookie, cap)], wr_dropped := [''rd_flow'']\<rparr>, w1))"

definition callback :: "web_env \<Rightarrow> web_request \<Rightarrow> web \<Rightarrow> (exn + web_reply) \<times> web" where
  "callback E rq w =
     (let code = query rq ''code''; state = query rq ''state''; flow_c = or_else (map_of (wq_cookies rq) ''rd_flow'') [] in
      if query rq ''error'' \<noteq> []
      then (Inr (replying 400 (message ''Sign-in error'' (query rq ''error'' @ '': '' @ query rq ''error_description''))), w)
      else if code = [] \<or> state = [] \<or> flow_c = []
      then (Inr (replying 400 (message ''Bad callback'' (''missing code/state/flow '' @ em_dash @ '' retry sign-in.''))), w)
      else (case unsign E flow_c of
        None \<Rightarrow> (Inr (replying 400 (message ''Sign-in expired'' (''the login flow expired or state mismatched '' @ em_dash @ '' retry.''))), w)
      | Some flow \<Rightarrow>
        if flow = [] then (Inr (replying 400 (message ''Sign-in expired'' (''the login flow expired or state mismatched '' @ em_dash @ '' retry.''))), w)
        else (case compare_value (get_default flow ''state'' (PStr [])) state of
          Inl e \<Rightarrow> (Inl e, w)
        | Inr same \<Rightarrow>
          if \<not> same then (Inr (replying 400 (message ''Sign-in expired'' (''the login flow expired or state mismatched '' @ em_dash @ '' retry.''))), w)
          else (case signed_in E code flow of
            Inl e \<Rightarrow> (Inr (replying 400 (message ''Token validation failed'' (exn_type e))), w)
          | Inr (claims, tok) \<Rightarrow> (case open_session E claims tok w of (r, w1) \<Rightarrow> (Inr r, w1))))))"

definition logout :: "web_env \<Rightarrow> web_request \<Rightarrow> web \<Rightarrow> web_reply \<times> web" where
  "logout E rq w =
     ((replying 302 (Redirect ''/''))\<lparr>wr_dropped := [''rd_session'']\<rparr>,
      case sid_from_cookie E rq of
        None \<Rightarrow> w
      | Some sid \<Rightarrow> audit_web None ''webui_logout'' True [] (revoke_sid sid w))"

definition ok_reply :: "bool \<Rightarrow> web_reply" where
  "ok_reply ok = replying (if ok then 200 else 401) (Json_Body (PDict [(''ok'', PBool ok)]))"

definition needs_refresh :: "web_env \<Rightarrow> session_row \<Rightarrow> bool" where
  "needs_refresh E row = (ss_access_exp row \<le> wv_db_clock E + seconds (st_refresh_skew (wv_cfg E)))"

definition keepalive :: "web_env \<Rightarrow> web_request \<Rightarrow> web \<Rightarrow> web_reply \<times> web" where
  "keepalive E rq w =
     (case load_session E rq w of
        None \<Rightarrow> (ok_reply False, w)
      | Some row \<Rightarrow>
        (case (if needs_refresh E row then do_refresh E row w else (True, w)) of
           (False, w1) \<Rightarrow> (ok_reply False, w1)
         | (True, w1) \<Rightarrow> (ok_reply True, on_session (ss_sid row) (\<lambda>r. r\<lparr>ss_last_seen := wv_db_clock E\<rparr>) w1)))"

definition index :: "web_env \<Rightarrow> web_request \<Rightarrow> web \<Rightarrow> web_reply" where
  "index E rq w =
     (case load_session E rq w of
        None \<Rightarrow> replying 302 (Redirect ''/auth/login'')
      | Some row \<Rightarrow>
        let name = or_else (ss_name row) []; upn = or_else (ss_upn row) [];
            who = (if name \<noteq> [] then name else if upn \<noteq> [] then upn else ''admin'')
        in replying 200 (Main_Page (html_escape who) (int_text (st_keepalive_ping (wv_cfg E) * 1000))))"

definition favicon_assets :: "(string \<times> string \<times> string) list" where
  "favicon_assets =
     [(''/favicon.ico'', ''favicon.ico'', ''image/vnd.microsoft.icon''),
      (''/favicon-16x16.png'', ''favicon-16x16.png'', ''image/png''),
      (''/favicon-32x32.png'', ''favicon-32x32.png'', ''image/png''),
      (''/apple-touch-icon.png'', ''apple-touch-icon.png'', ''image/png''),
      (''/android-chrome-192x192.png'', ''android-chrome-192x192.png'', ''image/png''),
      (''/android-chrome-512x512.png'', ''android-chrome-512x512.png'', ''image/png''),
      (''/site.webmanifest'', ''site.webmanifest'', ''application/manifest+json'')]"

definition favicon_asset :: "string \<Rightarrow> web_reply option" where
  "favicon_asset path = (case map_of favicon_assets path of None \<Rightarrow> None
     | Some (filename, media_type) \<Rightarrow> Some (replying 200 (Asset filename media_type)))"

end
