(* ===== verification/Webui_Api.thy ===== *)
theory Webui_Api
  imports Webui
begin

text \<open>
  \<open>ringdown/webui.py\<close>, second part: the gate before a change (\<open>_json_request\<close>), the filter control
  plane, the detail of an evaluation and the routes. Answers leave out time stamps the model's rows
  do not hold, the authorship of filters and their drop counters.
\<close>

section \<open>The gate\<close>

text \<open>
  The network location of an origin; brackets that do not match are refused by \<open>urlparse\<close>
  (one pair of them is not looked into).
\<close>

definition origin_netloc :: "string \<Rightarrow> exn + string" where
  "origin_netloc origin =
     (let loc = netloc_of (snd (split_scheme (clean_url origin)))
      in if (CHR ''['' \<in> set loc) \<noteq> (CHR '']'' \<in> set loc) then Inl (Exn ''ValueError'' ''Invalid IPv6 URL'') else Inr (py_lower loc))"

definition content_length :: "web_request \<Rightarrow> int" where
  "content_length rq = (case parse_int (or_else (wq_length rq) ''0'') of None \<Rightarrow> 0 | Some n \<Rightarrow> n)"

text \<open>Either the object in the body or the answer that refuses the request.\<close>

definition json_request :: "web_request \<Rightarrow> exn + (web_reply + dict)" where
  "json_request rq =
     bind_sum (let origin = or_else (wq_origin rq) [] in
               if origin = [] then Inr True else bind_sum (origin_netloc origin) (\<lambda>loc. Inr (loc = py_lower (wq_host rq)))) (\<lambda>same.
     Inr (if \<not> same then Inl (json_error 403 ''cross-origin request refused'')
          else if content_length rq > 32768 then Inl (json_error 413 ''request body too large'')
          else if \<not> contains ''application/json'' (py_lower (wq_type rq)) then Inl (json_error 415 ''application/json required'')
          else (case wq_json rq of
                  Inl e \<Rightarrow> Inl (json_error 400 ''invalid JSON body'')
                | Inr (PDict body) \<Rightarrow> Inr body
                | Inr _ \<Rightarrow> Inl (json_error 400 ''JSON body must be an object''))))"

section \<open>Ingress filters\<close>

definition spec_from_body :: "web_env \<Rightarrow> dict \<Rightarrow> exn + filter_spec" where
  "spec_from_body E body =
     (case get_default body ''case_sensitive'' (PBool False) of
        PBool cs \<Rightarrow> validate_filter_spec (wv_engine E)
          \<lparr>raw_name = get_default body ''name'' (PStr []), raw_match_type = get_default body ''match_type'' (PStr []),
           raw_pattern = get_default body ''pattern'' (PStr []), raw_source_glob = get_default body ''source_glob'' (PStr []),
           raw_program_glob = get_default body ''program_glob'' (PStr []), raw_case = PBool cs,
           raw_order = get_default body ''filter_order'' (PInt 100)\<rparr>
      | _ \<Rightarrow> invalid ''case_sensitive must be a JSON boolean.'')"

definition enabled_from_body :: "dict \<Rightarrow> exn + bool" where
  "enabled_from_body body =
     (case get_default body ''enabled'' (PBool True) of PBool b \<Rightarrow> Inr b | _ \<Rightarrow> invalid ''enabled must be a JSON boolean.'')"

definition failure :: "int \<Rightarrow> string \<Rightarrow> exn \<Rightarrow> web_reply" where
  "failure status what e = json_error status (what @ '' failed: '' @ exn_type e @ '': '' @ take 160 (exn_msg e))"

text \<open>The two handlers of an exception around a write: a refused filter is the caller's error.\<close>

definition write_failure :: "int \<Rightarrow> string \<Rightarrow> exn \<Rightarrow> web_reply" where
  "write_failure status what e =
     (if exn_type e = ''FilterValidationError'' then json_error 400 (exn_msg e) else failure status what e)"

text \<open>What the row of a validated filter must still pass: no NUL in a text, a name of its own.\<close>

definition writable_spec :: "filter_spec \<Rightarrow> id option \<Rightarrow> web \<Rightarrow> exn + unit" where
  "writable_spec spec self w =
     (if CHR 0x00 \<in> set (fs_name spec @ fs_pattern spec @ fs_source_glob spec @ fs_program_glob spec) then Inl (Exn ''DataError'' ''NUL'')
      else if name_taken (fs_name spec) self (ms_filters (wb_ms w)) then Inl (Exn ''UniqueViolation'' (fs_name spec))
      else Inr ())"

definition on_filters :: "(filter_row list \<Rightarrow> filter_row list) \<Rightarrow> web \<Rightarrow> web" where
  "on_filters f w = w\<lparr>wb_ms := (wb_ms w)\<lparr>ms_filters := f (ms_filters (wb_ms w))\<rparr>\<rparr>"

definition filter_json :: "filter_row \<Rightarrow> pyval" where
  "filter_json f = PDict [(''id'', PInt (fr_id f)), (''name'', PStr (fr_name f)), (''match_type'', PStr (fr_match_type f)),
     (''pattern'', PStr (fr_pattern f)), (''source_glob'', opt_str (fr_source_glob f)), (''program_glob'', opt_str (fr_program_glob f)),
     (''case_sensitive'', PBool (fr_case f)), (''filter_order'', PInt (fr_order f)), (''enabled'', PBool (fr_enabled f))]"

definition written_json :: "string \<Rightarrow> id \<Rightarrow> filter_spec \<Rightarrow> bool \<Rightarrow> web_body" where
  "written_json what n spec on = Json_Body (PDict [(what, PDict [(''id'', PInt n), (''name'', PStr (fs_name spec)), (''enabled'', PBool on)])])"

definition create_filter :: "web_env \<Rightarrow> session_row \<Rightarrow> dict \<Rightarrow> web \<Rightarrow> web_reply \<times> web" where
  "create_filter E row body w =
     (case bind_sum (spec_from_body E body) (\<lambda>spec. bind_sum (enabled_from_body body) (\<lambda>on.
             bind_sum (writable_spec spec None w) (\<lambda>_. Inr (spec, on)))) of
        Inl e \<Rightarrow> (write_failure 409 ''create'' e, w)
      | Inr (spec, on) \<Rightarrow>
        let n = ms_next_filter (wb_ms w) in
        (replying 201 (written_json ''created'' n spec on),
         audit_web (ss_oid row) ''webui_register_ingress_filter'' True
           [(''id'', PInt n), (''name'', PStr (fs_name spec)), (''match_type'', PStr (fs_match_type spec))]
           (w\<lparr>wb_ms := (wb_ms w)\<lparr>ms_filters := ms_filters (wb_ms w) @ [filter_row_of n spec on], ms_next_filter := n + 1\<rparr>\<rparr>)))"

definition unauthenticated :: web_reply where
  "unauthenticated = json_error 401 ''unauthenticated''"

text \<open>What every changing handler does with its body.\<close>

definition with_body :: "web_request \<Rightarrow> web \<Rightarrow> (dict \<Rightarrow> web_reply \<times> web) \<Rightarrow> (exn + web_reply) \<times> web" where
  "with_body rq w act =
     (case json_request rq of
        Inl e \<Rightarrow> (Inl e, w)
      | Inr (Inl denied) \<Rightarrow> (Inr denied, w)
      | Inr (Inr body) \<Rightarrow> (case act body of (r, w1) \<Rightarrow> (Inr r, w1)))"

definition with_session :: "web_env \<Rightarrow> web_request \<Rightarrow> web \<Rightarrow> (session_row \<Rightarrow> (exn + web_reply) \<times> web) \<Rightarrow> (exn + web_reply) \<times> web" where
  "with_session E rq w act = (case load_session E rq w of None \<Rightarrow> (Inr unauthenticated, w) | Some row \<Rightarrow> act row)"

text \<open>A request by HEAD is routed here as well and takes the branch of POST.\<close>

definition filters_collection :: "web_env \<Rightarrow> web_request \<Rightarrow> web \<Rightarrow> (exn + web_reply) \<times> web" where
  "filters_collection E rq w = with_session E rq w (\<lambda>row.
     if wq_method rq = ''GET''
     then (Inr (replying 200 (Json_Body (PDict [(''filters'',
             PList (map filter_json (sort_key fr_order (sort_key fr_id (ms_filters (wb_ms w))))))]))), w)
     else with_body rq w (\<lambda>body. create_filter E row body w))"

definition or_int :: "web_env \<Rightarrow> dict \<Rightarrow> string \<Rightarrow> int \<Rightarrow> exn + int" where
  "or_int E body k n = (let v = dict_get body k in json_int E (if truthy v then v else PInt n))"

definition event_json :: "event_row \<Rightarrow> pyval" where
  "event_json e = PDict [(''id'', PInt (er_id e)), (''source'', PStr (er_source e)), (''program'', opt_str (er_program e)), (''body'', PStr (er_body e))]"

definition filters_preview :: "web_env \<Rightarrow> web_request \<Rightarrow> web \<Rightarrow> (exn + web_reply) \<times> web" where
  "filters_preview E rq w = with_session E rq w (\<lambda>row. with_body rq w (\<lambda>body.
     (case bind_sum (spec_from_body E body) (\<lambda>spec. bind_sum (or_int E body ''limit'' 20) (\<lambda>limit.
             preview_filter (wv_engine E) (map event_row_of (ms_events (wb_ms w))) spec (min limit 100))) of
        Inl e \<Rightarrow> write_failure 400 ''preview'' e
      | Inr (n, sample, limit) \<Rightarrow>
        replying 200 (Json_Body (PDict [(''would_match'', PInt (int n)), (''sample'', PList (map event_json sample)), (''limit'', PInt limit)])), w)))"

text \<open>A path holds decimal digits only; an id beyond \<open>bigint\<close> makes the query fail.\<close>

definition find_filter :: "id \<Rightarrow> web \<Rightarrow> exn + filter_row option" where
  "find_filter n w = (if n \<ge> 2 ^ 63 then Inl (Exn ''NumericValueOutOfRange'' []) else Inr (get_filter n (wb_ms w)))"

definition with_filter :: "id \<Rightarrow> web \<Rightarrow> (filter_row \<Rightarrow> (exn + web_reply) \<times> web) \<Rightarrow> (exn + web_reply) \<times> web" where
  "with_filter n w act =
     (case find_filter n w of
        Inl e \<Rightarrow> (Inl e, w)
      | Inr None \<Rightarrow> (Inr (json_error 404 ''filter not found''), w)
      | Inr (Some f) \<Rightarrow> act f)"

definition replace_filter :: "web_env \<Rightarrow> session_row \<Rightarrow> id \<Rightarrow> dict \<Rightarrow> web \<Rightarrow> web_reply \<times> web" where
  "replace_filter E row n body w =
     (case bind_sum (spec_from_body E body) (\<lambda>spec. bind_sum (enabled_from_body body) (\<lambda>on.
             bind_sum (writable_spec spec (Some n) w) (\<lambda>_. Inr (spec, on)))) of
        Inl e \<Rightarrow> (write_failure 409 ''update'' e, w)
      | Inr (spec, on) \<Rightarrow>
        (replying 200 (written_json ''updated'' n spec on),
         audit_web (ss_oid row) ''webui_update_ingress_filter'' True [(''id'', PInt n), (''name'', PStr (fs_name spec))]
           (on_filters (update_where (\<lambda>f. fr_id f = n) (\<lambda>_. filter_row_of n spec on)) w)))"

definition filter_item :: "web_env \<Rightarrow> web_request \<Rightarrow> id \<Rightarrow> web \<Rightarrow> (exn + web_reply) \<times> web" where
  "filter_item E rq n w = with_session E rq w (\<lambda>row. with_filter n w (\<lambda>f.
     if wq_method rq = ''DELETE''
     then (Inr (replying 200 (Json_Body (PDict [(''deleted'', PBool True), (''id'', PInt n)]))),
           audit_web (ss_oid row) ''webui_delete_ingress_filter'' True [(''id'', PInt n), (''name'', PStr (fr_name f))]
             (on_filters (delete_where (\<lambda>f. fr_id f = n)) w))
     else with_body rq w (\<lambda>body. replace_filter E row n body w)))"

definition purge_batch :: "web_env \<Rightarrow> session_row \<Rightarrow> filter_row \<Rightarrow> dict \<Rightarrow> web \<Rightarrow> web_reply \<times> web" where
  "purge_batch E row f body w =
     (case bind_sum (or_int E body ''batch_size'' 50000) (\<lambda>batch.
             purge_filter (wv_engine E) (wv_pick E) (map event_row_of (ms_events (wb_ms w))) (spec_of_row f) batch) of
        Inl e \<Rightarrow> (failure 400 ''purge'' e,
          audit_web (ss_oid row) ''webui_purge_ingress_filter'' False [(''id'', PInt (fr_id f)), (''error'', PStr (exn_type e))] w)
      | Inr (deleted, most, full, remaining) \<Rightarrow>
        let kept = (\<lambda>e. (er_id e, er_ts e)) ` set remaining
        in (replying 200 (Json_Body (PDict [(''deleted'', PInt (int deleted)), (''batch_size'', PInt most), (''batch_limit_reached'', PBool full),
              (''storage_note'', PStr (''Rows are gone and PostgreSQL can reuse their pages after VACUUM; shrinking partition ''
                 @ ''files on disk requires a separately scheduled rewrite/VACUUM FULL.''))])),
            audit_web (ss_oid row) ''webui_purge_ingress_filter'' True
              [(''id'', PInt (fr_id f)), (''name'', PStr (fr_name f)), (''deleted'', PInt (int deleted))]
              (w\<lparr>wb_ms := (wb_ms w)\<lparr>ms_events := filter (\<lambda>e. (sp_id e, sp_ts e) \<in> kept) (ms_events (wb_ms w))\<rparr>\<rparr>)))"

definition filter_purge :: "web_env \<Rightarrow> web_request \<Rightarrow> id \<Rightarrow> web \<Rightarrow> (exn + web_reply) \<times> web" where
  "filter_purge E rq n w = with_session E rq w (\<lambda>row. with_filter n w (\<lambda>f. with_body rq w (\<lambda>body.
     if dict_get body ''confirm_name'' \<noteq> PStr (fr_name f)
     then (json_error 400 (''confirmation failed: enter the filter'' @ [CHR 0x27] @ ''s exact name''), w)
     else purge_batch E row f body w)))"

section \<open>The trace of an evaluation\<close>

definition eval_json :: "(time \<Rightarrow> string) \<Rightarrow> rule_row option \<Rightarrow> id \<Rightarrow> eval_row \<Rightarrow> pyval" where
  "eval_json float_text r n e = PDict
     [(''id'', PInt n), (''rule'', opt_str (map_option r_name r)), (''rule_id'', PInt (el_rule e)),
      (''condition'', opt_str (map_option r_pattern r)),
      (''evaluated_at'', PStr (date_text (el_at e) @ '' '' @ clock_text (el_at e) @ ''Z'')),
      (''source'', PStr (el_source e)), (''trigger'', PStr (el_trigger e)),
      (''window_from_id'', opt_int (el_from e)), (''window_to_id'', opt_int (el_to e)),
      (''event_count'', PInt (int (el_count e))), (''elapsed_s'', PFloat (float_text (el_elapsed e))),
      (''fired'', PBool (el_fired e)), (''severity'', opt_str (el_severity e)), (''why'', opt_str (el_why e)),
      (''llm_ok'', PBool (el_ok e)), (''latency_ms'', PInt (el_latency e)), (''model'', PStr (el_model e)),
      (''summary_sent'', PStr (el_summary e)), (''reasoning'', PStr (el_reasoning e)), (''llm_raw'', PStr (el_raw e))]"

definition eval_detail :: "(time \<Rightarrow> string) \<Rightarrow> web_env \<Rightarrow> web_request \<Rightarrow> string \<Rightarrow> web \<Rightarrow> exn + web_reply" where
  "eval_detail float_text E rq eid w =
     (case load_session E rq w of
        None \<Rightarrow> Inr (replying 401 (Plain ''unauthenticated''))
      | Some row \<Rightarrow>
        (case parse_int eid of
           None \<Rightarrow> Inr (replying 400 (Plain ''bad id''))
         | Some n \<Rightarrow>
           if n < - (2 ^ 63) \<or> 2 ^ 63 \<le> n then Inl (Exn ''NumericValueOutOfRange'' [])
           else (case map_of (wb_evals w) n of
                   None \<Rightarrow> Inr (replying 404 (Plain ''not found''))
                 | Some e \<Rightarrow> Inr (replying 200 (Json_Body (eval_json float_text (find_rule (ms_db (wb_ms w)) (el_rule e)) n e))))))"

section \<open>The routes\<close>

text \<open>The stream is a route whose body is the subject of the next theory.\<close>

datatype web_path =
    P_Index | P_Login | P_Callback | P_Logout | P_Stream | P_Keepalive | P_Eval string
  | P_Filters | P_Preview | P_Filter id | P_Purge id | P_Health | P_Asset string

text \<open>A route for GET takes HEAD too.\<close>

definition allowed_methods :: "web_path \<Rightarrow> string list" where
  "allowed_methods p =
     (case p of
        P_Keepalive \<Rightarrow> [''POST''] | P_Filters \<Rightarrow> [''GET'', ''HEAD'', ''POST''] | P_Preview \<Rightarrow> [''POST'']
      | P_Filter n \<Rightarrow> [''PUT'', ''DELETE''] | P_Purge n \<Rightarrow> [''POST''] | _ \<Rightarrow> [''GET'', ''HEAD''])"

definition web_serve :: "(time \<Rightarrow> string) \<Rightarrow> web_env \<Rightarrow> web_path \<Rightarrow> web_request \<Rightarrow> web \<Rightarrow> (exn + web_reply) \<times> web" where
  "web_serve float_text E p rq w =
     (if wq_method rq \<notin> set (allowed_methods p) then (Inr (replying 405 (Plain ''Method Not Allowed'')), w)
      else case p of
        P_Index \<Rightarrow> (Inr (index E rq w), w)
      | P_Login \<Rightarrow> (Inr (login E), w)
      | P_Callback \<Rightarrow> callback E rq w
      | P_Logout \<Rightarrow> (case logout E rq w of (r, w1) \<Rightarrow> (Inr r, w1))
      | P_Stream \<Rightarrow> (Inr (case load_session E rq w of None \<Rightarrow> replying 401 (Plain ''unauthenticated'') | Some row \<Rightarrow> replying 200 (Plain [])), w)
      | P_Keepalive \<Rightarrow> (case keepalive E rq w of (r, w1) \<Rightarrow> (Inr r, w1))
      | P_Eval eid \<Rightarrow> (eval_detail float_text E rq eid w, w)
      | P_Filters \<Rightarrow> filters_collection E rq w
      | P_Preview \<Rightarrow> filters_preview E rq w
      | P_Filter n \<Rightarrow> filter_item E rq n w
      | P_Purge n \<Rightarrow> filter_purge E rq n w
      | P_Health \<Rightarrow> (Inr (replying 200 (Plain ''ok'')), w)
      | P_Asset path \<Rightarrow> (Inr (case favicon_asset path of None \<Rightarrow> replying 404 (Plain ''Not Found'') | Some r \<Rightarrow> r), w))"

end
