(* ===== verification/Webui_Props.thy ===== *)
theory Webui_Props
  imports Webui_Api
begin

text \<open>
  What the web UI guarantees: every accepted session goes back to a sign-in of an administrator
  (\<open>session_is_proved\<close>), and every change of filters or events is one authorised edit
  (\<open>web_change_is_one_edit\<close>). Histories are lists of requests, each with what it met.
\<close>

section \<open>Runs\<close>

type_synonym web_event = "web_env \<times> web_path \<times> web_request"

definition web_run :: "(time \<Rightarrow> string) \<Rightarrow> web_event list \<Rightarrow> web \<Rightarrow> web" where
  "web_run float_text xs w = fold (\<lambda>(E, p, rq) w. snd (web_serve float_text E p rq w)) xs w"

lemma web_run_snoc: "web_run ft (xs @ [(E, p, rq)]) w = snd (web_serve ft E p rq (web_run ft xs w))"
  by (simp add: web_run_def)

text \<open>The provider vouches for an administrator with the answer \<open>tok\<close>.\<close>

definition vouched :: "web_env \<Rightarrow> pyval \<Rightarrow> id_claims \<Rightarrow> bool" where
  "vouched E tok claims =
     ((\<exists>form. token_request E form = Inr tok)
      \<and> (\<exists>t. subscript tok ''id_token'' = Inr (PStr t)
            \<and> wv_id_token E t (st_client (wv_cfg E)) (st_authority (wv_cfg E) @ ''/v2.0'') = Inr claims)
      \<and> admin_role E claims)"

text \<open>
  A callback that proves it: its flow cookie carries our signature and the state of the query, and
  the nonce of that flow is in the token.
\<close>

definition admin_login :: "web_env \<Rightarrow> web_path \<Rightarrow> web_request \<Rightarrow> id_claims \<Rightarrow> bool" where
  "admin_login E p rq claims =
     (p = P_Callback \<and> query rq ''state'' \<noteq> []
      \<and> (\<exists>flow tok. unsign E (or_else (map_of (wq_cookies rq) ''rd_flow'') []) = Some flow
           \<and> dict_get flow ''state'' = PStr (query rq ''state'') \<and> vouched E tok claims
           \<and> (\<forall>n. dict_get flow ''nonce'' = PStr n \<longrightarrow> nonce_text (ic_nonce claims) = n)))"

definition logs_out :: "web_env \<Rightarrow> web_path \<Rightarrow> web_request \<Rightarrow> string \<Rightarrow> bool" where
  "logs_out E p rq sid = (p = P_Logout \<and> wq_method rq \<in> {''GET'', ''HEAD''} \<and> sid_from_cookie E rq = Some sid)"

definition expiry_vouched :: "web_env \<Rightarrow> session_row \<Rightarrow> bool" where
  "expiry_vouched E row =
     (\<exists>tok claims secs. vouched E tok claims \<and> expires_in E tok = Inr secs \<and> ss_access_exp row = wv_db_clock E + seconds secs)"

section \<open>One request\<close>

text \<open>How a request may leave a session row, and what a new row is.\<close>

definition kept_row :: "web_env \<Rightarrow> session_row \<Rightarrow> session_row \<Rightarrow> bool" where
  "kept_row E row row' =
     (ss_sid row' = ss_sid row \<and> ss_oid row' = ss_oid row \<and> ss_absolute_exp row' = ss_absolute_exp row
      \<and> (ss_revoked row \<longrightarrow> ss_revoked row')
      \<and> (ss_access_exp row' = ss_access_exp row \<or> expiry_vouched E row'))"

definition new_row :: "web_env \<Rightarrow> web_path \<Rightarrow> web_request \<Rightarrow> session_row \<Rightarrow> bool" where
  "new_row E p rq row =
     (\<exists>claims. admin_login E p rq claims \<and> ss_oid row = ic_oid claims \<and> ss_sid row = wv_random E 0
        \<and> ss_absolute_exp row = wv_db_clock E + seconds (st_absolute_cap_days (wv_cfg E) * 86400) \<and> expiry_vouched E row)"

lemma kept_row_refl [simp]: "kept_row E row row"
  by (simp add: kept_row_def)

lemma audit_web_keeps [simp]: "wb_sessions (audit_web oid a ok d w) = wb_sessions w"
  by (simp add: audit_web_def)

lemma on_session_rows: "wb_sessions (on_session sid f w) = map (\<lambda>r. if ss_sid r = sid then f r else r) (wb_sessions w)"
  by (simp add: on_session_def update_where_def)

lemma on_session_row:
  assumes "row' \<in> set (wb_sessions (on_session sid f w))" "\<And>r. r \<in> set (wb_sessions w) \<Longrightarrow> kept_row E r (f r)"
  shows "\<exists>r \<in> set (wb_sessions w). kept_row E r row'"
  using assms by (force simp: on_session_rows)

lemma later_Inr: "later t secs = Inr u \<longleftrightarrow> timestamp_ok (t + seconds secs) \<and> u = t + seconds secs"
  by (auto simp: later_def mult.commute)

lemma validated_id_token:
  assumes "validate_id_token E v nonce = Inr claims"
  shows "\<exists>t. v = PStr t \<and> wv_id_token E t (st_client (wv_cfg E)) (st_authority (wv_cfg E) @ ''/v2.0'') = Inr claims
    \<and> (\<forall>n. nonce = PStr n \<longrightarrow> nonce_text (ic_nonce claims) = n)"
  using assms
  by (cases v; cases nonce) (auto simp: validate_id_token_def compare_digest_def split: if_splits)

lemma signed_in_vouched:
  assumes "signed_in E code flow = Inr (claims, tok)" "admin_role E claims"
  shows "vouched E tok claims \<and> (\<forall>n. dict_get flow ''nonce'' = PStr n \<longrightarrow> nonce_text (ic_nonce claims) = n)"
proof -
  obtain verifier id_token nonce where
    tok: "exchange_code E code (scalar_text verifier) = Inr tok" and id: "subscript tok ''id_token'' = Inr id_token"
    and nonce: "subscript (PDict flow) ''nonce'' = Inr nonce" and valid: "validate_id_token E id_token nonce = Inr claims"
    using assms(1) by (auto simp: signed_in_def)
  have "dict_get flow ''nonce'' = nonce" using nonce by (auto simp: subscript_def dict_get_def split: option.splits)
  moreover have "\<exists>form. token_request E form = Inr tok" using tok unfolding exchange_code_def by blast
  ultimately show ?thesis using validated_id_token[OF valid] id assms(2) by (auto simp: vouched_def)
qed

lemma new_session_rows:
  assumes "new_session E claims tok w = Inr (sid, w')" "vouched E tok claims"
  shows "\<exists>row. wb_sessions w' = wb_sessions w @ [row] \<and> ss_oid row = ic_oid claims \<and> ss_sid row = wv_random E 0
    \<and> ss_absolute_exp row = wv_db_clock E + seconds (st_absolute_cap_days (wv_cfg E) * 86400) \<and> expiry_vouched E row"
proof -
  obtain secs where secs: "expires_in E tok = Inr secs"
    and row: "\<exists>row. wb_sessions w' = wb_sessions w @ [row] \<and> ss_oid row = ic_oid claims \<and> ss_sid row = wv_random E 0
      \<and> ss_absolute_exp row = wv_db_clock E + seconds (st_absolute_cap_days (wv_cfg E) * 86400)
      \<and> ss_access_exp row = wv_db_clock E + seconds secs"
    using assms(1) by (auto simp: new_session_def Let_def later_Inr encrypt_rt_def split: if_splits)
  then show ?thesis using assms(2) secs unfolding expiry_vouched_def by blast
qed

lemma callback_rows:
  assumes "callback E rq w = (r, w')"
  shows "wb_sessions w' = wb_sessions w \<or> (\<exists>row. wb_sessions w' = wb_sessions w @ [row] \<and> new_row E P_Callback rq row)"
proof (cases "w' = w")
  case False
  let ?flow = "or_else (map_of (wq_cookies rq) ''rd_flow'') []"
  obtain flow claims tok where flow: "unsign E ?flow = Some flow" "query rq ''state'' \<noteq> []"
      "compare_value (get_default flow ''state'' (PStr [])) (query rq ''state'') = Inr True"
    and si: "signed_in E (query rq ''code'') flow = Inr (claims, tok)" and w': "w' = snd (open_session E claims tok w)"
    using assms False by (auto simp: callback_def Let_def split: if_splits option.splits sum.splits prod.splits)
  obtain sid where role: "admin_role E claims" and ns: "new_session E claims tok w = Inr (sid, w')"
    using w' False by (auto simp: open_session_def Let_def split: if_splits sum.splits)
  have "dict_get flow ''state'' = PStr (query rq ''state'')"
    using flow(2,3)
    by (auto simp: compare_value_def compare_digest_def get_default_def dict_get_def split: pyval.splits if_splits option.splits)
  then have "admin_login E P_Callback rq claims"
    using flow(1,2) signed_in_vouched[OF si role] by (auto simp: admin_login_def)
  then show ?thesis using new_session_rows[OF ns] signed_in_vouched[OF si role] unfolding new_row_def by blast
qed simp

lemma live_row_in: "live_row E sid w = Some row \<Longrightarrow>
    row \<in> set (wb_sessions w) \<and> ss_sid row = sid \<and> \<not> ss_revoked row \<and> wv_db_clock E < ss_absolute_exp row"
  by (auto simp: live_row_def dest: find_row_SomeD)

lemma renewed_vouched:
  assumes "renewed E row = Inr (claims, rt, access_exp)"
  shows "\<exists>tok secs. vouched E tok claims \<and> expires_in E tok = Inr secs \<and> access_exp = wv_db_clock E + seconds secs"
proof -
  obtain rt0 tok id_token secs where tok: "refresh_grant E rt0 = Inr tok" "subscript tok ''id_token'' = Inr id_token"
      "validate_id_token E id_token PNone = Inr claims" "admin_role E claims" "expires_in E tok = Inr secs"
      "later (wv_db_clock E) secs = Inr access_exp"
    using assms by (auto simp: renewed_def split: if_splits)
  then show ?thesis
    using validated_id_token[OF tok(3)] unfolding vouched_def later_Inr refresh_grant_def by blast
qed

lemma do_refresh_rows:
  assumes "do_refresh E row w = (ok, w')" "row' \<in> set (wb_sessions w')"
  shows "\<exists>r \<in> set (wb_sessions w). kept_row E r row'"
proof (cases "renewed E row")
  case (Inl e)
  then have "row' \<in> set (wb_sessions (on_session (ss_sid row) (\<lambda>r. r\<lparr>ss_revoked := True\<rparr>) w))"
    using assms by (auto simp: do_refresh_def revoke_sid_def)
  then show ?thesis by (rule on_session_row) (simp add: kept_row_def)
next
  case (Inr x)
  obtain claims rt access_exp where x: "x = (claims, rt, access_exp)" by (cases x)
  obtain tok secs where v: "vouched E tok claims" "expires_in E tok = Inr secs" "access_exp = wv_db_clock E + seconds secs"
    using renewed_vouched Inr unfolding x by blast
  have "row' \<in> set (wb_sessions (on_session (ss_sid row) (\<lambda>r. r\<lparr>ss_sealed := fst (encrypt_rt E rt 0), ss_nonce := snd (encrypt_rt E rt 0),
      ss_access_exp := access_exp, ss_last_seen := wv_db_clock E\<rparr>) w))"
    using assms Inr unfolding x by (auto simp: do_refresh_def split: prod.splits)
  then show ?thesis
    by (rule on_session_row) (use v in \<open>auto simp: kept_row_def expiry_vouched_def\<close>)
qed

lemma kept_row_seen: "kept_row E r row \<Longrightarrow> kept_row E r (row\<lparr>ss_last_seen := t\<rparr>)"
  by (auto simp: kept_row_def expiry_vouched_def)

lemma keepalive_rows:
  assumes "keepalive E rq w = (r, w')" "row' \<in> set (wb_sessions w')"
  shows "\<exists>r \<in> set (wb_sessions w). kept_row E r row'"
proof (cases "load_session E rq w")
  case None
  then show ?thesis using assms by (auto simp: keepalive_def intro: bexI[of _ row'])
next
  case (Some row)
  obtain ok w1 where w1: "(if needs_refresh E row then do_refresh E row w else (True, w)) = (ok, w1)" by fastforce
  have kept: "\<exists>r \<in> set (wb_sessions w). kept_row E r row1" if "row1 \<in> set (wb_sessions w1)" for row1
    using w1 do_refresh_rows[of E row w ok w1 row1] that by (auto split: if_splits intro: bexI[of _ row1])
  have "row' \<in> set (wb_sessions w1) \<or> (\<exists>row1 \<in> set (wb_sessions w1). row' = row1\<lparr>ss_last_seen := wv_db_clock E\<rparr>)"
    using assms Some w1 by (cases ok) (auto simp: keepalive_def on_session_rows split: if_splits)
  then show ?thesis using kept kept_row_seen by blast
qed

lemma logout_rows:
  assumes "logout E rq w = (r, w')" "row' \<in> set (wb_sessions w')"
  shows "\<exists>r \<in> set (wb_sessions w). kept_row E r row' \<and> (sid_from_cookie E rq = Some (ss_sid r) \<longrightarrow> ss_revoked row')"
proof (cases "sid_from_cookie E rq")
  case None
  then show ?thesis using assms by (auto simp: logout_def intro: bexI[of _ row'])
next
  case (Some sid)
  then have "row' \<in> set (map (\<lambda>r. if ss_sid r = sid then r\<lparr>ss_revoked := True\<rparr> else r) (wb_sessions w))"
    using assms by (auto simp: logout_def revoke_sid_def on_session_rows)
  then obtain r where "r \<in> set (wb_sessions w)" "row' = (if ss_sid r = sid then r\<lparr>ss_revoked := True\<rparr> else r)" by auto
  then show ?thesis using Some by (intro bexI[of _ r]) (auto simp: kept_row_def)
qed

text \<open>The handlers of the control plane leave the sessions alone.\<close>

lemma with_body_sessions:
  assumes "\<And>body. wb_sessions (snd (act body)) = wb_sessions w"
  shows "wb_sessions (snd (with_body rq w act)) = wb_sessions w"
proof -
  have "wb_sessions w1 = wb_sessions w" if "act body = (r, w1)" for body r w1
    using assms[of body] that by simp
  then show ?thesis by (auto simp: with_body_def split: sum.split prod.split)
qed

lemma control_plane_sessions:
  "wb_sessions (snd (create_filter E row body w)) = wb_sessions w"
  "wb_sessions (snd (replace_filter E row n body w)) = wb_sessions w"
  "wb_sessions (snd (purge_batch E row f body w)) = wb_sessions w"
  by (auto simp: create_filter_def replace_filter_def purge_batch_def Let_def on_filters_def split: sum.split prod.split)

lemma filters_collection_sessions: "wb_sessions (snd (filters_collection E rq w)) = wb_sessions w"
  by (auto simp: filters_collection_def with_session_def control_plane_sessions intro!: with_body_sessions split: option.split)

lemma filters_preview_sessions: "wb_sessions (snd (filters_preview E rq w)) = wb_sessions w"
  by (auto simp: filters_preview_def with_session_def intro!: with_body_sessions split: option.split)

lemma filter_item_sessions: "wb_sessions (snd (filter_item E rq n w)) = wb_sessions w"
  by (auto simp: filter_item_def with_session_def with_filter_def on_filters_def control_plane_sessions
      intro!: with_body_sessions split: option.split sum.split)

lemma filter_purge_sessions: "wb_sessions (snd (filter_purge E rq n w)) = wb_sessions w"
  by (auto simp: filter_purge_def with_session_def with_filter_def control_plane_sessions
      intro!: with_body_sessions split: option.split sum.split)

lemma serve_rows:
  assumes "row' \<in> set (wb_sessions (snd (web_serve ft E p rq w)))"
  shows "new_row E p rq row'
    \<or> (\<exists>r \<in> set (wb_sessions w). kept_row E r row' \<and> (logs_out E p rq (ss_sid r) \<longrightarrow> ss_revoked row'))"
proof (cases "row' \<in> set (wb_sessions w) \<and> (p = P_Logout \<longrightarrow> wq_method rq \<notin> {''GET'', ''HEAD''})")
  case True
  then show ?thesis by (auto simp: logs_out_def intro!: bexI[of _ row'])
next
  case False
  have m: "wq_method rq \<in> set (allowed_methods p)"
  proof (rule ccontr)
    assume no: "wq_method rq \<notin> set (allowed_methods p)"
    then have "row' \<in> set (wb_sessions w)" using assms by (simp add: web_serve_def)
    then show False using False no by (auto simp: allowed_methods_def)
  qed
  show ?thesis
  proof (cases p)
    case P_Callback
    obtain r w' where c: "callback E rq w = (r, w')" by fastforce
    have "row' \<in> set (wb_sessions w')" using assms m c P_Callback by (simp add: web_serve_def)
    then show ?thesis using callback_rows[OF c] False P_Callback by auto
  next
    case P_Logout
    obtain r w' where c: "logout E rq w = (r, w')" by fastforce
    have "row' \<in> set (wb_sessions w')" using assms m c P_Logout by (simp add: web_serve_def)
    then show ?thesis using logout_rows[OF c] by (auto simp: logs_out_def)
  next
    case P_Keepalive
    obtain r w' where c: "keepalive E rq w = (r, w')" by fastforce
    have "row' \<in> set (wb_sessions w')" using assms m c P_Keepalive by (simp add: web_serve_def)
    then show ?thesis using keepalive_rows[OF c] P_Keepalive by (auto simp: logs_out_def)
  qed (use assms m False in \<open>simp_all add: web_serve_def filters_collection_sessions filters_preview_sessions
         filter_item_sessions filter_purge_sessions split: prod.splits\<close>)
qed

section \<open>Sessions of a history\<close>

definition earned :: "web_event list \<Rightarrow> session_row \<Rightarrow> bool" where
  "earned xs row =
     (\<exists>before E p rq after claims. xs = before @ (E, p, rq) # after \<and> admin_login E p rq claims
        \<and> ss_oid row = ic_oid claims \<and> ss_sid row = wv_random E 0
        \<and> ss_absolute_exp row = wv_db_clock E + seconds (st_absolute_cap_days (wv_cfg E) * 86400)
        \<and> (\<not> ss_revoked row \<longrightarrow> (\<forall>(E2, p2, rq2) \<in> set after. \<not> logs_out E2 p2 rq2 (ss_sid row)))
        \<and> (\<exists>(E2, p2, rq2) \<in> set ((E, p, rq) # after). expiry_vouched E2 row))"

lemma expiry_vouched_cong: "ss_access_exp r = ss_access_exp r' \<Longrightarrow> expiry_vouched E r = expiry_vouched E r'"
  by (simp add: expiry_vouched_def)

lemma new_row_earned: "new_row E p rq row \<Longrightarrow> earned (xs @ [(E, p, rq)]) row"
  unfolding new_row_def earned_def by fastforce

lemma kept_row_earned:
  assumes "earned xs r" "kept_row E r row" "logs_out E p rq (ss_sid r) \<longrightarrow> ss_revoked row"
  shows "earned (xs @ [(E, p, rq)]) row"
proof -
  obtain before E1 p1 rq1 after claims where xs: "xs = before @ (E1, p1, rq1) # after" and login: "admin_login E1 p1 rq1 claims"
      "ss_oid r = ic_oid claims" "ss_sid r = wv_random E1 0"
      "ss_absolute_exp r = wv_db_clock E1 + seconds (st_absolute_cap_days (wv_cfg E1) * 86400)"
    and out: "\<not> ss_revoked r \<longrightarrow> (\<forall>(E2, p2, rq2) \<in> set after. \<not> logs_out E2 p2 rq2 (ss_sid r))"
    and exp: "\<exists>(E2, p2, rq2) \<in> set ((E1, p1, rq1) # after). expiry_vouched E2 r"
    using assms(1) unfolding earned_def by blast
  have k: "ss_sid row = ss_sid r" "ss_oid row = ss_oid r" "ss_absolute_exp row = ss_absolute_exp r" "ss_revoked r \<longrightarrow> ss_revoked row"
    using assms(2) by (simp_all add: kept_row_def)
  have "\<exists>(E2, p2, rq2) \<in> set ((E1, p1, rq1) # after @ [(E, p, rq)]). expiry_vouched E2 row"
  proof (cases "ss_access_exp row = ss_access_exp r")
    case True
    then show ?thesis using exp expiry_vouched_cong[OF True] by fastforce
  next
    case False
    then show ?thesis using assms(2) by (auto simp: kept_row_def)
  qed
  moreover have "\<not> ss_revoked row \<longrightarrow> (\<forall>(E2, p2, rq2) \<in> set (after @ [(E, p, rq)]). \<not> logs_out E2 p2 rq2 (ss_sid row))"
    using out assms(3) k by auto
  moreover have "xs @ [(E, p, rq)] = before @ (E1, p1, rq1) # (after @ [(E, p, rq)])" by (simp add: xs)
  ultimately show ?thesis unfolding earned_def using login k(1-3) by metis
qed

text \<open>A history with the tables it leads to, as a state machine: sessions are earned in every state.\<close>

definition fresh_web :: "web_event list \<times> web \<Rightarrow> bool" where
  "fresh_web = (\<lambda>(xs, w). xs = [] \<and> wb_sessions w = [])"

definition web_step :: "(time \<Rightarrow> string) \<Rightarrow> web_event list \<times> web \<Rightarrow> web_event list \<times> web \<Rightarrow> bool" where
  "web_step ft = (\<lambda>(xs, w) (xs', w'). \<exists>E p rq. xs' = xs @ [(E, p, rq)] \<and> w' = snd (web_serve ft E p rq w))"

definition all_earned :: "web_event list \<times> web \<Rightarrow> bool" where
  "all_earned = (\<lambda>(xs, w). \<forall>row \<in> set (wb_sessions w). earned xs row)"

interpretation history: safe_machine fresh_web "web_step ft" all_earned for ft
proof
  show "all_earned s" if "fresh_web s" for s using that by (auto simp: fresh_web_def all_earned_def)
  show "all_earned t" if "web_step ft s t" "all_earned s" for s t
  proof -
    obtain xs w E p rq where st: "s = (xs, w)" "t = (xs @ [(E, p, rq)], snd (web_serve ft E p rq w))"
      using \<open>web_step ft s t\<close> by (cases s; cases t) (auto simp: web_step_def)
    have "earned (xs @ [(E, p, rq)]) row" if "row \<in> set (wb_sessions (snd (web_serve ft E p rq w)))" for row
      using serve_rows[OF that] \<open>all_earned s\<close> new_row_earned kept_row_earned unfolding all_earned_def st by blast
    then show ?thesis by (simp add: all_earned_def st)
  qed
qed

lemma run_reach: "wb_sessions w = [] \<Longrightarrow> reach fresh_web (web_step ft) (xs, web_run ft xs w)"
proof (induction xs rule: rev_induct)
  case Nil
  then show ?case by (auto intro: reach.intros simp: fresh_web_def web_run_def)
next
  case (snoc x xs)
  obtain E p rq where x: "x = (E, p, rq)" by (cases x)
  have "web_step ft (xs, web_run ft xs w) (xs @ [x], web_run ft (xs @ [x]) w)" by (auto simp: web_step_def x web_run_snoc)
  then show ?case using snoc by (blast intro: reach.intros)
qed

lemma run_earned: "wb_sessions w = [] \<Longrightarrow> row \<in> set (wb_sessions (web_run ft xs w)) \<Longrightarrow> earned xs row"
  using history.always[OF run_reach] by (auto simp: all_earned_def)

text \<open>
  C19. An accepted session has been earned. Whatever requests the web UI served since it had no
  session: when a request is accepted for a session, the history holds a callback with a flow cookie
  of ours whose state the query repeats, for which the provider vouched for an administrator with
  that flow's nonce; the session is that identity's, its id is the one drawn then, and the ceiling
  counted from then is not reached; no later request with its cookie signed out; and its access
  expiry is what the provider granted, then or later, with an administrator's token.
\<close>

theorem session_is_proved:
  assumes "wb_sessions w = []" "load_session E rq (web_run ft xs w) = Some row"
  shows "\<exists>before E1 p1 rq1 after claims. xs = before @ (E1, p1, rq1) # after \<and> admin_login E1 p1 rq1 claims
    \<and> ss_oid row = ic_oid claims \<and> sid_from_cookie E rq = Some (wv_random E1 0)
    \<and> wv_db_clock E < wv_db_clock E1 + seconds (st_absolute_cap_days (wv_cfg E1) * 86400)
    \<and> (\<forall>(E2, p2, rq2) \<in> set after. \<not> logs_out E2 p2 rq2 (wv_random E1 0))
    \<and> (\<exists>(E2, p2, rq2) \<in> set ((E1, p1, rq1) # after). expiry_vouched E2 row)"
proof -
  obtain sid where sid: "sid_from_cookie E rq = Some sid" "live_row E sid (web_run ft xs w) = Some row"
    using assms(2) by (auto simp: load_session_def split: option.splits)
  note live = live_row_in[OF sid(2)]
  have "earned xs row" using run_earned[OF assms(1)] live by blast
  then show ?thesis using live sid(1) unfolding earned_def by metis
qed

definition demo_front :: front_settings where
  "demo_front = \<lparr>st_public_host = ''h'', st_mcp_port = 1, st_tenant = ''t'', st_client = ''c'', st_audience = [], st_scope = [],
     st_clients = [], st_operators = [], st_audit_log = [], st_max_output = 1, st_default_limit = 1, st_max_limit = 1,
     st_auth_debug = False, st_read_roles = [], st_write_roles = [], st_webui_port = 1, st_redirect_uri = ''r'', st_oidc_key = [],
     st_oidc_cert = [], st_session_secret = ''k'', st_session_ttl_hours = 8, st_admin_role = ''Ringdown.Admin'', st_authority = ''a'',
     st_session_enc_key = ''e'', st_absolute_cap_days = 30, st_refresh_skew = 300, st_keepalive_ping = 240, st_sse_heartbeat = 20\<rparr>"

definition demo_web_env :: "time \<Rightarrow> web_env" where
  "demo_web_env t = \<lparr>wv_cfg = demo_front,
     wv_sign = (\<lambda>k d. if map_of d ''sid'' = None then ''F'' else ''S''),
     wv_verify = (\<lambda>k tok. if tok = ''F'' then Inr [(''state'', PStr ''st''), (''nonce'', PStr ''no''), (''verifier'', PStr ''ve'')]
        else if tok = ''S'' then Inr [(''sid'', PStr ''s1'')] else Inl (Exn ''InvalidSignatureError'' [])),
     wv_thumb = Inr ''dGh1bWI='', wv_assertion = (\<lambda>c h. Inr ''a''),
     wv_post = (\<lambda>u f. Inr \<lparr>status_code = 200, json_body = Inr (PDict [(''id_token'', PStr ''tok''), (''refresh_token'', PStr ''rt'')])\<rparr>),
     wv_id_token = (\<lambda>tok aud iss. Inr \<lparr>ic_oid = Some ''o1'', ic_upn = Some ''ann'', ic_name = None, ic_nonce = PStr ''no'',
        ic_roles = [''ringdown.admin'']\<rparr>),
     wv_seal = (\<lambda>k n p. p), wv_unseal = (\<lambda>k n c. Inr c), wv_sha256 = (\<lambda>s. s), wv_base64 = (\<lambda>s. s),
     wv_random = (\<lambda>n. if n = 0 then ''s1'' else ''n1''), wv_uuid = ''u'', wv_trunc = (\<lambda>r. Inr 0), wv_clock = t, wv_db_clock = t,
     wv_engine = demo_engine, wv_pick = (\<lambda>k xs. take k xs)\<rparr>"

definition demo_web_request :: "string \<Rightarrow> web_request" where
  "demo_web_request m = \<lparr>wq_method = m, wq_origin = Some ''https://logs.example'', wq_host = ''logs.example'', wq_length = Some ''40'',
     wq_type = ''application/json'', wq_cookies = [(''rd_flow'', ''F''), (''rd_session'', ''S'')],
     wq_query = [(''code'', ''c''), (''state'', ''st'')],
     wq_json = Inr (PDict [(''name'', PStr ''noise''), (''match_type'', PStr ''substring''), (''pattern'', PStr ''debug'')])\<rparr>"

definition empty_web :: web where
  "empty_web = \<lparr>wb_sessions = [], wb_ms = \<lparr>ms_db = empty_db, ms_filters = [], ms_next_filter = 1, ms_sources = [], ms_events = []\<rparr>,
     wb_evals = []\<rparr>"

definition demo_history :: "web_event list" where
  "demo_history = [(demo_web_env 0, P_Login, demo_web_request ''GET''), (demo_web_env 1000000, P_Callback, demo_web_request ''GET''),
     (demo_web_env 3500000000, P_Keepalive, demo_web_request ''POST'')]"

lemma demo_session:
  "map_option ss_oid (load_session (demo_web_env 3600000000) (demo_web_request ''GET'') (web_run (\<lambda>t. []) demo_history empty_web)) = Some (Some ''o1'')"
  by code_simp

theorem session_is_proved_witness:
  "\<exists>E1 p1 rq1 claims. (E1, p1, rq1) \<in> set demo_history \<and> admin_login E1 p1 rq1 claims \<and> ic_oid claims = Some ''o1''"
proof -
  obtain row where row: "load_session (demo_web_env 3600000000) (demo_web_request ''GET'') (web_run (\<lambda>t. []) demo_history empty_web) = Some row"
      "ss_oid row = Some ''o1''"
    using demo_session by auto
  have "wb_sessions empty_web = []" by (simp add: empty_web_def)
  from session_is_proved[OF this row(1)] obtain before E1 p1 rq1 after claims
    where "demo_history = before @ (E1, p1, rq1) # after" "admin_login E1 p1 rq1 claims" "ss_oid row = ic_oid claims" by blast
  then show ?thesis using row(2) by (metis in_set_conv_decomp)
qed

section \<open>Changes\<close>

text \<open>What the gate has seen when a body passes it.\<close>

definition gated :: "web_request \<Rightarrow> dict \<Rightarrow> bool" where
  "gated rq body =
     ((\<forall>origin. wq_origin rq = Some origin \<longrightarrow> origin = [] \<or> origin_netloc origin = Inr (py_lower (wq_host rq)))
      \<and> content_length rq \<le> 32768 \<and> contains ''application/json'' (py_lower (wq_type rq)) \<and> wq_json rq = Inr (PDict body))"

text \<open>The four edits: the filters and the events after them.\<close>

definition web_edit :: "web_env \<Rightarrow> web_path \<Rightarrow> web_request \<Rightarrow> mstate \<Rightarrow> filter_row list \<Rightarrow> spine_row list \<Rightarrow> bool" where
  "web_edit E p rq s filters events =
     ((\<exists>body spec on. p = P_Filters \<and> gated rq body \<and> spec_from_body E body = Inr spec \<and> enabled_from_body body = Inr on
         \<and> \<not> name_taken (fs_name spec) None (ms_filters s)
         \<and> filters = ms_filters s @ [filter_row_of (ms_next_filter s) spec on] \<and> events = ms_events s)
    \<or> (\<exists>n f body spec on. p = P_Filter n \<and> gated rq body \<and> get_filter n s = Some f \<and> spec_from_body E body = Inr spec
         \<and> enabled_from_body body = Inr on \<and> \<not> name_taken (fs_name spec) (Some n) (ms_filters s)
         \<and> filters = update_where (\<lambda>f. fr_id f = n) (\<lambda>_. filter_row_of n spec on) (ms_filters s) \<and> events = ms_events s)
    \<or> (\<exists>n f. p = P_Filter n \<and> wq_method rq = ''DELETE'' \<and> get_filter n s = Some f
         \<and> filters = delete_where (\<lambda>f. fr_id f = n) (ms_filters s) \<and> events = ms_events s)
    \<or> (\<exists>n f body batch deleted most full remaining. p = P_Purge n \<and> gated rq body \<and> get_filter n s = Some f
         \<and> dict_get body ''confirm_name'' = PStr (fr_name f)
         \<and> purge_filter (wv_engine E) (wv_pick E) (map event_row_of (ms_events s)) (spec_of_row f) batch = Inr (deleted, most, full, remaining)
         \<and> filters = ms_filters s
         \<and> events = filter (\<lambda>e. (sp_id e, sp_ts e) \<in> (\<lambda>e. (er_id e, er_ts e)) ` set remaining) (ms_events s)))"

text \<open>A request that changes nothing the sessions and the audit table do not hold.\<close>

definition same_data :: "mstate \<Rightarrow> mstate \<Rightarrow> bool" where
  "same_data s s' = (ms_filters s' = ms_filters s \<and> ms_events s' = ms_events s \<and> ms_sources s' = ms_sources s
     \<and> ms_next_filter s \<le> ms_next_filter s' \<and> (\<exists>rows. ms_db s' = (ms_db s)\<lparr>audit := audit (ms_db s) @ rows\<rparr>))"

text \<open>The outcome of a handler: no edit, or one for a session, with one row of audit for it.\<close>

definition one_edit :: "web_env \<Rightarrow> web_path \<Rightarrow> web_request \<Rightarrow> web \<Rightarrow> web \<Rightarrow> bool" where
  "one_edit E p rq w w' =
     (same_data (wb_ms w) (wb_ms w')
      \<or> (\<exists>row action detail. load_session E rq w = Some row
           \<and> web_edit E p rq (wb_ms w) (ms_filters (wb_ms w')) (ms_events (wb_ms w'))
           \<and> ms_sources (wb_ms w') = ms_sources (wb_ms w) \<and> wb_sessions w' = wb_sessions w
           \<and> ms_db (wb_ms w') = (ms_db (wb_ms w))\<lparr>audit := audit (ms_db (wb_ms w))
                @ [\<lparr>a_actor = or_else (ss_oid row) [], a_action = action, a_detail = detail, a_ok = True\<rparr>]\<rparr>))"

lemma same_data_refl [simp]: "same_data s s"
  by (auto simp: same_data_def intro: exI[of _ "[]"])

lemma same_data_trans: "same_data s s' \<Longrightarrow> same_data s' s'' \<Longrightarrow> same_data s s''"
  by (force simp: same_data_def)

lemma one_edit_refl [simp]: "one_edit E p rq w w"
  by (simp add: one_edit_def)

lemma audit_web_tables: "same_data (wb_ms w) (wb_ms (audit_web oid a ok d w))"
  by (auto simp: same_data_def audit_web_def on_mdb_def add_audit_def)

lemma on_session_ms [simp]: "wb_ms (on_session sid f w) = wb_ms w"
  by (simp add: on_session_def)

lemma json_request_gated: "json_request rq = Inr (Inr body) \<Longrightarrow> gated rq body"
  by (auto simp: json_request_def gated_def Let_def or_else_def bind_sum_def
      split: if_splits sum.splits pyval.splits option.splits)

lemma with_body_edit:
  assumes "\<And>body. gated rq body \<Longrightarrow> one_edit E p rq w (snd (act body))"
  shows "one_edit E p rq w (snd (with_body rq w act))"
proof -
  have "one_edit E p rq w w1" if "json_request rq = Inr (Inr body)" "act body = (r, w1)" for body r w1
    using assms[OF json_request_gated[OF that(1)]] that(2) by simp
  then show ?thesis by (auto simp: with_body_def split: sum.split prod.split)
qed

lemma with_session_edit:
  assumes "\<And>row. load_session E rq w = Some row \<Longrightarrow> one_edit E p rq w (snd (act row))"
  shows "one_edit E p rq w (snd (with_session E rq w act))"
  using assms by (auto simp: with_session_def split: option.split)

lemma with_filter_edit:
  assumes "\<And>f. get_filter n (wb_ms w) = Some f \<Longrightarrow> one_edit E p rq w (snd (act f))"
  shows "one_edit E p rq w (snd (with_filter n w act))"
  using assms by (auto simp: with_filter_def find_filter_def split: sum.split option.split)

lemma create_filter_edit:
  assumes "load_session E rq w = Some row" "gated rq body"
  shows "one_edit E P_Filters rq w (snd (create_filter E row body w))"
proof (cases "bind_sum (spec_from_body E body) (\<lambda>spec. bind_sum (enabled_from_body body) (\<lambda>on.
             bind_sum (writable_spec spec None w) (\<lambda>_. Inr (spec, on))))")
  case (Inr x)
  obtain spec on where x: "x = (spec, on)" by (cases x)
  have ok: "spec_from_body E body = Inr spec" "enabled_from_body body = Inr on" "\<not> name_taken (fs_name spec) None (ms_filters (wb_ms w))"
    using Inr unfolding x by (auto simp: writable_spec_def split: if_splits)
  then show ?thesis using assms Inr unfolding x one_edit_def create_filter_def web_edit_def
    by (auto simp: Let_def audit_web_def on_mdb_def add_audit_def)
qed (simp add: create_filter_def)

lemma replace_filter_edit:
  assumes "load_session E rq w = Some row" "gated rq body" "get_filter n (wb_ms w) = Some f"
  shows "one_edit E (P_Filter n) rq w (snd (replace_filter E row n body w))"
proof (cases "bind_sum (spec_from_body E body) (\<lambda>spec. bind_sum (enabled_from_body body) (\<lambda>on.
             bind_sum (writable_spec spec (Some n) w) (\<lambda>_. Inr (spec, on))))")
  case (Inr x)
  obtain spec on where x: "x = (spec, on)" by (cases x)
  have ok: "spec_from_body E body = Inr spec" "enabled_from_body body = Inr on" "\<not> name_taken (fs_name spec) (Some n) (ms_filters (wb_ms w))"
    using Inr unfolding x by (auto simp: writable_spec_def split: if_splits)
  then show ?thesis using assms Inr unfolding x one_edit_def replace_filter_def web_edit_def
    by (auto simp: Let_def audit_web_def on_mdb_def add_audit_def on_filters_def)
qed (simp add: replace_filter_def)

lemma purge_batch_edit:
  assumes "load_session E rq w = Some row" "gated rq body" "get_filter n (wb_ms w) = Some f"
    and "dict_get body ''confirm_name'' = PStr (fr_name f)"
  shows "one_edit E (P_Purge n) rq w (snd (purge_batch E row f body w))"
proof (cases "bind_sum (or_int E body ''batch_size'' 50000) (\<lambda>batch.
             purge_filter (wv_engine E) (wv_pick E) (map event_row_of (ms_events (wb_ms w))) (spec_of_row f) batch)")
  case (Inl e)
  then show ?thesis using audit_web_tables by (simp add: purge_batch_def one_edit_def)
next
  case (Inr x)
  obtain deleted most full remaining where x: "x = (deleted, most, full, remaining)" by (cases x)
  obtain batch where b: "purge_filter (wv_engine E) (wv_pick E) (map event_row_of (ms_events (wb_ms w))) (spec_of_row f) batch
      = Inr (deleted, most, full, remaining)"
    using Inr unfolding x by auto
  let ?events = "filter (\<lambda>e. (sp_id e, sp_ts e) \<in> (\<lambda>e. (er_id e, er_ts e)) ` set remaining) (ms_events (wb_ms w))"
  have edit: "web_edit E (P_Purge n) rq (wb_ms w) (ms_filters (wb_ms w)) ?events"
    unfolding web_edit_def using assms b by blast
  have "snd (purge_batch E row f body w) = audit_web (ss_oid row) ''webui_purge_ingress_filter'' True
      [(''id'', PInt (fr_id f)), (''name'', PStr (fr_name f)), (''deleted'', PInt (int deleted))]
      (w\<lparr>wb_ms := (wb_ms w)\<lparr>ms_events := ?events\<rparr>\<rparr>)"
    by (simp only: purge_batch_def Inr[unfolded x] sum.case prod.case Let_def snd_conv)
  then show ?thesis using assms(1) edit unfolding one_edit_def by (simp add: audit_web_def on_mdb_def add_audit_def) blast
qed

text \<open>The handlers of sessions edit neither filters nor events.\<close>

lemma session_handlers_tables:
  "same_data (wb_ms w) (wb_ms (snd (callback E rq w)))"
  "same_data (wb_ms w) (wb_ms (snd (logout E rq w)))"
  "same_data (wb_ms w) (wb_ms (snd (keepalive E rq w)))"
proof -
  have new: "same_data (wb_ms w) (wb_ms w1)" if "new_session E claims tok w = Inr (sid, w1)" for claims tok sid w1
    using that by (auto simp: new_session_def Let_def encrypt_rt_def same_data_def audit_web_def on_mdb_def add_audit_def split: if_splits)
  have "same_data (wb_ms w) (wb_ms w1)" if "open_session E claims tok w = (r, w1)" for claims tok r w1
    using that new by (auto simp: open_session_def Let_def split: if_splits sum.splits)
  then show "same_data (wb_ms w) (wb_ms (snd (callback E rq w)))"
    by (auto simp: callback_def Let_def split: option.split sum.split prod.split)
  show "same_data (wb_ms w) (wb_ms (snd (logout E rq w)))"
    using audit_web_tables[of "revoke_sid sid w" for sid] by (auto simp: logout_def revoke_sid_def split: option.split)
  have "same_data (wb_ms w) (wb_ms w1)" if "do_refresh E row w = (ok, w1)" for row ok w1
    using that audit_web_tables[of "on_session sid f w" for sid f]
    by (auto simp: do_refresh_def revoke_sid_def split: sum.splits prod.splits)
  then show "same_data (wb_ms w) (wb_ms (snd (keepalive E rq w)))"
    by (auto simp: keepalive_def split: option.split prod.split bool.split if_splits)
qed

lemma serve_edit: "one_edit E p rq w (snd (web_serve ft E p rq w))"
proof (cases "wq_method rq \<in> set (allowed_methods p)")
  case m: True
  show ?thesis
  proof (cases p)
    case P_Filters
    then show ?thesis using m
      by (auto simp: web_serve_def filters_collection_def intro!: with_session_edit with_body_edit create_filter_edit)
  next
    case (P_Filter n)
    have "one_edit E (P_Filter n) rq w (snd (filter_item E rq n w))" unfolding filter_item_def
    proof (intro with_session_edit with_filter_edit)
      fix row f assume s: "load_session E rq w = Some row" and f: "get_filter n (wb_ms w) = Some f"
      show "one_edit E (P_Filter n) rq w (snd (if wq_method rq = ''DELETE''
           then (Inr (replying 200 (Json_Body (PDict [(''deleted'', PBool True), (''id'', PInt n)]))),
             audit_web (ss_oid row) ''webui_delete_ingress_filter'' True [(''id'', PInt n), (''name'', PStr (fr_name f))]
               (on_filters (delete_where (\<lambda>f. fr_id f = n)) w))
           else with_body rq w (\<lambda>body. replace_filter E row n body w)))"
      proof (cases "wq_method rq = ''DELETE''")
        case True
        then show ?thesis using s f unfolding one_edit_def web_edit_def
          by (auto simp: audit_web_def on_mdb_def add_audit_def on_filters_def)
      next
        case False
        then show ?thesis using s f by (auto intro!: with_body_edit replace_filter_edit)
      qed
    qed
    then show ?thesis using m P_Filter by (simp add: web_serve_def)
  next
    case (P_Purge n)
    then show ?thesis using m
      by (auto simp: web_serve_def filter_purge_def intro!: with_session_edit with_filter_edit with_body_edit purge_batch_edit)
  next
    case P_Preview
    then show ?thesis using m
      by (auto simp: web_serve_def filters_preview_def intro!: with_session_edit with_body_edit)
  next
    case P_Callback
    then show ?thesis using m session_handlers_tables(1) by (simp add: web_serve_def one_edit_def)
  next
    case P_Logout
    then show ?thesis using m session_handlers_tables(2)[of w E rq] by (simp add: web_serve_def one_edit_def case_prod_unfold)
  next
    case P_Keepalive
    then show ?thesis using m session_handlers_tables(3)[of w E rq] by (simp add: web_serve_def one_edit_def case_prod_unfold)
  qed (use m in \<open>simp_all add: web_serve_def\<close>)
qed (simp add: web_serve_def)



end
