(* ===== verification/Webui_Stream.thy ===== *)
theory Webui_Stream
  imports Webui_Props Event_Attrs
begin

text \<open>
  \<open>ringdown/webui.py\<close>, third part: the live stream. A run of \<open>gen\<close> is the list of the frames it has
  yielded after some ticks; every tick reads the tables as they then are. Outside are the conversion
  of an instant to milliseconds, which goes through a float, and the connection.
\<close>

section \<open>What is asked for\<close>

text \<open>\<open>ILIKE\<close>; a null is not like anything.\<close>

definition ilike :: "string \<Rightarrow> string option \<Rightarrow> bool" where
  "ilike pattern s = (case s of None \<Rightarrow> False | Some x \<Rightarrow> like_match (py_lower pattern) (py_lower x))"

definition anywhere :: "string \<Rightarrow> string" where
  "anywhere q = ''%'' @ q @ ''%''"

definition int_query :: "web_request \<Rightarrow> string \<Rightarrow> int \<Rightarrow> int \<Rightarrow> int" where
  "int_query rq k absent wrong =
     (if query rq k = [] then absent else case parse_int (query rq k) of None \<Rightarrow> wrong | Some n \<Rightarrow> n)"

text \<open>\<open>_ev_filters\<close>, as the rows its clauses select.\<close>

definition ev_filters :: "web_request \<Rightarrow> spine_row \<Rightarrow> bool" where
  "ev_filters rq e =
     (let sev = int_query rq ''sev'' 0 0; src = strip (query rq ''src''); q = strip (query rq ''q'') in
      (sev > 0 \<longrightarrow> (case sp_severity e of None \<Rightarrow> False | Some n \<Rightarrow> n \<ge> sev))
      \<and> (src \<noteq> [] \<longrightarrow> ilike (anywhere src) (Some (sp_source e)))
      \<and> (q \<noteq> [] \<longrightarrow> ilike (anywhere q) (Some (sp_source e)) \<or> ilike (anywhere q) (sp_program e) \<or> ilike (anywhere q) (Some (sp_body e))))"

definition all_kinds :: "string list" where
  "all_kinds = [''log'', ''alert'', ''eval'']"

definition kinds :: "web_request \<Rightarrow> string list" where
  "kinds rq = (case map_of (wq_query rq) ''kinds'' of
     None \<Rightarrow> all_kinds
   | Some s \<Rightarrow> filter (\<lambda>k. k \<in> set all_kinds) (map strip (split_on CHR '','' s)))"

text \<open>\<open>_q_cond\<close>: any of the columns.\<close>

definition q_cond :: "web_request \<Rightarrow> string option list \<Rightarrow> bool" where
  "q_cond rq cols = (let q = strip (query rq ''q'') in q \<noteq> [] \<longrightarrow> list_ex (ilike (anywhere q)) cols)"

definition row_cap :: "web_request \<Rightarrow> nat" where
  "row_cap rq = nat (min (max (int_query rq ''limit'' 300 300) 1) 2000)"

section \<open>Frames\<close>

datatype frame =
    Log spine_row
  | Alert alert_event_row "string option"
  | Eval id eval_row "string option"
  | Retry_After
  | Heartbeat

definition logitem :: "(time \<Rightarrow> int) \<Rightarrow> spine_row \<Rightarrow> dict" where
  "logitem ms r =
     [(''t'', PStr ''log''), (''ts'', PStr (clock_text (sp_ts r))), (''ts_ms'', PInt (ms (sp_ts r))), (''source'', PStr (sp_source r)),
      (''sev'', opt_str (sp_severity_text r)), (''sevnum'', PInt (case sp_severity r of None \<Rightarrow> 0 | Some n \<Rightarrow> n)),
      (''prog'', opt_str (sp_program r)), (''body'', PStr (sp_body r)), (''attrs'', PDict (visible_attributes (sp_attributes r) 512))]"

definition alertitem :: "(time \<Rightarrow> int) \<Rightarrow> alert_event_row \<Rightarrow> string option \<Rightarrow> dict" where
  "alertitem ms r rule =
     [(''t'', PStr ''alert''), (''ts'', PStr (clock_text (ae_fired_at r))), (''ts_ms'', PInt (ms (ae_fired_at r))), (''rule'', opt_str rule),
      (''source'', opt_str (ae_source r)), (''disp'', PStr (if ae_disposition r = [] then ''fire'' else ae_disposition r))]"

definition evalitem :: "(time \<Rightarrow> int) \<Rightarrow> id \<Rightarrow> eval_row \<Rightarrow> string option \<Rightarrow> dict" where
  "evalitem ms n r rule =
     [(''t'', PStr ''eval''), (''id'', PInt n), (''ts'', PStr (clock_text (el_at r))), (''ts_ms'', PInt (ms (el_at r))), (''rule'', opt_str rule),
      (''source'', PStr (el_source r)), (''fired'', PBool (el_fired r)), (''sev'', opt_str (el_severity r)), (''why'', opt_str (el_why r)),
      (''n'', PInt (int (el_count r))), (''trig'', PStr (el_trigger r)), (''ok'', PBool (el_ok r)), (''ms'', PInt (el_latency r))]"

definition blank_line :: string where
  "blank_line = [CHR 0x0A, CHR 0x0A]"

definition data_frame :: "dict \<Rightarrow> string" where
  "data_frame d = ''data: '' @ json_dumps True True (PDict d) @ blank_line"

fun frame_text :: "(time \<Rightarrow> int) \<Rightarrow> frame \<Rightarrow> string" where
  "frame_text ms (Log r) = data_frame (logitem ms r)"
| "frame_text ms (Alert r rule) = data_frame (alertitem ms r rule)"
| "frame_text ms (Eval n r rule) = data_frame (evalitem ms n r rule)"
| "frame_text ms Retry_After = ''retry: 3000'' @ blank_line"
| "frame_text ms Heartbeat = '': keepalive'' @ blank_line"

section \<open>The queries\<close>

definition rule_name :: "web \<Rightarrow> id option \<Rightarrow> string option" where
  "rule_name w rid = (case rid of None \<Rightarrow> None | Some r \<Rightarrow> map_option r_name (find_rule (ms_db (wb_ms w)) r))"

text \<open>The selected rows of the three kinds, by id.\<close>

definition log_rows :: "web_request \<Rightarrow> web \<Rightarrow> (id \<times> frame) list" where
  "log_rows rq w = map (\<lambda>e. (sp_id e, Log e)) (sort_key sp_id (filter (ev_filters rq) (ms_events (wb_ms w))))"

definition alert_rows :: "web_request \<Rightarrow> web \<Rightarrow> (id \<times> frame) list" where
  "alert_rows rq w = map (\<lambda>a. (ae_id a, Alert a (rule_name w (ae_rule_id a))))
     (sort_key ae_id (filter (\<lambda>a. q_cond rq [rule_name w (ae_rule_id a), ae_source a, Some (ae_disposition a)]) (alert_events (ms_db (wb_ms w)))))"

definition eval_rows_of :: "web_request \<Rightarrow> web \<Rightarrow> (id \<times> frame) list" where
  "eval_rows_of rq w = map (\<lambda>(n, e). (n, Eval n e (rule_name w (Some (el_rule e)))))
     (sort_key fst (filter (\<lambda>(n, e). q_cond rq [rule_name w (Some (el_rule e)), Some (el_source e), el_why e]) (wb_evals w)))"

definition kind_rows :: "string \<Rightarrow> web_request \<Rightarrow> web \<Rightarrow> (id \<times> frame) list" where
  "kind_rows k rq w =
     (if k \<notin> set (kinds rq) then []
      else if k = ''log'' then log_rows rq w else if k = ''alert'' then alert_rows rq w else eval_rows_of rq w)"

text \<open>\<open>ORDER BY id DESC LIMIT n\<close>, reversed; the rows above a cursor; the cursor after them.\<close>

definition newest :: "nat \<Rightarrow> (id \<times> frame) list \<Rightarrow> (id \<times> frame) list" where
  "newest n rows = rev (take n (rev rows))"

definition above :: "id \<Rightarrow> (id \<times> frame) list \<Rightarrow> (id \<times> frame) list" where
  "above seen rows = filter (\<lambda>(n, _). n > seen) rows"

definition cursor_after :: "id \<Rightarrow> (id \<times> frame) list \<Rightarrow> id" where
  "cursor_after seen rows = (if rows = [] then seen else fst (last rows))"

section \<open>The run\<close>

record stream_env =
  sv_request :: web_request
  sv_env :: "nat \<Rightarrow> web_env"
  sv_web :: "nat \<Rightarrow> web"
  sv_gone :: "nat \<Rightarrow> bool"

record stream_state =
  sr_log :: id
  sr_alert :: id
  sr_eval :: id
  sr_idle :: int
  sr_recheck :: int

definition backfill :: "stream_env \<Rightarrow> frame list \<times> stream_state" where
  "backfill S =
     (let rq = sv_request S; w = sv_web S 0; n = row_cap rq;
          ev = newest n (kind_rows ''log'' rq w); al = newest n (kind_rows ''alert'' rq w); se = newest n (kind_rows ''eval'' rq w)
      in (map snd (ev @ al @ se) @ [Retry_After],
          \<lparr>sr_log = cursor_after 0 ev, sr_alert = cursor_after 0 al, sr_eval = cursor_after 0 se, sr_idle = 0, sr_recheck = 0\<rparr>))"

text \<open>One turn of the loop, at tick \<open>n\<close>: \<open>None\<close> ends the stream. Only the log query has a limit.\<close>

definition stream_tick :: "stream_env \<Rightarrow> nat \<Rightarrow> stream_state \<Rightarrow> (frame list \<times> stream_state) option" where
  "stream_tick S n s =
     (let rq = sv_request S; w = sv_web S n; E = sv_env S n; due = sr_recheck s + 1 \<ge> 30 in
      if sv_gone S n then None
      else if due \<and> load_session E rq w = None then None
      else (let ev = take 500 (above (sr_log s) (kind_rows ''log'' rq w)); al = above (sr_alert s) (kind_rows ''alert'' rq w);
                se = above (sr_eval s) (kind_rows ''eval'' rq w);
                quiet = (ev = [] \<and> al = [] \<and> se = []);
                beat = (quiet \<and> sr_idle s + 1 \<ge> st_sse_heartbeat (wv_cfg E))
            in Some (map snd (ev @ al @ se) @ (if beat then [Heartbeat] else []),
                 \<lparr>sr_log = cursor_after (sr_log s) ev, sr_alert = cursor_after (sr_alert s) al, sr_eval = cursor_after (sr_eval s) se,
                  sr_idle = (if quiet \<and> \<not> beat then sr_idle s + 1 else 0), sr_recheck = (if due then 0 else sr_recheck s + 1)\<rparr>)))"

text \<open>The frames of the first \<open>m\<close> turns from tick \<open>n\<close>.\<close>

fun stream_from :: "stream_env \<Rightarrow> nat \<Rightarrow> nat \<Rightarrow> stream_state \<Rightarrow> frame list" where
  "stream_from S 0 n s = []"
| "stream_from S (Suc m) n s = (case stream_tick S n s of None \<Rightarrow> [] | Some (out, s') \<Rightarrow> out @ stream_from S m (n + 1) s')"

definition stream :: "stream_env \<Rightarrow> nat \<Rightarrow> frame list" where
  "stream S m = (case backfill S of (out, s) \<Rightarrow> out @ stream_from S m 1 s)"

section \<open>The log of a stream\<close>

definition frame_log :: "frame \<Rightarrow> spine_row list" where
  "frame_log f = (case f of Log e \<Rightarrow> [e] | _ \<Rightarrow> [])"

definition logs_sent :: "frame list \<Rightarrow> spine_row list" where
  "logs_sent fs = concat (map frame_log fs)"

definition selected :: "stream_env \<Rightarrow> nat \<Rightarrow> spine_row list" where
  "selected S n = filter (ev_filters (sv_request S)) (ms_events (wb_ms (sv_web S n)))"

text \<open>While rows are only added, with growing positive ids.\<close>

definition only_added :: "stream_env \<Rightarrow> bool" where
  "only_added S =
     (\<forall>n. prefix (ms_events (wb_ms (sv_web S n))) (ms_events (wb_ms (sv_web S (Suc n))))
        \<and> sorted_wrt (<) (map sp_id (ms_events (wb_ms (sv_web S n)))) \<and> (\<forall>e \<in> set (ms_events (wb_ms (sv_web S n))). 0 < sp_id e))"

lemma logs_sent_append [simp]: "logs_sent (xs @ ys) = logs_sent xs @ logs_sent ys"
  by (simp add: logs_sent_def)

lemma logs_sent_logs: "logs_sent (map snd (map (\<lambda>e. (sp_id e, Log e)) es)) = es"
  by (induction es) (simp_all add: logs_sent_def frame_log_def)

lemma no_logs: "(\<And>f. f \<in> set fs \<Longrightarrow> frame_log f = []) \<Longrightarrow> logs_sent fs = []"
  by (simp add: logs_sent_def)

lemma kind_no_logs: "k \<noteq> ''log'' \<Longrightarrow> p \<in> set (kind_rows k rq w) \<Longrightarrow> frame_log (snd p) = []"
  by (auto simp: kind_rows_def alert_rows_def eval_rows_of_def frame_log_def split: if_splits)

lemma selected_prefix: "only_added S \<Longrightarrow> prefix (selected S n) (selected S (n + m))"
proof (induction m)
  case (Suc m)
  have "prefix (selected S (n + m)) (selected S (n + Suc m))"
  proof -
    obtain zs where "ms_events (wb_ms (sv_web S (Suc (n + m)))) = ms_events (wb_ms (sv_web S (n + m))) @ zs"
      using Suc.prems unfolding only_added_def prefix_def by blast
    then show ?thesis by (simp add: selected_def)
  qed
  then show ?case using Suc by (meson prefix_order.trans)
qed simp

lemma sorted_wrt_filter_key: "sorted_wrt (<) (map sp_id es) \<Longrightarrow> sorted_wrt (<) (map sp_id (filter p es))"
  by (induction es) auto

lemma selected_sorted: "only_added S \<Longrightarrow> sorted_wrt (<) (map sp_id (selected S n))"
  by (simp add: selected_def only_added_def sorted_wrt_filter_key)

lemma selected_positive: "only_added S \<Longrightarrow> e \<in> set (selected S n) \<Longrightarrow> 0 < sp_id e"
  by (auto simp: selected_def only_added_def)

lemma strict_sorted_sort: "sorted_wrt (<) (map sp_id es) \<Longrightarrow> sort_key sp_id es = es"
proof -
  assume "sorted_wrt (<) (map sp_id es)"
  then have "sorted (map sp_id es)" by (rule sorted_wrt_mono_rel[rotated]) simp
  then show ?thesis by (rule sort_key_id_if_sorted)
qed

lemma log_rows_selected:
  assumes "only_added S"
  shows "log_rows (sv_request S) (sv_web S n) = map (\<lambda>e. (sp_id e, Log e)) (selected S n)"
  using selected_sorted[OF assms, of n] by (simp add: log_rows_def selected_def strict_sorted_sort)

text \<open>The cursor after \<open>k\<close> selected rows.\<close>

definition cursor_at :: "spine_row list \<Rightarrow> nat \<Rightarrow> id" where
  "cursor_at es k = (if k = 0 then 0 else sp_id (es ! (k - 1)))"

lemma above_cursor:
  assumes "sorted_wrt (<) (map sp_id es)" "\<forall>e \<in> set es. 0 < sp_id e" "k \<le> length es"
  shows "filter (\<lambda>e. sp_id e > cursor_at es k) es = drop k es"
proof -
  have low: "sp_id e \<le> cursor_at es k" if "e \<in> set (take k es)" for e
  proof -
    obtain i where "i < length (take k es)" "e = take k es ! i" using \<open>e \<in> set (take k es)\<close> unfolding in_set_conv_nth by blast
    then have i: "i < k" "e = es ! i" "i < length es" by simp_all
    have "sp_id (es ! i) \<le> sp_id (es ! (k - 1))"
    proof (cases "i = k - 1")
      case False
      then have "i < k - 1" "k - 1 < length (map sp_id es)" using i assms(3) by auto
      then show ?thesis using sorted_wrt_nth_less[OF assms(1), of i "k - 1"] i by simp
    qed simp
    then show ?thesis using i by (simp add: cursor_at_def)
  qed
  have high: "sp_id e > cursor_at es k" if "e \<in> set (drop k es)" for e
  proof (cases "k = 0")
    case True
    then show ?thesis using that assms(2) by (simp add: cursor_at_def)
  next
    case False
    obtain i where "i < length (drop k es)" "e = drop k es ! i" using \<open>e \<in> set (drop k es)\<close> unfolding in_set_conv_nth by blast
    then have i: "i < length es - k" "e = es ! (k + i)" using assms(3) by simp_all
    then show ?thesis using False sorted_wrt_nth_less[OF assms(1), of "k - 1" "k + i"] by (simp add: cursor_at_def)
  qed
  have "filter (\<lambda>e. sp_id e > cursor_at es k) (take k es @ drop k es) = drop k es"
    using low high by (simp only: filter_append) (simp add: filter_empty_conv filter_id_conv not_less)
  then show ?thesis by simp
qed

lemma cursor_at_prefix: "prefix es fs \<Longrightarrow> k \<le> length es \<Longrightarrow> cursor_at fs k = cursor_at es k"
  by (auto simp: cursor_at_def prefix_def nth_append)

lemma above_selected:
  assumes "only_added S" "k \<le> length (selected S n)"
  shows "above (cursor_at (selected S n) k) (map (\<lambda>e. (sp_id e, Log e)) (selected S n))
    = map (\<lambda>e. (sp_id e, Log e)) (drop k (selected S n))"
proof -
  have pos: "\<forall>e \<in> set (selected S n). 0 < sp_id e" using selected_positive[OF assms(1)] by blast
  show ?thesis unfolding above_cursor[OF selected_sorted[OF assms(1)] pos assms(2), symmetric]
    by (simp add: above_def filter_map comp_def)
qed

text \<open>After some turns the cursor stands behind \<open>k\<close> selected rows.\<close>

lemma cursor_after_rows:
  assumes "j \<le> length es - k" "k \<le> length es"
  shows "cursor_after (cursor_at es k) (map (\<lambda>e. (sp_id e, f e)) (take j (drop k es))) = cursor_at es (k + j)"
proof (cases "j = 0")
  case False
  then have "last (take j (drop k es)) = es ! (k + j - 1)" "take j (drop k es) \<noteq> []" "drop k es \<noteq> []"
    using assms by (auto simp: last_conv_nth min_def)
  then show ?thesis using False by (simp add: cursor_after_def cursor_at_def last_map)
qed (simp add: cursor_after_def)

lemma stream_tick_logs:
  assumes "only_added S" "''log'' \<in> set (kinds (sv_request S))" "stream_tick S n s = Some (out, s')"
    and "sr_log s = cursor_at (selected S n) k" "k \<le> length (selected S n)"
  defines "j \<equiv> min 500 (length (selected S n) - k)"
  shows "logs_sent out = take j (drop k (selected S n)) \<and> sr_log s' = cursor_at (selected S n) (k + j)"
proof -
  let ?ev = "map (\<lambda>e. (sp_id e, Log e)) (take 500 (drop k (selected S n)))"
  have rows: "take 500 (above (sr_log s) (kind_rows ''log'' (sv_request S) (sv_web S n))) = ?ev"
    using assms(2) log_rows_selected[OF assms(1)] above_selected[OF assms(1,5)] by (simp add: kind_rows_def assms(4) take_map)
  have take_j: "take 500 (drop k (selected S n)) = take j (drop k (selected S n))" by (simp add: j_def take_drop min_def)
  have s': "sr_log s' = cursor_after (sr_log s) ?ev"
    using assms(3) by (auto simp: stream_tick_def Let_def rows split: if_splits)
  obtain al se beat where out: "out = map snd (?ev @ above (sr_alert s) al @ above (sr_eval s) se) @ beat"
      "al = kind_rows ''alert'' (sv_request S) (sv_web S n)" "se = kind_rows ''eval'' (sv_request S) (sv_web S n)"
      "beat = [] \<or> beat = [Heartbeat]"
    using assms(3) by (auto simp: stream_tick_def Let_def rows split: if_splits)
  have "logs_sent (map snd (above (sr_alert s) al @ above (sr_eval s) se) @ beat) = []"
  proof (rule no_logs)
    fix f
    assume "f \<in> set (map snd (above (sr_alert s) al @ above (sr_eval s) se) @ beat)"
    then consider p where "f = snd p" "p \<in> set al" | p where "f = snd p" "p \<in> set se" | "f = Heartbeat"
      using out(4) by (auto simp: above_def)
    then show "frame_log f = []"
    proof cases
      case (1 p) then show ?thesis using kind_no_logs[of "''alert''" p] out(2) by simp
    next
      case (2 p) then show ?thesis using kind_no_logs[of "''eval''" p] out(3) by simp
    qed (simp add: frame_log_def)
  qed
  then have "logs_sent out = take j (drop k (selected S n))" by (simp only: out(1) map_append append_assoc logs_sent_append take_j logs_sent_logs) simp
  moreover have "sr_log s' = cursor_at (selected S n) (k + j)"
    using cursor_after_rows[of j "selected S n" k Log] assms(5) by (simp only: s' take_j assms(4)) (simp add: j_def)
  ultimately show ?thesis ..
qed

lemma drop_take_join:
  assumes "a \<le> b" "b \<le> c"
  shows "drop a (take b xs) @ drop b (take c xs) = drop a (take c xs)"
proof -
  have "take c xs = take b xs @ drop b (take c xs)"
    using assms(2) by (metis append_take_drop_id min.absorb1 take_take)
  then have "drop a (take c xs) = drop a (take b xs) @ drop (a - length (take b xs)) (drop b (take c xs))"
    by (metis drop_append)
  also have "drop (a - length (take b xs)) (drop b (take c xs)) = drop b (take c xs)"
    using assms(1) by (cases "b \<le> length xs") simp_all
  finally show ?thesis by simp
qed

lemma stream_from_logs:
  assumes "only_added S" "''log'' \<in> set (kinds (sv_request S))"
    and "sr_log s = cursor_at (selected S n) k" "k \<le> length (selected S n)"
  shows "\<exists>k'. k \<le> k' \<and> k' \<le> length (selected S (n + m))
    \<and> logs_sent (stream_from S m (Suc n) s) = drop k (take k' (selected S (n + m)))"
  using assms(3,4)
proof (induction m arbitrary: n s k)
  case 0
  then show ?case by (intro exI[of _ k]) (simp add: logs_sent_def)
next
  case (Suc m)
  let ?es = "selected S (Suc n)"
  have pre: "prefix (selected S n) ?es" using selected_prefix[OF assms(1), of n 1] by simp
  have k: "k \<le> length ?es" "sr_log s = cursor_at ?es k"
    using Suc.prems pre by (auto simp: cursor_at_prefix prefix_length_le intro: order_trans)
  show ?case
  proof (cases "stream_tick S (Suc n) s")
    case None
    have "k \<le> length (selected S (n + Suc m))"
      using k(1) prefix_length_le[OF selected_prefix[OF assms(1), of "Suc n" m]] by simp
    then show ?thesis using None by (intro exI[of _ k]) (simp add: logs_sent_def)
  next
    case (Some x)
    obtain out s' where x: "x = (out, s')" by (cases x)
    define j where "j = min 500 (length ?es - k)"
    have tick: "logs_sent out = take j (drop k ?es)" "sr_log s' = cursor_at ?es (k + j)"
      using stream_tick_logs[OF assms(1,2) Some[unfolded x] k(2,1)] by (simp_all add: j_def)
    obtain k' where k': "k + j \<le> k'" "k' \<le> length (selected S (Suc n + m))"
        "logs_sent (stream_from S m (Suc (Suc n)) s') = drop (k + j) (take k' (selected S (Suc n + m)))"
      using Suc.IH[OF tick(2)] k(1) by (metis j_def add_le_cancel_left le_add_diff_inverse min.cobounded2)
    have "take j (drop k ?es) = drop k (take (k + j) (selected S (Suc n + m)))"
      using selected_prefix[OF assms(1), of "Suc n" m] k(1) by (auto simp: prefix_def drop_take j_def)
    moreover have "drop k (take (k + j) (selected S (Suc n + m))) @ drop (k + j) (take k' (selected S (Suc n + m)))
        = drop k (take k' (selected S (Suc n + m)))"
      using k'(1) by (simp add: drop_take_join)
    ultimately have "logs_sent (stream_from S (Suc m) (Suc n) s) = drop k (take k' (selected S (Suc n + m)))"
      using Some x tick(1) k'(3) by simp
    then show ?thesis using k'(1,2) by (intro exI[of _ k']) simp
  qed
qed

lemma backfill_logs:
  assumes "only_added S" "''log'' \<in> set (kinds (sv_request S))"
  shows "logs_sent (fst (backfill S)) = drop (length (selected S 0) - row_cap (sv_request S)) (selected S 0)"
    and "sr_log (snd (backfill S)) = cursor_at (selected S 0) (length (selected S 0))"
proof -
  let ?es = "selected S 0" and ?rows = "\<lambda>k. newest (row_cap (sv_request S)) (kind_rows k (sv_request S) (sv_web S 0))"
  have rows: "?rows ''log'' = map (\<lambda>e. (sp_id e, Log e)) (drop (length ?es - row_cap (sv_request S)) ?es)"
    using assms(2) log_rows_selected[OF assms(1), of 0] by (simp add: kind_rows_def newest_def rev_map take_map take_rev drop_map)
  have "logs_sent (map snd (?rows ''alert'' @ ?rows ''eval'') @ [Retry_After]) = []"
  proof (rule no_logs)
    fix f
    assume "f \<in> set (map snd (?rows ''alert'' @ ?rows ''eval'') @ [Retry_After])"
    then consider p where "f = snd p" "p \<in> set (?rows ''alert'')" | p where "f = snd p" "p \<in> set (?rows ''eval'')" | "f = Retry_After" by auto
    then show "frame_log f = []"
    proof cases
      case (1 p)
      then show ?thesis using kind_no_logs[of "''alert''" p] by (auto simp: newest_def dest: in_set_takeD)
    next
      case (2 p)
      then show ?thesis using kind_no_logs[of "''eval''" p] by (auto simp: newest_def dest: in_set_takeD)
    qed (simp add: frame_log_def)
  qed
  moreover have "fst (backfill S) = map snd (?rows ''log'') @ map snd (?rows ''alert'' @ ?rows ''eval'') @ [Retry_After]"
    by (simp add: backfill_def Let_def)
  ultimately show "logs_sent (fst (backfill S)) = drop (length ?es - row_cap (sv_request S)) ?es"
    by (simp only: logs_sent_append rows logs_sent_logs append_Nil2)
  have "1 \<le> row_cap (sv_request S)" by (simp add: row_cap_def)
  then have "cursor_after 0 (?rows ''log'') = cursor_at ?es (length ?es)"
  proof (cases "?es = []")
    case False
    then have "length ?es - row_cap (sv_request S) < length ?es" using \<open>1 \<le> row_cap (sv_request S)\<close> by (cases ?es) auto
    then show ?thesis using False by (simp add: rows cursor_after_def cursor_at_def last_map last_drop not_le) (simp add: last_conv_nth)
  qed (simp add: rows cursor_after_def cursor_at_def)
  then show "sr_log (snd (backfill S)) = cursor_at ?es (length ?es)" by (simp add: backfill_def Let_def)
qed

text \<open>A turn with a connection and a session goes on; with at most 500 new rows it leaves none behind.\<close>

definition kept_open :: "stream_env \<Rightarrow> bool" where
  "kept_open S = (\<forall>n. \<not> sv_gone S n \<and> load_session (sv_env S n) (sv_request S) (sv_web S n) \<noteq> None)"

lemma kept_open_tick: "kept_open S \<Longrightarrow> stream_tick S n s \<noteq> None"
  by (simp add: kept_open_def stream_tick_def Let_def)

lemma stream_from_complete:
  assumes "only_added S" "''log'' \<in> set (kinds (sv_request S))" "kept_open S"
    and "\<forall>n. length (selected S (Suc n)) \<le> length (selected S n) + 500"
    and "sr_log s = cursor_at (selected S n) (length (selected S n))"
  shows "logs_sent (stream_from S m (Suc n) s) = drop (length (selected S n)) (selected S (n + m))"
  using assms(5)
proof (induction m arbitrary: n s)
  case 0
  then show ?case by (simp add: logs_sent_def)
next
  case (Suc m)
  let ?es = "selected S (Suc n)" and ?k = "length (selected S n)"
  have pre: "prefix (selected S n) ?es" using selected_prefix[OF assms(1), of n 1] by simp
  have k: "?k \<le> length ?es" "sr_log s = cursor_at ?es ?k"
    using Suc.prems pre by (auto simp: cursor_at_prefix prefix_length_le)
  obtain out s' where tick: "stream_tick S (Suc n) s = Some (out, s')" using kept_open_tick[OF assms(3)] by fastforce
  have j: "min 500 (length ?es - ?k) = length ?es - ?k" using assms(4) by (metis add.commute diff_le_mono add_diff_cancel_left' min.absorb2)
  have "logs_sent out = drop ?k ?es" "sr_log s' = cursor_at ?es (length ?es)"
    using stream_tick_logs[OF assms(1,2) tick k(2,1)] k(1) by (simp_all add: j)
  moreover have "drop ?k ?es @ drop (length ?es) (selected S (Suc n + m)) = drop ?k (selected S (Suc n + m))"
    using selected_prefix[OF assms(1), of "Suc n" m] k(1) by (auto simp: prefix_def)
  ultimately show ?case using tick Suc.IH[of s' "Suc n"] by simp
qed

section \<open>The end of a session\<close>

lemma stream_tick_recheck:
  "stream_tick S n s = Some (out, s') \<Longrightarrow> sr_recheck s' = (if sr_recheck s + 1 \<ge> 30 then 0 else sr_recheck s + 1)"
  by (auto simp: stream_tick_def Let_def split: if_splits)

lemma stream_tick_dead:
  "sr_recheck s + 1 \<ge> 30 \<Longrightarrow> load_session (sv_env S n) (sv_request S) (sv_web S n) = None \<Longrightarrow> stream_tick S n s = None"
  by (simp add: stream_tick_def Let_def)

lemma stream_from_dead:
  assumes "\<forall>i \<ge> n. load_session (sv_env S i) (sv_request S) (sv_web S i) = None" "30 - sr_recheck s \<le> int m"
  shows "stream_from S (m + j) n s = stream_from S m n s"
  using assms
proof (induction m arbitrary: n s)
  case 0
  then show ?case using stream_tick_dead[of s S n] by (cases j) simp_all
next
  case (Suc m)
  show ?case
  proof (cases "stream_tick S n s")
    case (Some x)
    obtain out s' where x: "x = (out, s')" by (cases x)
    have "\<not> sr_recheck s + 1 \<ge> 30" using Some stream_tick_dead[of s S n] Suc.prems(1) by auto
    then have "sr_recheck s' = sr_recheck s + 1" using stream_tick_recheck[OF Some[unfolded x]] by simp
    then have "stream_from S (m + j) (n + 1) s' = stream_from S m (n + 1) s'" using Suc.prems by (intro Suc.IH) auto
    then show ?thesis using Some x by simp
  qed simp
qed

lemma stream_from_recheck:
  assumes "0 \<le> sr_recheck s" "sr_recheck s < 30" "\<forall>i \<ge> n + k. load_session (sv_env S i) (sv_request S) (sv_web S i) = None"
  shows "stream_from S (k + 30 + j) n s = stream_from S (k + 30) n s"
  using assms
proof (induction k arbitrary: n s)
  case 0
  then show ?case using stream_from_dead[of n S s 30 j] by simp
next
  case (Suc k)
  show ?case
  proof (cases "stream_tick S n s")
    case (Some x)
    obtain out s' where x: "x = (out, s')" by (cases x)
    have "0 \<le> sr_recheck s' \<and> sr_recheck s' < 30" using Suc.prems(1,2) stream_tick_recheck[OF Some[unfolded x]] by auto
    then have "stream_from S (k + 30 + j) (n + 1) s' = stream_from S (k + 30) (n + 1) s'" using Suc.prems(3) by (intro Suc.IH) auto
    moreover have "Suc k + 30 + j = Suc (k + 30 + j)" "Suc k + 30 = Suc (k + 30)" by simp_all
    ultimately show ?thesis using Some x by (simp only: stream_from.simps option.case prod.case)
  next
    case None
    moreover have "Suc k + 30 + j = Suc (k + 30 + j)" "Suc k + 30 = Suc (k + 30)" by simp_all
    ultimately show ?thesis by (simp only: stream_from.simps option.case)
  qed
qed

text \<open>
  C8. The live stream shows the log without a gap and not for longer than the session. While rows are
  only added to the event table, with growing ids: after any number of turns the log rows sent are,
  each once and in order, a stretch of the rows the request selects, from the newest the backfill
  limit admits on; with a connection, a session and at most 500 new selected rows in a turn, they
  reach to the last row of the table. And when from some tick on the session is not accepted, nothing
  is sent after thirty further turns.
\<close>

theorem stream_is_gapless:
  assumes "only_added S" "''log'' \<in> set (kinds (sv_request S))"
  shows "(\<exists>k. length (selected S 0) \<le> k \<and> k \<le> length (selected S m)
      \<and> logs_sent (stream S m) = drop (length (selected S 0) - row_cap (sv_request S)) (take k (selected S m)))
    \<and> (kept_open S \<and> (\<forall>n. length (selected S (Suc n)) \<le> length (selected S n) + 500)
        \<longrightarrow> logs_sent (stream S m) = drop (length (selected S 0) - row_cap (sv_request S)) (selected S m))
    \<and> (\<forall>n j. (\<forall>i > n. load_session (sv_env S i) (sv_request S) (sv_web S i) = None) \<longrightarrow> stream S (n + 30 + j) = stream S (n + 30))"
proof (intro conjI impI allI)
  let ?n0 = "length (selected S 0)" and ?off = "length (selected S 0) - row_cap (sv_request S)"
  obtain out s where b: "backfill S = (out, s)" by fastforce
  have out: "logs_sent out = drop ?off (take ?n0 (selected S m))" and s: "sr_log s = cursor_at (selected S 0) ?n0"
    using backfill_logs[OF assms] selected_prefix[OF assms(1), of 0 m] by (auto simp: b prefix_def)
  obtain k where k: "?n0 \<le> k" "k \<le> length (selected S m)" "logs_sent (stream_from S m 1 s) = drop ?n0 (take k (selected S m))"
    using stream_from_logs[OF assms s, of m] by auto
  have "logs_sent (stream S m) = drop ?off (take ?n0 (selected S m)) @ drop ?n0 (take k (selected S m))"
    by (simp only: stream_def b prod.case logs_sent_append out k(3))
  then show "\<exists>k. ?n0 \<le> k \<and> k \<le> length (selected S m) \<and> logs_sent (stream S m) = drop ?off (take k (selected S m))"
    using k(1,2) by (intro exI[of _ k]) (simp add: drop_take_join)
  show "logs_sent (stream S m) = drop ?off (selected S m)"
    if "kept_open S \<and> (\<forall>n. length (selected S (Suc n)) \<le> length (selected S n) + 500)"
  proof -
    have "logs_sent (stream_from S m (Suc 0) s) = drop ?n0 (selected S (0 + m))"
      using that s by (intro stream_from_complete[OF assms]) auto
    then have "logs_sent (stream S m) = drop ?off (take ?n0 (selected S m)) @ drop ?n0 (take (length (selected S m)) (selected S m))"
      by (simp add: stream_def b out)
    then show ?thesis using k(1,2) by (simp only: drop_take_join[OF diff_le_self order_trans[OF k(1,2)]]) simp
  qed
  show "stream S (n + 30 + j) = stream S (n + 30)"
    if "\<forall>i > n. load_session (sv_env S i) (sv_request S) (sv_web S i) = None" for n j
  proof -
    have "sr_recheck s = 0" using b by (auto simp: backfill_def Let_def)
    then show ?thesis using stream_from_recheck[of s 1 n S j] that by (simp add: stream_def b)
  qed
qed

definition demo_log_row :: "id \<Rightarrow> spine_row" where
  "demo_log_row n = \<lparr>sp_id = n, sp_ts = 0, sp_source = ''web1'', sp_severity = Some 17, sp_severity_text = None, sp_program = None,
     sp_body = ''disk full'', sp_attributes = PDict [], sp_template = None\<rparr>"

definition demo_session_row :: session_row where
  "demo_session_row = \<lparr>ss_sid = ''s1'', ss_oid = Some ''o1'', ss_upn = None, ss_name = None, ss_sealed = [], ss_nonce = [],
     ss_access_exp = 10, ss_absolute_exp = 10, ss_last_seen = 0, ss_revoked = False\<rparr>"

definition demo_stream :: stream_env where
  "demo_stream = \<lparr>sv_request = (demo_web_request ''GET'')\<lparr>wq_query := [(''sev'', ''9''), (''limit'', ''1'')]\<rparr>, sv_env = (\<lambda>n. demo_web_env 0),
     sv_web = (\<lambda>n. empty_web\<lparr>wb_sessions := [demo_session_row],
        wb_ms := (wb_ms empty_web)\<lparr>ms_events := map demo_log_row ([1, 2] @ (if n < 2 then [] else [3]))\<rparr>\<rparr>),
     sv_gone = (\<lambda>n. False)\<rparr>"

lemma demo_stream_open: "load_session (demo_web_env 0) (demo_web_request ''GET'')
    (empty_web\<lparr>wb_sessions := [demo_session_row], wb_ms := m\<rparr>) = Some demo_session_row"
  by (simp add: load_session_def sid_from_cookie_def unsign_def demo_web_env_def demo_web_request_def dict_get_def live_row_def
      find_row_def demo_session_row_def demo_front_def)

lemma demo_stream_facts:
  "only_added demo_stream" "''log'' \<in> set (kinds (sv_request demo_stream))" "row_cap (sv_request demo_stream) = 1"
  "kept_open demo_stream" "ev_filters (sv_request demo_stream) (demo_log_row n)"
proof -
  show "only_added demo_stream" by (simp add: only_added_def demo_stream_def demo_log_row_def)
  show "''log'' \<in> set (kinds (sv_request demo_stream))" "row_cap (sv_request demo_stream) = 1" by code_simp+
  have "sid_from_cookie (demo_web_env 0) (sv_request demo_stream) = sid_from_cookie (demo_web_env 0) (demo_web_request ''GET'')"
    by (simp add: demo_stream_def sid_from_cookie_def)
  then have cookie: "load_session (demo_web_env 0) (sv_request demo_stream) w = load_session (demo_web_env 0) (demo_web_request ''GET'') w" for w
    by (simp only: load_session_def)
  have env: "sv_env demo_stream n = demo_web_env 0" "\<not> sv_gone demo_stream n"
    "\<exists>m. sv_web demo_stream n = empty_web\<lparr>wb_sessions := [demo_session_row], wb_ms := m\<rparr>" for n
    by (auto simp: demo_stream_def)
  have "load_session (demo_web_env 0) (sv_request demo_stream) (sv_web demo_stream n) \<noteq> None" for n
    using env(3)[of n] cookie demo_stream_open by fastforce
  then show "kept_open demo_stream" by (simp add: kept_open_def env(1,2))
  have "int_query (sv_request demo_stream) ''sev'' 0 0 = 9" "strip (query (sv_request demo_stream) ''src'') = []"
    "strip (query (sv_request demo_stream) ''q'') = []" by code_simp+
  then show "ev_filters (sv_request demo_stream) (demo_log_row n)" by (simp add: ev_filters_def demo_log_row_def)
qed

lemma demo_selected: "selected demo_stream n = map demo_log_row ([1, 2] @ (if n < 2 then [] else [3]))"
  using demo_stream_facts(5) unfolding selected_def by (simp add: demo_stream_def empty_web_def)

theorem stream_is_gapless_witness: "map sp_id (logs_sent (stream demo_stream 5)) = [2, 3]"
proof -
  have "\<forall>n. length (selected demo_stream (Suc n)) \<le> length (selected demo_stream n) + 500" by (simp add: demo_selected)
  then have "logs_sent (stream demo_stream 5) = drop (length (selected demo_stream 0) - 1) (selected demo_stream 5)"
    using stream_is_gapless[OF demo_stream_facts(1,2), of 5] demo_stream_facts(3,4) by simp
  then show ?thesis by (simp add: demo_selected demo_log_row_def)
qed

end
