(* ===== verification/Listen.thy ===== *)
theory Listen
  imports Collector
begin

text \<open>
  How the collector follows the tables: the triggers of \<open>schema.sql\<close> that announce every change of the
  rules and of the filters, \<open>listen\<close> of \<open>ringdown/db.py\<close>, and the callbacks of \<open>collector.main\<close>, which
  reload the live copy. The listener goes from one \<open>await\<close> to the next; between two of its steps other
  transactions commit, the stop event is set, or the connection dies.
\<close>

section \<open>The triggers\<close>

record row_change =
  rc_table :: string
  rc_op :: string
  rc_id :: string

text \<open>The payload, as \<open>json_build_object\<close> writes it; the filters' one has no table.\<close>

definition json_member :: "string \<Rightarrow> string \<Rightarrow> string" where
  "json_member key value = [CHR 0x22] @ key @ [CHR 0x22] @ '' : '' @ [CHR 0x22] @ value @ [CHR 0x22]"

definition rules_payload :: "row_change \<Rightarrow> string" where
  "rules_payload c = ''{'' @ json_member ''table'' (rc_table c) @ '', '' @ json_member ''op'' (rc_op c) @ '', ''
     @ json_member ''id'' (rc_id c) @ ''}''"

definition filters_payload :: "row_change \<Rightarrow> string" where
  "filters_payload c = ''{'' @ json_member ''op'' (rc_op c) @ '', '' @ json_member ''id'' (rc_id c) @ ''}''"

text \<open>
  A trigger runs for each row a transaction inserts, updates or deletes: a table that differs
  afterwards has changes in the list.
\<close>

definition rules_noticed :: "db \<Rightarrow> row_change list \<Rightarrow> db \<Rightarrow> bool" where
  "rules_noticed d cs d' =
     ((alert_rules d' \<noteq> alert_rules d \<longrightarrow> ''alert_rules'' \<in> rc_table ` set cs)
      \<and> (targets d' \<noteq> targets d \<longrightarrow> ''targets'' \<in> rc_table ` set cs)
      \<and> (rule_targets d' \<noteq> rule_targets d \<longrightarrow> ''rule_targets'' \<in> rc_table ` set cs))"

definition filters_noticed :: "filter_row list \<Rightarrow> row_change list \<Rightarrow> filter_row list \<Rightarrow> bool" where
  "filters_noticed t cs t' = (t' \<noteq> t \<longrightarrow> cs \<noteq> [])"

section \<open>What a listener keeps current\<close>

text \<open>
  The tables \<open>'d\<close>, what the first query of a reload returns, the live copy made of it by the second
  query, the transactions the triggers allow, and their payloads.
\<close>

record ('d, 'r, 'm) live_view =
  lv_fetch :: "'d \<Rightarrow> 'r"
  lv_compile :: "'r \<Rightarrow> 'd \<Rightarrow> 'm"
  lv_noticed :: "'d \<Rightarrow> row_change list \<Rightarrow> 'd \<Rightarrow> bool"
  lv_payload :: "row_change \<Rightarrow> string"

definition load :: "('d, 'r, 'm) live_view \<Rightarrow> 'd \<Rightarrow> 'm" where
  "load V d = lv_compile V (lv_fetch V d) d"

text \<open>\<open>Ruleset.reload\<close>: the rules in one query, their bindings in another, each in a transaction of its own.\<close>

definition rules_view :: "engine \<Rightarrow> (db, rule_row list, live_rule list) live_view" where
  "rules_view R = \<lparr>lv_fetch = regex_rows, lv_compile = (\<lambda>rows d. List.map_filter (live_rule_of R d) rows),
     lv_noticed = rules_noticed, lv_payload = rules_payload\<rparr>"

text \<open>\<open>IngressFilterSet.reload\<close>: one query.\<close>

definition filters_view :: "engine \<Rightarrow> (filter_row list, filter_row list, filter_set) live_view" where
  "filters_view R = \<lparr>lv_fetch = enabled_rows, lv_compile = (\<lambda>rows t. compile_rows R rows),
     lv_noticed = filters_noticed, lv_payload = filters_payload\<rparr>"

section \<open>The listener\<close>

text \<open>
  Where \<open>listen\<close> stands: at the outer loop, connected and about to \<open>LISTEN\<close>, at the start of the
  callback, between the callback's two queries, at the inner loop, waiting for a notification,
  asleep before it reconnects, or returned.
\<close>

datatype 'r phase = Outer | Connected | Calling | Between 'r | Inner | Waiting | Sleeping | Returned

record ('d, 'r, 'm) listener =
  ln_tables :: 'd
  ln_live :: 'm
  ln_phase :: "'r phase"
  ln_up :: bool
  ln_inbox :: "string list"
  ln_backoff :: int
  ln_stop :: bool
  ln_failed :: bool

text \<open>The \<open>except\<close> clause; the connection is closed.\<close>

definition give_up :: "('d, 'r, 'm) listener \<Rightarrow> ('d, 'r, 'm) listener" where
  "give_up s = s\<lparr>ln_up := False, ln_inbox := [], ln_phase := (if ln_stop s then Returned else Sleeping)\<rparr>"

text \<open>
  The listener's next step, where \<open>ok\<close> tells whether what it awaits succeeds. The callback catches
  its exceptions, so that a failed reload leaves the live copy as it was.
\<close>

definition go_on :: "('d, 'r, 'm) live_view \<Rightarrow> bool \<Rightarrow> ('d, 'r, 'm) listener \<Rightarrow> ('d, 'r, 'm) listener" where
  "go_on V ok s =
     (case ln_phase s of
        Outer \<Rightarrow> if ln_stop s then s\<lparr>ln_phase := Returned\<rparr> else if ok then s\<lparr>ln_phase := Connected\<rparr> else give_up s
      | Connected \<Rightarrow>
          if ok then s\<lparr>ln_up := True, ln_inbox := [], ln_backoff := 1, ln_phase := Calling\<rparr> else give_up s
      | Calling \<Rightarrow>
          if ok then s\<lparr>ln_phase := Between (lv_fetch V (ln_tables s))\<rparr> else s\<lparr>ln_failed := True, ln_phase := Inner\<rparr>
      | Between rows \<Rightarrow>
          if ok then s\<lparr>ln_live := lv_compile V rows (ln_tables s), ln_failed := False, ln_phase := Inner\<rparr>
          else s\<lparr>ln_failed := True, ln_phase := Inner\<rparr>
      | Inner \<Rightarrow> if ln_stop s then s\<lparr>ln_phase := Returned, ln_up := False, ln_inbox := []\<rparr> else s\<lparr>ln_phase := Waiting\<rparr>
      | Waiting \<Rightarrow>
          if \<not> ok then give_up s
          else (case ln_inbox s of [] \<Rightarrow> s\<lparr>ln_phase := Inner\<rparr> | p # ps \<Rightarrow> s\<lparr>ln_inbox := ps, ln_phase := Calling\<rparr>)
      | Sleeping \<Rightarrow> s\<lparr>ln_backoff := min (ln_backoff s * 2) 30, ln_phase := Outer\<rparr>
      | Returned \<Rightarrow> s)"

datatype 'd signal = Commit 'd "row_change list" | Stop | Cut | Go bool

text \<open>A committed transaction's notifications reach the connections that listen then.\<close>

fun on_signal :: "('d, 'r, 'm) live_view \<Rightarrow> 'd signal \<Rightarrow> ('d, 'r, 'm) listener \<Rightarrow> ('d, 'r, 'm) listener" where
  "on_signal V (Commit d cs) s =
     (if lv_noticed V (ln_tables s) cs d
      then s\<lparr>ln_tables := d, ln_inbox := ln_inbox s @ (if ln_up s then map (lv_payload V) cs else [])\<rparr>
      else s)"
| "on_signal V Stop s = s\<lparr>ln_stop := True\<rparr>"
| "on_signal V Cut s = s\<lparr>ln_up := False\<rparr>"
| "on_signal V (Go ok) s = go_on V ok s"

text \<open>\<open>main\<close> loads the copy before the listener starts.\<close>

definition listen_start :: "('d, 'r, 'm) live_view \<Rightarrow> 'd \<Rightarrow> ('d, 'r, 'm) listener" where
  "listen_start V d = \<lparr>ln_tables = d, ln_live = load V d, ln_phase = Outer, ln_up = False, ln_inbox = [],
     ln_backoff = 1, ln_stop = False, ln_failed = False\<rparr>"

definition listen_run :: "('d, 'r, 'm) live_view \<Rightarrow> 'd \<Rightarrow> 'd signal list \<Rightarrow> ('d, 'r, 'm) listener" where
  "listen_run V d sigs = fold (on_signal V) sigs (listen_start V d)"

section \<open>The live copy follows the tables\<close>

text \<open>
  The interface between the triggers and the listener: a transaction that is not announced
  changes nothing a reload reads.
\<close>

locale announced_tables =
  fixes V :: "('d, 'r, 'm) live_view"
  assumes fetch_same: "lv_noticed V d [] d' \<Longrightarrow> lv_fetch V d' = lv_fetch V d"
    and compile_same: "lv_noticed V d [] d' \<Longrightarrow> lv_compile V rows d' = lv_compile V rows d"

text \<open>
  A connected listener with no notification left holds what a reload would give; a reload halfway
  holds the rows of now.
\<close>

definition current :: "('d, 'r, 'm) live_view \<Rightarrow> ('d, 'r, 'm) listener \<Rightarrow> bool" where
  "current V s =
     (ln_up s \<and> ln_inbox s = [] \<longrightarrow>
        (case ln_phase s of
           Inner \<Rightarrow> ln_failed s \<or> ln_live s = load V (ln_tables s)
         | Waiting \<Rightarrow> ln_failed s \<or> ln_live s = load V (ln_tables s)
         | Between rows \<Rightarrow> rows = lv_fetch V (ln_tables s)
         | _ \<Rightarrow> True))"

definition backoff_ok :: "('d, 'r, 'm) listener \<Rightarrow> bool" where
  "backoff_ok s = (1 \<le> ln_backoff s \<and> ln_backoff s \<le> 30)"

definition unconnected :: "('d, 'r, 'm) listener \<Rightarrow> bool" where
  "unconnected s = (ln_phase s \<in> {Outer, Connected, Sleeping, Returned} \<longrightarrow> \<not> ln_up s \<and> ln_inbox s = [])"

lemma go_on_backoff: "backoff_ok s \<Longrightarrow> backoff_ok (go_on V ok s)"
  by (auto simp: go_on_def give_up_def backoff_ok_def split: phase.split list.split)

lemma go_on_unconnected: "unconnected s \<Longrightarrow> unconnected (go_on V ok s)"
  by (auto simp: go_on_def give_up_def unconnected_def split: phase.split list.split)

lemma go_on_current: "current V s \<Longrightarrow> current V (go_on V ok s)"
  by (auto simp: go_on_def give_up_def current_def load_def split: phase.splits list.splits)

text \<open>How many steps of its own a listener needs, when nothing else happens, to be done with its inbox.\<close>

definition remaining :: "('d, 'r, 'm) listener \<Rightarrow> nat" where
  "remaining s = 4 * length (ln_inbox s) +
     (case ln_phase s of
        Outer \<Rightarrow> 4 | Connected \<Rightarrow> 3 | Calling \<Rightarrow> 2 | Between rows \<Rightarrow> 1 | Inner \<Rightarrow> 0
      | Waiting \<Rightarrow> if ln_inbox s = [] then 1 else 0 | Sleeping \<Rightarrow> 5 | Returned \<Rightarrow> 0)
     - (if ln_phase s = Waiting \<and> ln_inbox s \<noteq> [] then 1 else 0)"

text \<open>It will reload, or has the copy of now.\<close>

definition catching_up :: "('d, 'r, 'm) live_view \<Rightarrow> ('d, 'r, 'm) listener \<Rightarrow> bool" where
  "catching_up V s =
     (\<not> ln_stop s \<and> ln_phase s \<noteq> Returned \<and> unconnected s
      \<and> (ln_inbox s \<noteq> [] \<or>
         (case ln_phase s of
            Inner \<Rightarrow> ln_live s = load V (ln_tables s)
          | Waiting \<Rightarrow> ln_live s = load V (ln_tables s)
          | Between rows \<Rightarrow> rows = lv_fetch V (ln_tables s)
          | _ \<Rightarrow> True)))"

lemma catching_up_step:
  assumes "catching_up V s"
  shows "catching_up V (go_on V True s) \<and> ln_tables (go_on V True s) = ln_tables s
    \<and> (remaining s \<noteq> 0 \<longrightarrow> remaining (go_on V True s) = remaining s - 1)"
  using assms
  by (cases "ln_phase s"; cases "ln_inbox s")
    (auto simp: catching_up_def go_on_def remaining_def unconnected_def load_def)

lemma caught_up: "catching_up V s \<Longrightarrow> remaining s = 0 \<Longrightarrow> ln_inbox s = [] \<and> ln_phase s = Inner \<and> ln_live s = load V (ln_tables s)"
  by (cases "ln_phase s"; cases "ln_inbox s") (auto simp: catching_up_def remaining_def)

lemma catches_up:
  "catching_up V s \<Longrightarrow> ln_inbox ((go_on V True ^^ remaining s) s) = []
    \<and> ln_live ((go_on V True ^^ remaining s) s) = load V (ln_tables s)"
proof (induction "remaining s" arbitrary: s)
  case 0
  then show ?case using caught_up[of V s] by simp
next
  case (Suc n)
  note st = catching_up_step[OF Suc.prems]
  then have "n = remaining (go_on V True s)" using Suc.hyps(2) by auto
  then show ?case using Suc.hyps(1)[of "go_on V True s"] st
    by (simp flip: Suc.hyps(2) add: funpow_Suc_right del: funpow.simps)
qed

section \<open>The listener ends\<close>

definition steps_left :: "('d, 'r, 'm) listener \<Rightarrow> nat" where
  "steps_left s = (case ln_phase s of
     Outer \<Rightarrow> 1 | Connected \<Rightarrow> 4 | Calling \<Rightarrow> 3 | Between rows \<Rightarrow> 2 | Inner \<Rightarrow> 1 | Waiting \<Rightarrow> 4 | Sleeping \<Rightarrow> 2
   | Returned \<Rightarrow> 0)"

fun is_go :: "'d signal \<Rightarrow> bool" where
  "is_go (Go ok) = True"
| "is_go g = False"

lemma go_on_left: "ln_stop s \<Longrightarrow> steps_left (go_on V ok s) \<le> steps_left s - 1 \<and> ln_stop (go_on V ok s)"
  by (auto simp: steps_left_def go_on_def give_up_def split: phase.split list.split)

lemma signal_left:
  "ln_stop s \<Longrightarrow> steps_left (on_signal V g s) \<le> steps_left s - (if is_go g then 1 else 0) \<and> ln_stop (on_signal V g s)"
  using go_on_left[of s V] by (cases g) (auto, auto simp: steps_left_def)

lemma signals_left:
  "ln_stop s \<Longrightarrow> steps_left (fold (on_signal V) sigs s) \<le> steps_left s - length (filter is_go sigs)"
proof (induction sigs arbitrary: s)
  case (Cons g sigs)
  have "steps_left (fold (on_signal V) sigs (on_signal V g s)) \<le> steps_left (on_signal V g s) - length (filter is_go sigs)"
    using signal_left[OF Cons.prems] by (intro Cons.IH) blast
  then show ?case using signal_left[OF Cons.prems, of V g] by (cases "is_go g") (simp, arith, simp, arith)
qed simp

lemma stopped_returns:
  assumes "ln_stop s" "4 \<le> length (filter is_go sigs)"
  shows "ln_phase (fold (on_signal V) sigs s) = Returned"
proof -
  have "steps_left s \<le> 4" by (simp add: steps_left_def split: phase.split)
  then have "steps_left (fold (on_signal V) sigs s) = 0" using signals_left[OF assms(1), of V sigs] assms(2) by simp
  then show ?thesis by (simp add: steps_left_def split: phase.splits)
qed

section \<open>The laws of the triggers, and the runs\<close>

context announced_tables
begin

lemma commit_current: "current V s \<Longrightarrow> current V (on_signal V (Commit d cs) s)"
  by (cases cs)
    (auto simp: current_def load_def fetch_same compile_same split: phase.splits)

lemma signal_current:
  assumes "current V s" shows "current V (on_signal V g s)"
proof (cases g)
  case (Commit d cs)
  then show ?thesis using commit_current[OF assms] by simp
next
  case (Go ok)
  then show ?thesis using go_on_current[OF assms] by simp
qed (use assms in \<open>auto simp: current_def split: phase.splits\<close>)

lemma signal_kept:
  assumes "current V s \<and> backoff_ok s \<and> unconnected s"
  shows "current V (on_signal V g s) \<and> backoff_ok (on_signal V g s) \<and> unconnected (on_signal V g s)"
proof (cases g)
  case (Go ok)
  then show ?thesis using assms by (simp add: go_on_current go_on_backoff go_on_unconnected)
next
  case (Commit d cs)
  then show ?thesis using assms commit_current[of s d cs] by (auto simp: backoff_ok_def unconnected_def)
qed (use assms signal_current[of s g] in \<open>auto simp: backoff_ok_def unconnected_def\<close>)

lemma start_kept: "current V (listen_start V d) \<and> backoff_ok (listen_start V d) \<and> unconnected (listen_start V d)"
  by (simp add: listen_start_def current_def backoff_ok_def unconnected_def)

lemma run_kept: "current V (listen_run V d sigs) \<and> backoff_ok (listen_run V d sigs) \<and> unconnected (listen_run V d sigs)"
  unfolding listen_run_def
  by (induction sigs rule: rev_induct) (simp_all add: start_kept signal_kept del: on_signal.simps)

lemma follows:
  "(ln_up s \<and> ln_phase s = Waiting \<and> ln_inbox s = [] \<and> \<not> ln_failed s \<longrightarrow> ln_live s = load V (ln_tables s))
   \<and> 1 \<le> ln_backoff s \<and> ln_backoff s \<le> 30
   \<and> (\<not> ln_stop s \<and> (ln_up s \<and> \<not> ln_failed s \<or> ln_phase s \<in> {Outer, Connected, Sleeping}) \<longrightarrow>
        ln_inbox ((go_on V True ^^ remaining s) s) = []
        \<and> ln_live ((go_on V True ^^ remaining s) s) = load V (ln_tables s))
   \<and> (ln_stop s \<and> 4 \<le> length (filter is_go later) \<longrightarrow> ln_phase (fold (on_signal V) later s) = Returned)"
  if s: "s = listen_run V d sigs"
proof -
  have k: "current V s" "backoff_ok s" "unconnected s" using run_kept[of d sigs] by (simp_all add: s)
  have "catching_up V s" if "\<not> ln_stop s" "ln_up s \<and> \<not> ln_failed s \<or> ln_phase s \<in> {Outer, Connected, Sleeping}"
    using that k(1,3) by (cases "ln_phase s") (auto simp: catching_up_def current_def unconnected_def)
  then show ?thesis using k stopped_returns[of s later V] catches_up[of V s]
    by (auto simp: current_def backoff_ok_def)
qed

end

lemma map_filter_cong_on: "(\<And>x. x \<in> set xs \<Longrightarrow> f x = g x) \<Longrightarrow> List.map_filter f xs = List.map_filter g xs"
  by (induction xs) (auto simp: List.map_filter_simps split: option.split)

lemma rules_unnoticed:
  assumes "rules_noticed d [] d'"
  shows "regex_rows d' = regex_rows d" "live_rule_of R d' r = live_rule_of R d r"
proof -
  have same: "alert_rules d' = alert_rules d" "targets d' = targets d" "rule_targets d' = rule_targets d"
    using assms by (simp_all add: rules_noticed_def)
  then have "targets_of d' = targets_of d" by (simp add: targets_of_def fun_eq_iff)
  then show "regex_rows d' = regex_rows d" "live_rule_of R d' r = live_rule_of R d r"
    by (auto simp: regex_rows_def live_rule_of_def same split: sum.split)
qed

interpretation live_rules: announced_tables "rules_view R"
  by unfold_locales (simp_all add: rules_view_def rules_unnoticed cong: map_filter_cong_on)

interpretation live_filters: announced_tables "filters_view R"
  by unfold_locales (simp_all add: filters_view_def filters_noticed_def)

lemma load_rules [simp]: "load (rules_view R) d = reload_rules R d"
  by (simp add: load_def rules_view_def reload_rules_def)

lemma load_filters [simp]: "load (filters_view R) t = reload_filters R t"
  by (simp add: load_def filters_view_def reload_filters_def)

text \<open>
  C15. The live rules follow the tables. Whatever transactions commit, connections die, queries fail
  and in whatever order, between any two steps of the listener or between the two queries of a
  reload: a listener that is connected and waits, with no notification left and no failed reload,
  holds the rules a reload would give. One that is connected without a failed reload, or has lost its
  connection and noticed, gets there by itself, in \<open>remaining\<close> steps, whatever it has missed. It sleeps
  between 1 and 30 seconds before it reconnects, and when the stop event is set it returns within four
  of its steps, whether they succeed or fail.
\<close>

theorem live_rules_follow_the_tables:
  assumes "s = listen_run (rules_view R) d sigs"
  shows "(ln_up s \<and> ln_phase s = Waiting \<and> ln_inbox s = [] \<and> \<not> ln_failed s \<longrightarrow> ln_live s = reload_rules R (ln_tables s))
   \<and> 1 \<le> ln_backoff s \<and> ln_backoff s \<le> 30
   \<and> (\<not> ln_stop s \<and> (ln_up s \<and> \<not> ln_failed s \<or> ln_phase s \<in> {Outer, Connected, Sleeping}) \<longrightarrow>
        ln_inbox ((go_on (rules_view R) True ^^ remaining s) s) = []
        \<and> ln_live ((go_on (rules_view R) True ^^ remaining s) s) = reload_rules R (ln_tables s))
   \<and> (ln_stop s \<and> 4 \<le> length (filter is_go later) \<longrightarrow> ln_phase (fold (on_signal (rules_view R)) later s) = Returned)"
  using live_rules.follows[OF assms] by simp

text \<open>
  A run: connected and primed; a rule is disabled, which is announced, and again while the listener
  is between the two queries of the reload; the copy it then has is of rows that no longer hold, and
  the second notification repairs it.
\<close>

definition demo_off :: db where
  "demo_off = demo_regex_db\<lparr>alert_rules := []\<rparr>"

definition demo_change :: row_change where
  "demo_change = \<lparr>rc_table = ''alert_rules'', rc_op = ''DELETE'', rc_id = ''1''\<rparr>"

definition demo_signals :: "db signal list" where
  "demo_signals = [Go True, Go True, Go True, Commit demo_off [demo_change], Go True, Go True, Go True]"

theorem live_rules_follow_the_tables_witness:
  "ln_live (listen_run (rules_view demo_engine) demo_regex_db (take 6 demo_signals)) \<noteq> []
   \<and> ln_live ((go_on (rules_view demo_engine) True ^^ 2) (listen_run (rules_view demo_engine) demo_regex_db demo_signals)) = []"
proof
  show "ln_live (listen_run (rules_view demo_engine) demo_regex_db (take 6 demo_signals)) \<noteq> []" by code_simp
  let ?s = "listen_run (rules_view demo_engine) demo_regex_db demo_signals"
  have "\<not> ln_stop ?s \<and> ln_up ?s \<and> \<not> ln_failed ?s" by code_simp
  moreover have "remaining ?s = 2" by code_simp
  moreover have "reload_rules demo_engine (ln_tables ?s) = []" by code_simp
  ultimately show "ln_live ((go_on (rules_view demo_engine) True ^^ 2) ?s) = []"
    using live_rules_follow_the_tables[of ?s demo_engine demo_regex_db demo_signals "[]"] by simp
qed

text \<open>The filters follow their table in the same way.\<close>

lemma live_filters_follow_the_table:
  assumes "s = listen_run (filters_view R) t sigs"
  shows "(ln_up s \<and> ln_phase s = Waiting \<and> ln_inbox s = [] \<and> \<not> ln_failed s \<longrightarrow> ln_live s = reload_filters R (ln_tables s))
   \<and> 1 \<le> ln_backoff s \<and> ln_backoff s \<le> 30
   \<and> (\<not> ln_stop s \<and> (ln_up s \<and> \<not> ln_failed s \<or> ln_phase s \<in> {Outer, Connected, Sleeping}) \<longrightarrow>
        ln_inbox ((go_on (filters_view R) True ^^ remaining s) s) = []
        \<and> ln_live ((go_on (filters_view R) True ^^ remaining s) s) = reload_filters R (ln_tables s))
   \<and> (ln_stop s \<and> 4 \<le> length (filter is_go later) \<longrightarrow> ln_phase (fold (on_signal (filters_view R)) later s) = Returned)"
  using live_filters.follows[OF assms] by simp

section \<open>A failed reload is not repeated\<close>

text \<open>
  The callback of \<open>main\<close> catches every exception, so \<open>listen\<close> neither reconnects nor tries again: until
  the next notification the copy stays as it is, however many turns the listener makes.
\<close>

lemma failed_reload_stays:
  assumes "ln_phase s \<in> {Inner, Waiting}" "ln_inbox s = []" "\<not> ln_stop s"
  shows "ln_live ((go_on V True ^^ n) s) = ln_live s \<and> ln_phase ((go_on V True ^^ n) s) \<in> {Inner, Waiting}
    \<and> ln_inbox ((go_on V True ^^ n) s) = [] \<and> \<not> ln_stop ((go_on V True ^^ n) s)"
  using assms by (induction n) (auto simp: go_on_def)

end
