(* ===== verification/Retention.thy ===== *)
theory Retention
  imports Collector_Props Judge Webui
begin

text \<open>
  \<open>collector.maintenance\<close> and the function \<open>ringdown_retention\<close> of \<open>schema.sql\<close> it calls: the partitions of
  \<open>events\<close> that have ended are dropped, silent sources are hidden, old evaluations and dead sessions are
  deleted. Sessions of the database are in UTC; \<open>week_elsewhere\<close> shows what another zone does to the
  partitions.
\<close>

section \<open>One retention\<close>

definition one_day :: time where
  "one_day = 86400 * 1000000"

record plane =
  pl_store :: store
  pl_evals :: "eval_row list"
  pl_sessions :: "session_row list"

text \<open>The upper bound of the partition of a week, its first day being \<open>w\<close>.\<close>

definition week_end :: "int \<Rightarrow> time" where
  "week_end w = (w + 7) * one_day"

definition cutoff :: "int \<Rightarrow> time \<Rightarrow> time" where
  "cutoff keep t = t - keep * one_day"

definition week_of :: "event \<Rightarrow> int" where
  "week_of ev = monday (the (event_time ev))"

definition drop_weeks :: "time \<Rightarrow> store \<Rightarrow> store" where
  "drop_weeks c s =
     (let gone = Set.filter (\<lambda>w. week_end w \<le> c) (so_weeks s)
      in s\<lparr>so_weeks := so_weeks s - gone, so_log := filter (\<lambda>e. week_of (se_event e) \<notin> gone) (so_log s)\<rparr>)"

definition hide_sources :: "time \<Rightarrow> store \<Rightarrow> store" where
  "hide_sources c s =
     s\<lparr>so_table := update_where (\<lambda>r. so_active r \<and> so_last_seen r < c) (\<lambda>r. r\<lparr>so_active := False\<rparr>) (so_table s)\<rparr>"

definition retention :: "int \<Rightarrow> time \<Rightarrow> plane \<Rightarrow> plane" where
  "retention keep t p =
     p\<lparr>pl_store := hide_sources (cutoff keep t) (drop_weeks (cutoff keep t) (pl_store p)),
       pl_evals := filter (\<lambda>r. \<not> el_at r < cutoff keep t) (pl_evals p),
       pl_sessions := filter (\<lambda>r. \<not> (ss_revoked r \<or> ss_absolute_exp r < t)) (pl_sessions p)\<rparr>"

text \<open>
  One turn of \<open>maintenance\<close>: nothing when \<open>RETENTION_DAYS\<close> is not positive; a call that raises has
  changed nothing, and the next turn tries again.
\<close>

definition maintenance_tick :: "int \<Rightarrow> time \<Rightarrow> bool \<Rightarrow> plane \<Rightarrow> plane" where
  "maintenance_tick keep t ok p = (if keep \<le> 0 \<or> \<not> ok then p else retention keep t p)"

section \<open>Flushes and ticks\<close>

datatype plane_op = Flush_Op time "exn option" "event list" counter | Tick_Op time bool

fun plane_step :: "(event \<Rightarrow> string \<times> string) \<Rightarrow> int \<Rightarrow> plane_op \<Rightarrow> plane \<Rightarrow> plane" where
  "plane_step mine keep (Flush_Op t fault batch dropped) p =
     (case flush mine t fault batch dropped (pl_store p) of Inl e \<Rightarrow> p | Inr d \<Rightarrow> p\<lparr>pl_store := d\<rparr>)"
| "plane_step mine keep (Tick_Op t ok) p = maintenance_tick keep t ok p"

definition plane_run :: "(event \<Rightarrow> string \<times> string) \<Rightarrow> int \<Rightarrow> plane_op list \<Rightarrow> plane \<Rightarrow> plane" where
  "plane_run mine keep ops p = fold (plane_step mine keep) ops p"

text \<open>
  The specification: a log is a list of events; a flush that succeeds appends its batch, a tick
  keeps the events whose week has not ended by the cutoff.
\<close>

fun window_step :: "(event \<Rightarrow> string \<times> string) \<Rightarrow> int \<Rightarrow> plane_op \<Rightarrow> event list \<Rightarrow> event list" where
  "window_step mine keep (Flush_Op t fault batch dropped) log =
     (if fault = None \<and> list_all (\<lambda>ev. event_time ev \<noteq> None \<and> row_ok ev \<and> text_ok (snd (mine ev))) batch
         \<and> list_all (\<lambda>((fid, src), n). text_ok src) dropped
      then log @ batch else log)"
| "window_step mine keep (Tick_Op t ok) log =
     (if keep \<le> 0 \<or> \<not> ok then log else filter (\<lambda>ev. cutoff keep t < week_end (week_of ev)) log)"

section \<open>The week of an event\<close>

lemma monday_bounds: "monday t * one_day \<le> t \<and> t < week_end (monday t)"
proof -
  define d where "d = t div one_day"
  have "d * one_day \<le> t" "t < (d + 1) * one_day" unfolding d_def one_day_def by presburger+
  moreover have "d - 6 \<le> monday t" "monday t \<le> d"
    unfolding monday_def weekday_def day_of_def d_def one_day_def by presburger+
  moreover have "0 < one_day" by (simp add: one_day_def)
  ultimately have "monday t * one_day \<le> d * one_day" "(d + 1) * one_day \<le> (monday t + 7) * one_day"
    by (intro mult_right_mono; linarith)+
  then show ?thesis using \<open>d * one_day \<le> t\<close> \<open>t < (d + 1) * one_day\<close> by (simp add: week_end_def)
qed

text \<open>Every stored event has its partition.\<close>

definition partitioned :: "store \<Rightarrow> bool" where
  "partitioned s = (\<forall>e \<in> set (so_log s). event_time (se_event e) \<noteq> None \<and> week_of (se_event e) \<in> so_weeks s)"

lemma partitioned_cong: "so_log s' = so_log s \<Longrightarrow> so_weeks s' = so_weeks s \<Longrightarrow> partitioned s' = partitioned s"
  by (simp add: partitioned_def)

lemma ensured_weeks: "so_weeks (fold ensure_week ds s) = so_weeks s \<union> set ds"
  by (induction ds arbitrary: s) (auto simp: ensure_week_def)

lemma other_statements_keep_weeks:
  "so_weeks (fold (\<lambda>(fp, n). upsert_template t fp (f fp) n) xs s) = so_weeks s"
  "so_weeks (fold (insert_event mine) evs s) = so_weeks s"
  "so_weeks (fold (\<lambda>(src, n). upsert_source t src n) ys s) = so_weeks s"
  "so_weeks (fold (upsert_stat t) ds s) = so_weeks s"
  by (rule fold_keeps[where m = so_weeks], simp add: upsert_template_def insert_event_def upsert_source_def upsert_stat_def split: prod.split)+

lemma flush_weeks:
  assumes "flush mine t fault batch dropped s = Inr d"
  shows "so_weeks d = so_weeks s \<union> week_of ` set batch \<and> (\<forall>ev \<in> set batch. event_time ev \<noteq> None)"
  using assms
  by (auto simp: flush_def Let_def other_statements_keep_weeks ensured_weeks week_of_def list_ex_iff
      split: if_splits option.splits)

lemma partitioned_stored:
  "partitioned s = (\<forall>ev \<in> set (stored s). event_time ev \<noteq> None \<and> week_of ev \<in> so_weeks s)"
  by (auto simp: partitioned_def stored_def)

lemma flush_partitioned:
  assumes "store_ok mine s" "partitioned s" "flush mine t fault batch dropped s = Inr d"
  shows "partitioned d"
  using flush_weeks[OF assms(3)] flush_stores[OF assms(1,3)] assms(2) by (auto simp: partitioned_stored)

section \<open>What a tick keeps\<close>

lemma hide_sources_keeps:
  "so_log (hide_sources c s) = so_log s" "so_weeks (hide_sources c s) = so_weeks s"
  "so_templates (hide_sources c s) = so_templates s" "so_next_event (hide_sources c s) = so_next_event s"
  "so_next_template (hide_sources c s) = so_next_template s"
  by (simp_all add: hide_sources_def)

lemma hide_sources_rows:
  "map so_source (so_table (hide_sources c s)) = map so_source (so_table s)"
  "map so_events (so_table (hide_sources c s)) = map so_events (so_table s)"
  by (simp_all add: hide_sources_def map_update_where_id)

lemma drop_weeks_log:
  assumes "partitioned s"
  shows "so_log (drop_weeks c s) = filter (\<lambda>e. c < week_end (week_of (se_event e))) (so_log s)"
  using assms unfolding drop_weeks_def Let_def partitioned_def
  by (auto intro!: filter_cong)

lemma drop_weeks_keeps:
  "so_templates (drop_weeks c s) = so_templates s" "so_next_event (drop_weeks c s) = so_next_event s"
  "so_next_template (drop_weeks c s) = so_next_template s" "so_table (drop_weeks c s) = so_table s"
  by (simp_all add: drop_weeks_def Let_def)

lemma distinct_map_filter: "distinct (map f xs) \<Longrightarrow> distinct (map f (filter p xs))"
  by (induction xs) auto

lemma retention_store_ok:
  assumes "store_ok mine s"
  shows "store_ok mine (hide_sources c (drop_weeks c s))"
  using assms unfolding store_ok_def template_keys_def hide_sources_keeps hide_sources_rows drop_weeks_keeps
  by (simp add: drop_weeks_def Let_def distinct_map_filter)

lemma retention_partitioned:
  assumes "partitioned s"
  shows "partitioned (hide_sources c (drop_weeks c s))"
  using assms by (auto simp: partitioned_def hide_sources_def drop_weeks_def Let_def)

lemma retention_stored:
  assumes "partitioned s"
  shows "stored (hide_sources c (drop_weeks c s)) = filter (\<lambda>ev. c < week_end (week_of ev)) (stored s)"
  by (simp add: stored_def hide_sources_keeps drop_weeks_log[OF assms] filter_map comp_def)

definition plane_ok :: "(event \<Rightarrow> string \<times> string) \<Rightarrow> plane \<Rightarrow> bool" where
  "plane_ok mine p = (store_ok mine (pl_store p) \<and> partitioned (pl_store p))"

lemma plane_step_ok:
  assumes "plane_ok mine p"
  shows "plane_ok mine (plane_step mine keep x p)
    \<and> stored (pl_store (plane_step mine keep x p)) = window_step mine keep x (stored (pl_store p))"
proof (cases x)
  case (Tick_Op t ok)
  then show ?thesis using assms
    by (simp add: maintenance_tick_def plane_ok_def retention_def retention_store_ok retention_partitioned retention_stored)
next
  case (Flush_Op t fault batch dropped)
  show ?thesis
  proof (cases "flush mine t fault batch dropped (pl_store p)")
    case (Inl e)
    then have "\<not> (\<exists>d. flush mine t fault batch dropped (pl_store p) = Inr d)" by simp
    then show ?thesis using assms Flush_Op Inl unfolding flush_accepts by auto
  next
    case (Inr d)
    then have a: "batch = [] \<and> dropped = [] \<or> (fault = None
       \<and> list_all (\<lambda>ev. event_time ev \<noteq> None \<and> row_ok ev \<and> text_ok (snd (mine ev))) batch
       \<and> list_all (\<lambda>((fid, src), n). text_ok src) dropped)"
      using iffD1[OF flush_accepts, of mine t fault batch dropped "pl_store p"] by blast
    have k: "plane_ok mine (p\<lparr>pl_store := d\<rparr>)" "stored d = stored (pl_store p) @ batch"
      using flush_stores[OF _ Inr] flush_partitioned[OF _ _ Inr] assms by (auto simp: plane_ok_def)
    have "window_step mine keep x (stored (pl_store p)) = stored (pl_store p) @ batch"
      using a unfolding Flush_Op by (cases "batch = []") auto
    then show ?thesis using k by (simp add: Flush_Op Inr del: window_step.simps)
  qed
qed

lemma plane_run_ok:
  assumes "plane_ok mine p"
  shows "plane_ok mine (plane_run mine keep ops p)
    \<and> stored (pl_store (plane_run mine keep ops p)) = fold (window_step mine keep) ops (stored (pl_store p))"
  unfolding plane_run_def using assms
proof (induction ops arbitrary: p)
  case (Cons x ops)
  then show ?case using plane_step_ok[OF Cons.prems, of keep x] Cons.IH[of "plane_step mine keep x p"]
    by (simp del: plane_step.simps window_step.simps)
qed simp

section \<open>The rolling window\<close>

text \<open>
  C24. The log is a rolling window. Whatever flushes succeed or fail and whatever ticks of the
  retention run between them, the stored events are those the specification names: the batches of
  the flushes that succeeded, in order, less the events whose week had ended by the cutoff of a tick; every
  stored event keeps its template and its partition, so that flushes go on working. A tick loses no event
  younger than \<open>RETENTION_DAYS\<close> and leaves none seven days older than that; it keeps the evaluations
  of the window and every session that could still be accepted; of sources it changes nothing but the
  \<open>active\<close> flag, and only of those not seen in the window.
\<close>

theorem log_is_a_rolling_window:
  assumes "plane_ok mine p0" "p = plane_run mine keep ops p0" "p' = retention keep t p"
  shows "stored (pl_store p) = fold (window_step mine keep) ops (stored (pl_store p0)) \<and> plane_ok mine p
   \<and> (\<forall>ev i. ev \<in> set (stored (pl_store p)) \<and> event_time ev = Some i \<longrightarrow>
        (t - keep * one_day \<le> i \<longrightarrow> ev \<in> set (stored (pl_store p')))
        \<and> (ev \<in> set (stored (pl_store p')) \<longrightarrow> t - (keep + 7) * one_day < i))
   \<and> (\<forall>r \<in> set (pl_evals p). t - keep * one_day \<le> el_at r \<longrightarrow> r \<in> set (pl_evals p'))
   \<and> (\<forall>r \<in> set (pl_sessions p). \<not> ss_revoked r \<and> t < ss_absolute_exp r \<longrightarrow> r \<in> set (pl_sessions p'))
   \<and> list_all2 (\<lambda>r r'. r' = r \<or> so_last_seen r < t - keep * one_day \<and> r' = r\<lparr>so_active := False\<rparr>)
       (so_table (pl_store p)) (so_table (pl_store p'))"
proof -
  have ok: "plane_ok mine p" and spec: "stored (pl_store p) = fold (window_step mine keep) ops (stored (pl_store p0))"
    using plane_run_ok[OF assms(1), of keep ops] by (simp_all add: assms(2))
  have log: "stored (pl_store p') = filter (\<lambda>ev. cutoff keep t < week_end (week_of ev)) (stored (pl_store p))"
    using ok by (simp add: assms(3) retention_def retention_stored plane_ok_def)
  have window: "(t - keep * one_day \<le> i \<longrightarrow> ev \<in> set (stored (pl_store p')))
        \<and> (ev \<in> set (stored (pl_store p')) \<longrightarrow> t - (keep + 7) * one_day < i)"
    if "ev \<in> set (stored (pl_store p))" "event_time ev = Some i" for ev i
    using that monday_bounds[of i] by (auto simp: log cutoff_def week_of_def week_end_def algebra_simps)
  have sources: "list_all2 (\<lambda>r r'. r' = r \<or> so_last_seen r < t - keep * one_day \<and> r' = r\<lparr>so_active := False\<rparr>)
       (so_table (pl_store p)) (so_table (pl_store p'))"
    by (simp add: assms(3) retention_def hide_sources_def drop_weeks_keeps update_where_def cutoff_def list_all2_map2 list.rel_refl)
  have "\<forall>r \<in> set (pl_evals p). t - keep * one_day \<le> el_at r \<longrightarrow> r \<in> set (pl_evals p')"
    "\<forall>r \<in> set (pl_sessions p). \<not> ss_revoked r \<and> t < ss_absolute_exp r \<longrightarrow> r \<in> set (pl_sessions p')"
    by (auto simp: assms(3) retention_def cutoff_def)
  then show ?thesis using spec ok window sources by blast
qed

definition demo_day :: "int \<Rightarrow> event" where
  "demo_day n = demo_line\<lparr>ev_ts := Ts_Time (n * one_day)\<rparr>"

definition demo_plane :: plane where
  "demo_plane = \<lparr>pl_store = no_rows, pl_evals = [], pl_sessions = []\<rparr>"

definition demo_ops :: "plane_op list" where
  "demo_ops = [Flush_Op 0 None [demo_day 0, demo_day 20] [], Flush_Op 0 (Some (Exn ''OperationalError'' [])) [demo_day 5] [],
     Tick_Op (40 * one_day) True]"

theorem log_is_a_rolling_window_witness:
  "stored (pl_store (plane_run (\<lambda>ev. (''f'', ''t'')) 30 demo_ops demo_plane)) = [demo_day 20]
   \<and> demo_day 20 \<in> set (stored (pl_store (retention 30 (50 * one_day) (plane_run (\<lambda>ev. (''f'', ''t'')) 30 demo_ops demo_plane))))"
proof -
  let ?p = "plane_run (\<lambda>ev. (''f'', ''t'')) 30 demo_ops demo_plane"
  have ok: "plane_ok (\<lambda>ev. (''f'', ''t'')) demo_plane"
    by (simp add: plane_ok_def demo_plane_def store_ok_def no_rows_def partitioned_def)
  have s: "fold (window_step (\<lambda>ev. (''f'', ''t'')) 30) demo_ops (stored (pl_store demo_plane)) = [demo_day 20]" by code_simp
  have e: "event_time (demo_day 20) = Some (20 * one_day)" by code_simp
  note T = log_is_a_rolling_window[OF ok refl refl, of 30 demo_ops "50 * one_day"]
  have "stored (pl_store ?p) = [demo_day 20]" using T s by simp
  moreover have "demo_day 20 \<in> set (stored (pl_store (retention 30 (50 * one_day) ?p)))"
    using T e calculation by simp
  ultimately show ?thesis by simp
qed

section \<open>Weeks of another zone\<close>

text \<open>
  \<open>ringdown_ensure_week\<close> takes the week of its argument in the time zone of the session, \<open>flush\<close> passes
  midnight UTC of a Monday. West of Greenwich that is a Sunday evening: the partition ends within the
  Monday, and no event later in the week fits it.
\<close>

definition sql_week :: "time \<Rightarrow> time \<Rightarrow> time \<times> time" where
  "sql_week offset at =
     (let start = monday (at + offset) * one_day - offset in (start, start + 7 * one_day))"

lemma week_in_utc: "sql_week 0 (monday t * one_day) = (monday t * one_day, week_end (monday t))"
proof -
  have "monday (monday t * one_day) = monday t"
  proof -
    have "day_of (monday t * one_day) = monday t" by (simp add: day_of_def one_day_def)
    moreover have "(monday t + 3) mod 7 = 0" unfolding monday_def weekday_def by presburger
    ultimately show ?thesis by (simp add: monday_def[of "monday t * one_day"] weekday_def[of "monday t * one_day"])
  qed
  then show ?thesis by (simp add: sql_week_def week_end_def Let_def distrib_right)
qed

lemma week_elsewhere:
  assumes "- one_day < offset" "offset < 0" "monday t * one_day - offset \<le> t"
  shows "snd (sql_week offset (monday t * one_day)) \<le> t"
proof -
  have "monday t * one_day + offset = one_day * (monday t - 1) + (one_day + offset)" by (simp add: algebra_simps)
  then have "(monday t * one_day + offset) div one_day = monday t - 1"
    by (rule int_div_pos_eq) (use assms(1,2) in simp_all)
  then have d: "day_of (monday t * one_day + offset) = monday t - 1" by (simp add: day_of_def one_day_def)
  have "monday (monday t * one_day + offset) = monday t - 1 - (monday t + 2) mod 7"
    unfolding monday_def[of "monday t * one_day + offset"] weekday_def[of "monday t * one_day + offset"] d by (simp add: add.commute)
  also have "(monday t + 2) mod 7 = 6" unfolding monday_def weekday_def by presburger
  finally have "monday (monday t * one_day + offset) = monday t - 7" by simp
  then show ?thesis using assms(3) by (simp only: sql_week_def Let_def snd_conv) (simp add: left_diff_distrib)
qed

end
