(* ===== verification/Pipeline.thy ===== *)
theory Pipeline
  imports Listen Judge_Props Collector_Props
begin

text \<open>
  The collector's hot path as one machine: what the listeners queue is filtered, stored, matched
  and handed to the coordinator (\<open>collector.flusher\<close> with \<open>router.consider\<close> and \<open>incidents.handle\<close>).
\<close>

section \<open>One round\<close>

text \<open>
  A round of the flusher; when it has stored a batch, the firings of the batch under the rules live
  then run to their ends.
\<close>

definition pipeline_round ::
    "collector_env \<Rightarrow> 'w env \<Rightarrow> coord_config \<Rightarrow> (nat \<Rightarrow> live_rule list) \<Rightarrow> nat
     \<Rightarrow> collector \<times> 'w qstate \<Rightarrow> collector \<times> 'w qstate" where
  "pipeline_round C E K rules n = (\<lambda>(s, q).
     let s' = flusher_step C n s; new = drop (length (co_notes s)) (co_notes s')
     in (s', fold (\<lambda>note. run_tasks E K (routed (ce_engine C) (rules n) note)) new q))"

definition pipeline ::
    "collector_env \<Rightarrow> 'w env \<Rightarrow> coord_config \<Rightarrow> (nat \<Rightarrow> live_rule list) \<Rightarrow> nat
     \<Rightarrow> collector \<times> 'w qstate \<Rightarrow> collector \<times> 'w qstate" where
  "pipeline C E K rules N s = fold (pipeline_round C E K rules) [0..<N] s"

section \<open>What a firing leaves alone\<close>

text \<open>The rules that exist and the targets: the references of the history.\<close>

definition same_refs :: "'w qstate \<Rightarrow> 'w qstate \<Rightarrow> bool" where
  "same_refs s s' = (map r_id (alert_rules (q_db s')) = map r_id (alert_rules (q_db s))
     \<and> targets (q_db s') = targets (q_db s))"

lemma same_refs_refl [simp]: "same_refs s s"
  by (simp add: same_refs_def)

lemma same_refs_trans: "same_refs s u \<Longrightarrow> same_refs u v \<Longrightarrow> same_refs s v"
  by (simp add: same_refs_def)

lemma same_refs_and_then:
  assumes "same_refs s (snd m)" "\<And>x u. same_refs u (snd (f x u))"
  shows "same_refs s (snd (and_then m f))"
proof (cases m)
  case (Pair r u)
  then show ?thesis using assms same_refs_trans[of s u] by (cases r) auto
qed

lemma same_refs_quietly: "same_refs s (snd (quietly f s))"
  by (simp add: quietly_def same_refs_def split: prod.split)

lemma same_refs_fallback: "same_refs s u \<Longrightarrow> same_refs s (fallback E C ctx reason u)"
  by (simp add: same_refs_def)

lemma same_refs_log: "same_refs s u \<Longrightarrow> same_refs s (snd (log_firing E ctx tid key h x detail u))"
  by (simp add: same_refs_def log_firing_def try_db_def record_firing_def recorded_def add_audit_def)

lemma same_refs_upsert: "same_refs s (snd (try_db (upsert_incident t key ctx tid h) s))"
  by (auto simp: same_refs_def try_db_def upsert_incident_def Let_def)

lemma same_refs_bump: "same_refs s (on_db (bump_incident t key fed) s)"
  by (simp add: same_refs_def on_db_def bump_incident_def)

lemma same_refs_mark: "same_refs s (on_db (mark_fired t rid) s)"
  by (simp add: same_refs_def on_db_def mark_fired_def map_update_where_id)

lemmas same_refs_steps = same_refs_refl same_refs_quietly same_refs_fallback same_refs_log same_refs_upsert same_refs_bump same_refs_mark

lemma same_refs_open: "same_refs s (snd (open_incident E C ctx target disp key s))"
  unfolding open_incident_def
  by (rule same_refs_and_then) (auto intro!: same_refs_and_then same_refs_steps)

lemma same_refs_feed: "same_refs s (snd (feed_stateless E C ctx target disp inc key s))"
  unfolding feed_stateless_def Let_def
  by (auto intro!: same_refs_and_then same_refs_steps)

lemma same_refs_dispatch: "same_refs s (snd (dispatch_locked E C ctx target key s))"
  by (auto simp: dispatch_locked_def split: option.split
      intro!: same_refs_and_then same_refs_steps same_refs_open same_refs_feed)

lemma same_refs_insert: "insert_firing t ctx target key cur d = Inr d' \<Longrightarrow>
    map r_id (alert_rules d') = map r_id (alert_rules d) \<and> targets d' = targets d"
  by (erule insert_firingE) simp

lemma same_refs_enqueue: "same_refs s (snd (enqueue E ctx target src s))"
proof (cases "e_registry E (ti_type target)")
  case None
  then show ?thesis by (simp add: enqueue_def)
next
  case (Some disp)
  obtain r u where q: "quietly (d_prepare disp ctx target) s = (r, u)" by fastforce
  have u: "same_refs s u" using same_refs_quietly[of s "d_prepare disp ctx target"] q by simp
  then show ?thesis
    by (auto simp: enqueue_def Some q Let_def split: sum.split dest!: same_refs_insert) (simp add: same_refs_def)
qed

lemma handle_firing_refs: "same_refs s (snd (handle_firing E C ctx target src s))"
proof -
  define m where "m = (case e_registry E (ti_type target) of
              Some disp \<Rightarrow> if d_stateful disp then enqueue E ctx target src s
                          else dispatch_locked E C ctx target (incident_key ctx target src) s
            | None \<Rightarrow> dispatch_locked E C ctx target (incident_key ctx target src) s)"
  have m: "same_refs s (snd m)"
    by (simp add: m_def same_refs_enqueue same_refs_dispatch split: option.split)
  show ?thesis
  proof (cases m)
    case (Pair r u)
    then show ?thesis using m unfolding handle_firing_def Let_def m_def[symmetric]
      by (auto split: sum.split intro!: same_refs_and_then same_refs_steps)
  qed
qed

lemma refs_exist_ids:
  "refs_exist d a b =
     ((case a of None \<Rightarrow> True | Some r \<Rightarrow> r \<in> set (map r_id (alert_rules d)))
      \<and> (case b of None \<Rightarrow> True | Some t \<Rightarrow> t \<in> set (map t_id (targets d))))"
proof -
  have f: "(find_row (\<lambda>x. key x = n) xs \<noteq> None) = (n \<in> set (map key xs))" for key :: "'c \<Rightarrow> id" and n xs
    by (auto simp: find_row_None_iff image_iff)
  show ?thesis unfolding refs_exist_def find_rule_def find_target_def f ..
qed

lemma refs_exist_kept: "same_refs s s' \<Longrightarrow> refs_exist (q_db s') a b = refs_exist (q_db s) a b"
  unfolding same_refs_def by (elim conjE) (simp only: refs_exist_ids cong: option.case_cong)

section \<open>The firings of a batch are recorded\<close>

text \<open>What the history says of a firing: which rule, which target, which source.\<close>

definition fired :: "fire_context \<times> bound_target \<Rightarrow> id option \<times> id option \<times> string option" where
  "fired = (\<lambda>(ctx, t). (ri_id (fc_rule ctx), Some (bt_id t), ev_source (fc_event ctx)))"

definition history :: "db \<Rightarrow> (id option \<times> id option \<times> string option) list" where
  "history d = map (\<lambda>e. (ae_rule_id e, ae_target_id e, ae_source e)) (alert_events d)"

definition task_refs :: "db \<Rightarrow> fire_context \<times> bound_target \<Rightarrow> bool" where
  "task_refs d = (\<lambda>(ctx, t). refs_exist d (ri_id (fc_rule ctx)) (Some (bt_id t)))"

definition rule_refs :: "db \<Rightarrow> live_rule \<Rightarrow> bool" where
  "rule_refs d r = (\<forall>t \<in> set (lr_targets r). refs_exist d (Some (lr_id r)) (Some (bt_id t)))"

lemma task_refs_kept: "same_refs s s' \<Longrightarrow> task_refs (q_db s') = task_refs (q_db s)"
  by (simp add: task_refs_def refs_exist_kept fun_eq_iff)

lemma rule_refs_kept: "same_refs s s' \<Longrightarrow> rule_refs (q_db s') = rule_refs (q_db s)"
  by (simp add: rule_refs_def refs_exist_kept fun_eq_iff)

text \<open>The interface the coordinator relies on: dispatchers prepare a firing for its own rule and event.\<close>

locale prepares_own_firing =
  fixes E :: "'w env"
  assumes prepare_own: "e_registry E ty = Some disp \<Longrightarrow> d_prepare disp c t w = (Inr c', w')
      \<Longrightarrow> ri_id (fc_rule c') = ri_id (fc_rule c) \<and> fc_event c' = fc_event c"
begin

lemma task_recorded:
  assumes "task_refs (q_db s) (ctx, t)" "snd (handle_firing E K ctx (target_info_of t) None s) = s'"
  shows "history (q_db s') = history (q_db s) @ [fired (ctx, t)] \<and> same_refs s s'"
proof -
  have r: "refs_exist (q_db s) (ri_id (fc_rule ctx)) (ti_id (target_info_of t))"
    using assms(1) by (simp add: task_refs_def target_info_of_def)
  obtain x u where u: "handle_firing E K ctx (target_info_of t) None s = (Inr x, u)"
    "logs_one ctx (target_info_of t) x (q_db s) (q_db u)"
    using handle_firing_logs[OF r] prepare_own by meson
  then show ?thesis using assms(2) handle_firing_refs[of s E K ctx "target_info_of t" None]
    by (auto simp: logs_one_def history_def fired_def target_info_of_def)
qed

lemma tasks_recorded:
  "list_all (task_refs (q_db s)) tasks \<Longrightarrow>
     history (q_db (run_tasks E K tasks s)) = history (q_db s) @ map fired tasks \<and> same_refs s (run_tasks E K tasks s)"
proof (induction tasks arbitrary: s)
  case (Cons task tasks)
  obtain ctx t where [simp]: "task = (ctx, t)" by fastforce
  define u where "u = snd (handle_firing E K ctx (target_info_of t) None s)"
  have u: "history (q_db u) = history (q_db s) @ [fired (ctx, t)]" "same_refs s u"
    using task_recorded[of s ctx t K u] Cons.prems by (simp_all add: u_def)
  moreover have "run_tasks E K (task # tasks) s = run_tasks E K tasks u" by (simp add: run_tasks_def u_def)
  ultimately show ?case using Cons.IH[of u] Cons.prems task_refs_kept[OF u(2)] same_refs_trans[OF u(2)] by simp
qed (simp add: run_tasks_def)

end

text \<open>The firings the router makes refer to what its rules refer to.\<close>

lemma fan_out_refs: "(ctx, t) \<in> set (fst (fan_out c ts seen)) \<Longrightarrow> ctx = c \<and> t \<in> set ts"
proof (induction ts arbitrary: seen)
  case (Cons a ts)
  obtain sp seen' where "fan_out c ts (insert (bt_id a) seen) = (sp, seen')" by fastforce
  then show ?case using Cons.IH[of "insert (bt_id a) seen"] Cons.IH[of seen] Cons.prems by (auto split: if_splits)
qed simp

lemma consider_rules_refs:
  assumes "list_all (rule_refs d) rs"
  shows "list_all (task_refs d) (consider_rules R ev rs seen)"
  using assms
proof (induction rs arbitrary: seen)
  case (Cons r rs)
  have "task_refs d (ctx, t)" if "(ctx, t) \<in> set (fst (fan_out (build_ctx r ev) (lr_targets r) seen))" for ctx t
    using fan_out_refs[OF that] Cons.prems
    by (auto simp: task_refs_def rule_refs_def build_ctx_def fire_context_init_def rule_info_of_def)
  moreover obtain sp seen' where "fan_out (build_ctx r ev) (lr_targets r) seen = (sp, seen')" by fastforce
  ultimately have "list_all (task_refs d) sp" "consider_rules R ev (r # rs) seen
      = (if rule_matches R r ev then sp @ (if lr_stop_on_match r then [] else consider_rules R ev rs seen')
         else consider_rules R ev rs seen)"
    by (auto simp: list_all_iff)
  then show ?case using Cons by simp
qed simp

lemma routed_refs: "list_all (rule_refs d) rs \<Longrightarrow> list_all (task_refs d) (routed R rs note)"
  using consider_rules_refs[of d rs]
  by (cases "note") (auto simp: routed_def consider_batch_def consider_one_def list_all_iff)

text \<open>A reload gives rules whose rows and targets exist.\<close>

lemma reload_refs: "list_all (rule_refs d) (reload_rules R d)"
proof -
  have "rule_refs d l" if mem: "l \<in> set (reload_rules R d)" for l
  proof -
    obtain r where "r \<in> set (regex_rows d)" and l: "live_rule_of R d r = Some l"
      using mem by (auto simp: reload_rules_def Router.set_map_filter)
    then have r: "r \<in> set (alert_rules d)" "live_rule_of R d r = Some l" by (simp_all add: regex_rows_def)
    then have "lr_id l = r_id r" "lr_targets l = targets_of d (r_id r)" by (auto dest!: live_rule_of_Some)
    then show ?thesis using r(1) by (auto simp: rule_refs_def refs_exist_ids targets_of_def bound_def intro: rev_image_eqI)
  qed
  then show ?thesis by (simp add: list_all_iff)
qed

section \<open>Log and history grow together\<close>

text \<open>What the history says after the firings of an event under these rules.\<close>

definition alerts_of :: "engine \<Rightarrow> live_rule list \<Rightarrow> event \<Rightarrow> (id option \<times> id option \<times> string option) list" where
  "alerts_of R rules ev = map fired (consider_one R rules ev)"

lemma fired_batch: "map fired (consider_batch R rules batch) = concat (map (alerts_of R rules) batch)"
  by (induction batch) (auto simp: consider_batch_def alerts_of_def consider_one_def)

text \<open>The events of a round: those it has stored, none of which a filter of the round matches.\<close>

lemma flush_round_events:
  assumes ok: "store_ok (mined C) (co_store s)"
  obtains evs nt where "co_notes (flush_round C n s) = co_notes s @ [nt]"
    "stored (co_store (flush_round C n s)) = stored (co_store s) @ evs" "store_ok (mined C) (co_store (flush_round C n s))"
    "\<forall>R rules. map fired (routed R rules nt) = concat (map (alerts_of R rules) evs)"
    "\<forall>ev \<in> set evs. match_event (ce_engine C) (ce_filters C n) ev = None"
proof -
  let ?evs = "map (received C n) (take (taken_count C n) (co_queue s))"
  obtain batch dropped where p: "partition_events (ce_engine C) (ce_filters C n) ?evs = (batch, dropped)" by fastforce
  have b: "\<forall>ev \<in> set batch. match_event (ce_engine C) (ce_filters C n) ev = None"
    using partition_from_spec[of "[]" "ce_engine C" "ce_filters C n" ?evs "[]" batch dropped] p
    by (auto simp: partition_events_def)
  show thesis
  proof (cases "flush (mined C) (ce_now C n) (ce_fault C n) batch dropped (co_store s)")
    case (Inl e)
    then show thesis using ok p
      by (intro that[of "Lost (length ?evs) e" "[]"]) (simp_all add: flush_round_def Let_def routed_def)
  next
    case (Inr d)
    then show thesis using flush_stores[OF ok Inr] p b
      by (intro that[of "Flushed batch dropped" batch]) (simp_all add: flush_round_def Let_def routed_def fired_batch)
  qed
qed

text \<open>The pairs of a round and an event stored in it, in order.\<close>

definition in_lockstep :: "collector_env \<Rightarrow> (nat \<Rightarrow> live_rule list) \<Rightarrow> nat \<Rightarrow> (nat \<times> event) list
    \<Rightarrow> collector \<times> 'w qstate \<Rightarrow> collector \<times> 'w qstate \<Rightarrow> bool" where
  "in_lockstep C rules N ps start final =
     (stored (co_store (fst final)) = stored (co_store (fst start)) @ map snd ps
      \<and> history (q_db (snd final)) = history (q_db (snd start)) @ concat (map (\<lambda>(n, ev). alerts_of (ce_engine C) (rules n) ev) ps)
      \<and> sorted (map fst ps)
      \<and> (\<forall>(n, ev) \<in> set ps. n < N \<and> match_event (ce_engine C) (ce_filters C n) ev = None))"

context prepares_own_firing
begin

lemma round_events:
  assumes "store_ok (mined C) (co_store s)" "list_all (rule_refs (q_db q)) (rules n)"
    and "pipeline_round C E K rules n (s, q) = (s', q')"
  obtains evs where "stored (co_store s') = stored (co_store s) @ evs" "store_ok (mined C) (co_store s')"
    "history (q_db q') = history (q_db q) @ concat (map (alerts_of (ce_engine C) (rules n)) evs)" "same_refs q q'"
    "\<forall>ev \<in> set evs. match_event (ce_engine C) (ce_filters C n) ev = None" "s' = flusher_step C n s"
proof (cases "co_queue s @ ce_arrive C n = [] \<or> co_dead s \<noteq> None")
  case True
  then have st: "flusher_step C n s = s\<lparr>co_queue := co_queue s @ ce_arrive C n\<rparr>" by (auto simp: flusher_step_def)
  then have "s' = s\<lparr>co_queue := co_queue s @ ce_arrive C n\<rparr>" "q' = q" using assms(3) by (auto simp: pipeline_round_def Let_def)
  then show thesis using assms(1) st by (intro that[of "[]"]) simp_all
next
  case False
  let ?t = "s\<lparr>co_queue := co_queue s @ ce_arrive C n\<rparr>"
  have st: "flusher_step C n s = flush_round C n ?t" using False by (auto simp: flusher_step_def Let_def)
  have "store_ok (mined C) (co_store ?t)" using assms(1) by simp
  then obtain evs nt where r: "co_notes (flush_round C n ?t) = co_notes ?t @ [nt]"
    "stored (co_store (flush_round C n ?t)) = stored (co_store ?t) @ evs" "store_ok (mined C) (co_store (flush_round C n ?t))"
    "\<forall>R rules. map fired (routed R rules nt) = concat (map (alerts_of R rules) evs)"
    "\<forall>ev \<in> set evs. match_event (ce_engine C) (ce_filters C n) ev = None"
    by (rule flush_round_events[where n = n]) blast
  have q: "s' = flush_round C n ?t" "q' = run_tasks E K (routed (ce_engine C) (rules n) nt) q"
    using assms(3) r(1) by (auto simp: pipeline_round_def Let_def st)
  have "history (q_db q') = history (q_db q) @ concat (map (alerts_of (ce_engine C) (rules n)) evs) \<and> same_refs q q'"
    using tasks_recorded[OF routed_refs[OF assms(2)], of K "ce_engine C" nt] by (simp add: q r(4))
  then show thesis using r by (intro that[of evs]) (simp_all add: q(1) st)
qed

lemma pipeline_lockstep:
  assumes "store_ok (mined C) (co_store s)" "\<And>n. n < N \<Longrightarrow> list_all (rule_refs (q_db q)) (rules n)"
  shows "(\<exists>ps. in_lockstep C rules N ps (s, q) (pipeline C E K rules N (s, q)))
    \<and> store_ok (mined C) (co_store (fst (pipeline C E K rules N (s, q)))) \<and> same_refs q (snd (pipeline C E K rules N (s, q)))
    \<and> fst (pipeline C E K rules N (s, q)) = fold (flusher_step C) [0..<N] s"
  using assms(2)
proof (induction N)
  case 0
  then show ?case using assms(1) by (intro conjI exI[of _ "[]"]) (simp_all add: pipeline_def in_lockstep_def)
next
  case (Suc N)
  obtain s1 q1 where m: "pipeline C E K rules N (s, q) = (s1, q1)" by fastforce
  obtain s2 q2 where r: "pipeline_round C E K rules N (s1, q1) = (s2, q2)" by fastforce
  have ih: "\<exists>ps. in_lockstep C rules N ps (s, q) (s1, q1)" "store_ok (mined C) (co_store s1)" "same_refs q q1"
      "s1 = fold (flusher_step C) [0..<N] s"
    using Suc.IH[OF Suc.prems[OF less_SucI]] unfolding m fst_conv snd_conv by blast+
  obtain ps where ps: "in_lockstep C rules N ps (s, q) (s1, q1)" using ih(1) by blast
  have "list_all (rule_refs (q_db q1)) (rules N)" using Suc.prems[of N] rule_refs_kept[OF ih(3)] by simp
  then obtain evs where e: "stored (co_store s2) = stored (co_store s1) @ evs" "store_ok (mined C) (co_store s2)"
    "history (q_db q2) = history (q_db q1) @ concat (map (alerts_of (ce_engine C) (rules N)) evs)" "same_refs q1 q2"
    "\<forall>ev \<in> set evs. match_event (ce_engine C) (ce_filters C N) ev = None" "s2 = flusher_step C N s1"
    using round_events[OF ih(2) _ r] by blast
  have p: "pipeline C E K rules (Suc N) (s, q) = (s2, q2)" using m r by (simp add: pipeline_def)
  have "sorted (map fst (ps @ map (Pair N) evs))"
    using ps by (auto simp: in_lockstep_def sorted_append comp_def map_replicate_const less_imp_le)
  then have "in_lockstep C rules (Suc N) (ps @ map (Pair N) evs) (s, q) (s2, q2)"
    using ps e(1,3,5) by (auto simp: in_lockstep_def comp_def less_Suc_eq)
  then show ?case unfolding p using e ih same_refs_trans[OF ih(3) e(4)] by auto
qed

end

interpretation served: prepares_own_firing "E\<lparr>e_registry := served_by b H T url token topic hosts\<rparr>"
  for E b H T url token topic hosts
  by unfold_locales (auto dest: served_prepare)


definition demo_origin :: collector where
  "demo_origin = \<lparr>co_queue = [Parsed demo_line], co_store = no_rows, co_notes = [], co_dead = None\<rparr>"

definition demo_alerts :: "api_log ts_world qstate" where
  "demo_alerts = \<lparr>q_db = demo_regex_db, q_world = no_cache, q_calls = []\<rparr>"

lemma demo_clean: "row_ok demo_line \<and> event_time demo_line = Some 5 \<and> text_ok (snd (mined demo_collector demo_line))" by code_simp

lemma demo_log: "stored (co_store (fold (flusher_step demo_collector) [0..<1] demo_origin)) = [demo_line]"
proof -
  let ?t = "demo_origin\<lparr>co_queue := [Parsed demo_line, Parsed demo_line]\<rparr>"
  have st: "fold (flusher_step demo_collector) [0..<1] demo_origin = flush_round demo_collector 0 ?t"
    by (simp add: flusher_step_def demo_origin_def demo_collector_def Let_def)
  have p: "partition_events demo_engine (reload_filters demo_engine []) [demo_line] = ([demo_line], [])" by code_simp
  obtain d where d: "flush (mined demo_collector) 0 None [demo_line] [] no_rows = Inr d"
    using demo_clean iffD2[OF flush_accepts, of "[demo_line]" "[]" None "mined demo_collector" 0 no_rows] by auto
  have "stored d = [demo_line]"
    using flush_stores[OF _ d] by (simp add: store_ok_def stored_def no_rows_def)
  then show ?thesis using p d unfolding st
    by (simp add: flush_round_def Let_def taken_count_def received_def demo_origin_def demo_collector_def)
qed


end
