(* ===== verification/Startup.thy ===== *)
theory Startup
  imports Pipeline Config
begin

text \<open>
  \<open>collector.main\<close> up to the wait for the stop event: what the settings make of every component, and
  in which order a wrong setting stops the start. Binding the sockets, connecting to the database and
  the tasks themselves are asyncio's.
\<close>

record 'h collector_process =
  cp_queue_max :: int
  cp_registry :: "'h ts_world registry"
  cp_coord :: coord_config
  cp_agents :: queue_config
  cp_rules :: "(db, rule_row list, live_rule list) listener"
  cp_filters :: "(filter_row list, filter_row list, filter_set) listener"
  cp_udp :: "(string \<times> int) option"
  cp_tcp :: "(string \<times> int) option"
  cp_otlp :: "(otlp_config \<times> string \<times> int) option"
  cp_retention :: int
  cp_judge :: bool

text \<open>The clients and functions the components are given.\<close>

record 'h outside =
  ou_http :: "'h http"
  ou_clock :: "'h \<Rightarrow> time"
  ou_bracketed :: "string \<Rightarrow> bool"
  ou_engine :: engine
  ou_decode :: "string \<Rightarrow> exn + string"
  ou_float :: "string \<Rightarrow> string"
  ou_hex :: "'h \<Rightarrow> string \<times> 'h"
  ou_fromiso :: "string \<Rightarrow> time option"

definition turnstone_of :: "'h outside \<Rightarrow> dispatch_settings \<Rightarrow> 'h turnstone" where
  "turnstone_of X c =
     \<lparr>ts_admin = \<lparr>ta_base = rstrip_slash (st_turnstone_url c), ta_token = st_admin_token c, ta_ttl = st_token_ttl_hours c * 3600,
        ta_scopes = st_obo_scopes c, ta_http = ou_http X, ta_clock = ou_clock X\<rparr>,
      ts_base = rstrip_slash (st_turnstone_url c), ts_default_owner = st_default_owner c,
      ts_default_project = st_default_project c, ts_hex = ou_hex X, ts_fromiso = ou_fromiso X\<rparr>"

definition registry_of :: "'h outside \<Rightarrow> dispatch_settings \<Rightarrow> exn + 'h ts_world registry" where
  "registry_of X c = build_registry (ou_bracketed X) (ou_http X) (Some (turnstone_of X c)) (st_ntfy_url c) (st_ntfy_token c)
     (st_ntfy_topic c) (st_ntfy_hosts c)"

definition coord_of :: "dispatch_settings \<Rightarrow> coord_config" where
  "coord_of c = \<lparr>reuse_ttl = st_reuse_ttl c, feed_every = st_feed_interval c, fallback_topic = st_fallback_topic c\<rparr>"

text \<open>A listener whose setting is empty is off.\<close>

definition listener_at :: "string \<Rightarrow> exn + (string \<times> int) option" where
  "listener_at s = (if s = [] then Inr None else case hostport s of Inl e \<Rightarrow> Inl e | Inr hp \<Rightarrow> Inr (Some hp))"

definition otlp_of :: "'h outside \<Rightarrow> ingest_settings \<Rightarrow> exn + (otlp_config \<times> string \<times> int) option" where
  "otlp_of X c =
     bind_sum (listener_at (st_otlp_http c)) (\<lambda>at.
       case at of
         None \<Rightarrow> Inr None
       | Some (host, port) \<Rightarrow>
         bind_sum (allowed_networks (st_otlp_cidrs c)) (\<lambda>ns.
           Inr (Some (\<lparr>oc_networks = ns, oc_max_body = st_otlp_body c, oc_max_records = st_otlp_records c,
             oc_queue_max = nat (st_queue_max c), oc_decode = ou_decode X, oc_float = ou_float X\<rparr>, host, port))))"

definition collector_main ::
    "'h outside \<Rightarrow> settings \<Rightarrow> db \<Rightarrow> filter_row list \<Rightarrow> exn + 'h collector_process" where
  "collector_main X c d table =
     (let ci = st_ingest c; cd = st_dispatch c in
      bind_sum (validate_collector c) (\<lambda>_.
      bind_sum (registry_of X cd) (\<lambda>reg.
      bind_sum (make_queue (st_max_active cd) (st_feed_interval cd) (st_poll_interval cd) (st_rate_ceiling cd) (st_dispatch_batch cd)) (\<lambda>agents.
      bind_sum (listener_at (st_syslog_udp ci)) (\<lambda>udp.
      bind_sum (listener_at (st_syslog_tcp ci)) (\<lambda>tcp.
      bind_sum (otlp_of X ci) (\<lambda>otlp.
      Inr \<lparr>cp_queue_max = st_queue_max ci, cp_registry = reg, cp_coord = coord_of cd, cp_agents = agents,
           cp_rules = listen_start (rules_view (ou_engine X)) d, cp_filters = listen_start (filters_view (ou_engine X)) table,
           cp_udp = udp, cp_tcp = tcp, cp_otlp = otlp, cp_retention = st_retention_days ci,
           cp_judge = (st_llm_url (st_judge c) \<noteq> [])\<rparr>)))))))"

section \<open>A collector that starts\<close>

lemma networks_nonempty: "allowed_networks cs = Inr ns \<Longrightarrow> cs \<noteq> [] \<Longrightarrow> ns \<noteq> []"
  by (cases cs) (auto split: sum.splits)

lemma registered:
  assumes "registry_of X c = Inr reg" "st_admin_token c \<noteq> [] \<or> st_ntfy_url c \<noteq> [] \<and> st_ntfy_token c \<noteq> []"
  shows "reg ''turnstone'' \<noteq> None \<or> reg ''ntfy'' \<noteq> None"
  using assms by (auto simp: registry_of_def build_registry_def Let_def enabled_def turnstone_of_def split: if_splits sum.splits)

lemma validate_collectorD:
  assumes "validate_collector c = Inr u"
  shows "st_db_dsn (st_ingest c) \<noteq> []"
    and "st_admin_token (st_dispatch c) \<noteq> [] \<or> st_ntfy_url (st_dispatch c) \<noteq> [] \<and> st_ntfy_token (st_dispatch c) \<noteq> []"
    and "st_otlp_http (st_ingest c) \<noteq> [] \<Longrightarrow> st_otlp_cidrs (st_ingest c) \<noteq> [] \<and> 1 \<le> st_otlp_body (st_ingest c) \<and> 1 \<le> st_otlp_records (st_ingest c)"
  using assms by (auto simp: validate_collector_def refuse_start_def split: if_splits sum.splits)

text \<open>
  A collector that starts can dispatch, is bounded, trusts only listed networks, and begins with
  the rules and filters of the tables: some dispatcher is registered, every registered one prepares a
  firing for its own rule and event, the caps of the queue are within their limits, and an OTLP endpoint has
  at least one trusted network and positive bounds.
\<close>

lemma started_collector_is_sound:
  assumes "collector_main X c d table = Inr p"
  shows "(cp_registry p ''turnstone'' \<noteq> None \<or> cp_registry p ''ntfy'' \<noteq> None)
    \<and> prepares_own_firing (E\<lparr>e_registry := cp_registry p\<rparr>)
    \<and> 1 \<le> max_active (cp_agents p) \<and> max_active (cp_agents p) \<le> 4 \<and> 1 \<le> batch_size (cp_agents p) \<and> batch_size (cp_agents p) \<le> 100
    \<and> ln_live (cp_rules p) = reload_rules (ou_engine X) d \<and> ln_live (cp_filters p) = reload_filters (ou_engine X) table
    \<and> (\<forall>oc host port. cp_otlp p = Some (oc, host, port) \<longrightarrow>
         allowed_networks (st_otlp_cidrs (st_ingest c)) = Inr (oc_networks oc) \<and> oc_networks oc \<noteq> [] \<and> 1 \<le> oc_max_body oc \<and> 1 \<le> oc_max_records oc)"
proof -
  obtain u reg agents udp tcp otlp where m: "validate_collector c = Inr u" "registry_of X (st_dispatch c) = Inr reg"
    "make_queue (st_max_active (st_dispatch c)) (st_feed_interval (st_dispatch c)) (st_poll_interval (st_dispatch c))
       (st_rate_ceiling (st_dispatch c)) (st_dispatch_batch (st_dispatch c)) = Inr agents"
    "otlp_of X (st_ingest c) = Inr otlp"
    and p: "cp_registry p = reg" "cp_agents p = agents" "cp_otlp p = otlp"
      "cp_rules p = listen_start (rules_view (ou_engine X)) d" "cp_filters p = listen_start (filters_view (ou_engine X)) table"
    using assms by (auto simp: collector_main_def Let_def)
  let ?cd = "st_dispatch c"
  have "prepares_own_firing (E\<lparr>e_registry := served_by (ou_bracketed X) (ou_http X) (Some (turnstone_of X ?cd)) (st_ntfy_url ?cd)
      (st_ntfy_token ?cd) (st_ntfy_topic ?cd) (st_ntfy_hosts ?cd)\<rparr>)"
    by (rule served.prepares_own_firing_axioms)
  then have "prepares_own_firing (E\<lparr>e_registry := reg\<rparr>)" using m(2) by (simp add: registry_of_def served_by_def)
  moreover have "1 \<le> max_active agents \<and> max_active agents \<le> 4 \<and> 1 \<le> batch_size agents \<and> batch_size agents \<le> 100"
    using m(3) by (auto simp: make_queue_def split: if_splits)
  moreover have "\<forall>oc host port. otlp = Some (oc, host, port) \<longrightarrow>
         allowed_networks (st_otlp_cidrs (st_ingest c)) = Inr (oc_networks oc) \<and> oc_networks oc \<noteq> [] \<and> 1 \<le> oc_max_body oc \<and> 1 \<le> oc_max_records oc"
    using m(4) validate_collectorD(3)[OF m(1)] networks_nonempty
    by (auto simp: otlp_of_def listener_at_def split: if_splits sum.splits option.splits)
  ultimately show ?thesis using registered[OF m(2) validate_collectorD(2)[OF m(1)]]
    by (simp add: p listen_start_def)
qed

end
