(* ===== verification/Drop_Counters.thy ===== *)
theory Drop_Counters
  imports Collector_Props Mcp_Serve
begin

text \<open>
  The counters of dropped events: \<open>filters.list_filters\<close> and the tool \<open>list_ingress_filters\<close> show, for each
  filter, what \<open>flush\<close> has added up from the batches it was given. Time stamps and authorship of the rows
  are left out of the listing.
\<close>

section \<open>The listing\<close>

text \<open>The \<open>LEFT JOIN\<close> with the statistics, grouped by filter: no row sums to nothing.\<close>

definition rows_of :: "id \<Rightarrow> stat_row list \<Rightarrow> stat_row list" where
  "rows_of n stats = filter (\<lambda>r. st_filter r = n) stats"

definition dropped_by :: "id \<Rightarrow> stat_row list \<Rightarrow> int" where
  "dropped_by n stats = sum_list (map st_matched (rows_of n stats))"

definition last_drop :: "id \<Rightarrow> stat_row list \<Rightarrow> time option" where
  "last_drop n stats = (case map st_last_matched (rows_of n stats) of [] \<Rightarrow> None | t # ts \<Rightarrow> Some (fold max ts t))"

definition list_filters :: "bool \<Rightarrow> filter_row list \<Rightarrow> stat_row list \<Rightarrow> (filter_row \<times> int \<times> time option) list" where
  "list_filters include_disabled table stats =
     map (\<lambda>f. (f, dropped_by (fr_id f) stats, last_drop (fr_id f) stats))
       (sort_key fr_order (sort_key fr_id (filter (\<lambda>f. include_disabled \<or> fr_enabled f) table)))"

definition list_ingress_filters ::
    "mcp_env \<Rightarrow> string \<Rightarrow> bool \<Rightarrow> stat_row list \<Rightarrow> mstate \<Rightarrow> tool_error + (filter_row \<times> int \<times> time option) list" where
  "list_ingress_filters M header include_disabled stats =
     reading M header (\<lambda>i s. Inr (list_filters include_disabled (ms_filters s) stats))"

section \<open>Counting by filter\<close>

definition caught :: "engine \<Rightarrow> filter_set \<Rightarrow> id \<Rightarrow> event list \<Rightarrow> nat" where
  "caught R fs n evs = length (filter (\<lambda>ev. map_option if_id (match_event R fs ev) = Some n) evs)"

definition counted :: "id \<Rightarrow> counter \<Rightarrow> nat" where
  "counted n c = sum_list (map (\<lambda>((f, src), k). if f = n then k else 0) c)"

lemma counted_up: "counted n (count_up k c) = counted n c + (if fst k = n then 1 else 0)"
  by (induction k c rule: count_up.induct) (auto simp: counted_def split: prod.splits)

lemma counted_partition:
  "partition_from R fs evs (acc, c) = (batch, dropped) \<Longrightarrow> counted n dropped = counted n c + caught R fs n evs"
proof (induction evs arbitrary: acc c)
  case (Cons ev evs)
  then show ?case
    by (cases "match_event R fs ev") (auto simp: caught_def counted_up)
qed (simp add: caught_def)

section \<open>The statistics\<close>

definition stats_ok :: "store \<Rightarrow> bool" where
  "stats_ok s = distinct (map (\<lambda>r. (st_filter r, st_source r)) (so_stats s))"

lemma dropped_by_weights: "dropped_by n stats = sum_list (map (\<lambda>r. if st_filter r = n then st_matched r else 0) stats)"
  by (induction stats) (simp_all add: dropped_by_def rows_of_def)

lemma upsert_stat_counts:
  assumes "stats_ok s"
  shows "stats_ok (upsert_stat t ((fid, src), k) s) \<and> so_filter_ids (upsert_stat t ((fid, src), k) s) = so_filter_ids s
    \<and> dropped_by n (so_stats (upsert_stat t ((fid, src), k) s))
        = dropped_by n (so_stats s) + (if fid = n \<and> n \<in> set (so_filter_ids s) then int k else 0)"
proof -
  let ?key = "\<lambda>r. (st_filter r, st_source r)"
  have e: "(\<lambda>r. st_filter r = fid \<and> st_source r = src) = (\<lambda>r. ?key r = (fid, src))" by auto
  have up: "sum_list (map (\<lambda>r. if st_filter r = n then st_matched r else 0)
        (update_where (\<lambda>r. ?key r = (fid, src)) (\<lambda>r. r\<lparr>st_matched := st_matched r + int k, st_last_matched := t\<rparr>) (so_stats s)))
      = sum_list (map (\<lambda>r. if st_filter r = n then st_matched r else 0) (so_stats s)) + (if fid = n then int k else 0)"
    if "list_ex (\<lambda>r. ?key r = (fid, src)) (so_stats s)"
    using assms that by (intro sum_update_where) (auto simp: stats_ok_def)
  consider "fid \<notin> set (so_filter_ids s)"
    | "fid \<in> set (so_filter_ids s)" "list_ex (\<lambda>r. ?key r = (fid, src)) (so_stats s)"
    | "fid \<in> set (so_filter_ids s)" "\<not> list_ex (\<lambda>r. ?key r = (fid, src)) (so_stats s)" by blast
  then show ?thesis
  proof cases
    case 2
    have "map ?key (update_where (\<lambda>r. ?key r = (fid, src)) (\<lambda>r. r\<lparr>st_matched := st_matched r + int k, st_last_matched := t\<rparr>) (so_stats s))
        = map ?key (so_stats s)"
      by (simp add: update_where_def)
    moreover have "upsert_stat t ((fid, src), k) s
        = s\<lparr>so_stats := update_where (\<lambda>r. ?key r = (fid, src)) (\<lambda>r. r\<lparr>st_matched := st_matched r + int k, st_last_matched := t\<rparr>) (so_stats s)\<rparr>"
      using 2 by (simp add: upsert_stat_def)
    ultimately show ?thesis using 2(1) assms up[OF 2(2)] by (auto simp: dropped_by_weights stats_ok_def simp del: prod.inject)
  next
    case 3
    then have "(fid, src) \<notin> ?key ` set (so_stats s)" by (auto simp: list_ex_iff)
    moreover have "upsert_stat t ((fid, src), k) s
        = s\<lparr>so_stats := so_stats s @ [\<lparr>st_filter = fid, st_source = src, st_matched = int k, st_last_matched = t\<rparr>]\<rparr>"
      using 3 by (simp add: upsert_stat_def)
    ultimately show ?thesis using 3(1) assms by (auto simp: dropped_by_weights stats_ok_def simp del: prod.inject)
  qed (use assms in \<open>auto simp: upsert_stat_def\<close>)
qed

lemma upsert_stats_count:
  "stats_ok s \<Longrightarrow> stats_ok (fold (upsert_stat t) c s) \<and> so_filter_ids (fold (upsert_stat t) c s) = so_filter_ids s
    \<and> dropped_by n (so_stats (fold (upsert_stat t) c s))
        = dropped_by n (so_stats s) + (if n \<in> set (so_filter_ids s) then int (counted n c) else 0)"
proof (induction c arbitrary: s)
  case (Cons x c)
  obtain fid src k where [simp]: "x = ((fid, src), k)" by (metis surj_pair)
  note u = upsert_stat_counts[OF Cons.prems, of t fid src k n]
  then show ?case using Cons.IH[of "upsert_stat t ((fid, src), k) s"] by (auto simp: counted_def)
qed (simp add: counted_def)

lemma statements_keep_stats:
  "so_stats (fold ensure_week ds s) = so_stats s" "so_filter_ids (fold ensure_week ds s) = so_filter_ids s"
  "so_stats (fold (\<lambda>(fp, n). upsert_template t fp (f fp) n) xs s) = so_stats s"
  "so_filter_ids (fold (\<lambda>(fp, n). upsert_template t fp (f fp) n) xs s) = so_filter_ids s"
  "so_stats (fold (insert_event mine) evs s) = so_stats s" "so_filter_ids (fold (insert_event mine) evs s) = so_filter_ids s"
  "so_stats (fold (\<lambda>(src, n). upsert_source t src n) ys s) = so_stats s"
  "so_filter_ids (fold (\<lambda>(src, n). upsert_source t src n) ys s) = so_filter_ids s"
  by (rule fold_keeps, simp add: ensure_week_def upsert_template_def insert_event_def upsert_source_def split: prod.split)+

lemma flush_counts:
  assumes "stats_ok s" "flush mine t fault batch dropped s = Inr d"
  shows "stats_ok d \<and> so_filter_ids d = so_filter_ids s \<and> dropped_by n (so_stats d)
        = dropped_by n (so_stats s) + (if n \<in> set (so_filter_ids s) then int (counted n dropped) else 0)"
proof (cases "batch = [] \<and> dropped = []")
  case True
  then show ?thesis using assms by (auto simp: flush_def counted_def)
next
  case False
  then obtain s4 where "d = fold (upsert_stat t) dropped s4" "so_stats s4 = so_stats s" "so_filter_ids s4 = so_filter_ids s"
    using assms(2) by (auto simp: flush_def Let_def statements_keep_stats split: if_splits option.splits)
  then show ?thesis using upsert_stats_count[of s4 t dropped n] assms(1) by (simp add: stats_ok_def)
qed

text \<open>
  C9. The drop counters are exact. When a batch is partitioned by a filter set and its flush succeeds,
  the number the listing shows for a filter that still exists has grown by the number of received events
  whose first matching filter it is, over all sources; together with the events stored these are all
  the events received. A flush that fails changes no counter, and one for a filter deleted
  meanwhile adds nothing.
\<close>

theorem drop_counters_are_exact:
  assumes "partition_events R fs evs = (batch, dropped)" "stats_ok s"
    and "flush mine t fault batch dropped s = Inr d" "(f, shown_before, last_before) \<in> set (list_filters inc table (so_stats s))"
  shows "(f, shown_before + (if fr_id f \<in> set (so_filter_ids s) then int (caught R fs (fr_id f) evs) else 0), last_drop (fr_id f) (so_stats d))
      \<in> set (list_filters inc table (so_stats d))
    \<and> stats_ok d \<and> length batch + sum_list (map snd dropped) = length evs
    \<and> caught R fs (fr_id f) evs = sum_list (map (\<lambda>((g, src), n). if g = fr_id f then n else 0) dropped)"
proof -
  have c: "counted (fr_id f) dropped = caught R fs (fr_id f) evs"
    using counted_partition[of R fs evs "[]" "[]" batch dropped "fr_id f"] assms(1) by (simp add: partition_events_def counted_def)
  have d: "stats_ok d" "dropped_by (fr_id f) (so_stats d)
        = dropped_by (fr_id f) (so_stats s) + (if fr_id f \<in> set (so_filter_ids s) then int (counted (fr_id f) dropped) else 0)"
    using flush_counts[OF assms(2,3), of "fr_id f"] by blast+
  show ?thesis using assms(4) d partition_lines[OF assms(1)] c
    by (auto simp: list_filters_def image_iff counted_def)
qed

definition demo_noise :: filter_row where
  "demo_noise = \<lparr>fr_id = 7, fr_name = ''noise'', fr_match_type = ''substring'', fr_pattern = ''disk'', fr_source_glob = None,
     fr_program_glob = None, fr_case = False, fr_order = 0, fr_enabled = True\<rparr>"

definition demo_rows :: store where
  "demo_rows = no_rows\<lparr>so_filter_ids := [7], so_stats := [\<lparr>st_filter = 7, st_source = ''web2'', st_matched = 4, st_last_matched = 1\<rparr>]\<rparr>"

theorem drop_counters_are_exact_witness:
  "\<exists>d. flush (\<lambda>_. ([], [])) 9 None [] [((7, ''web1''), 2)] demo_rows = Inr d
     \<and> list_filters True [demo_noise] (so_stats demo_rows) = [(demo_noise, 4, Some 1)]
     \<and> (demo_noise, 6, Some 9) \<in> set (list_filters True [demo_noise] (so_stats d))"
proof -
  let ?fs = "reload_filters demo_engine [demo_noise]"
  have p: "partition_events demo_engine ?fs [demo_line, demo_line] = ([], [((7, ''web1''), 2)])" by code_simp
  have c: "caught demo_engine ?fs 7 [demo_line, demo_line] = 2" by code_simp
  have l: "list_filters True [demo_noise] (so_stats demo_rows) = [(demo_noise, 4, Some 1)]" by code_simp
  have "case flush (\<lambda>_. ([], [])) 9 None [] [((7, ''web1''), 2)] demo_rows of
      Inl _ \<Rightarrow> False | Inr d \<Rightarrow> last_drop 7 (so_stats d) = Some 9"
    by code_simp
  then obtain d where d: "flush (\<lambda>_. ([], [])) 9 None [] [((7, ''web1''), 2)] demo_rows = Inr d" "last_drop 7 (so_stats d) = Some 9"
    by (auto split: sum.splits)
  have "stats_ok demo_rows" by (simp add: stats_ok_def demo_rows_def no_rows_def)
  from drop_counters_are_exact[OF p this d(1), of demo_noise 4 "Some 1" True "[demo_noise]"] show ?thesis
    using c d l by (simp add: demo_noise_def demo_rows_def)
qed

end
