(* ===== verification/Mcp_Window.thy ===== *)
theory Mcp_Window
  imports Mcp_Serve Syslog
begin

text \<open>
  The time bounds of the MCP queries: \<open>_parse_iso\<close> with \<open>time.strptime\<close>, \<open>search_logs\<close> and \<open>timeline\<close> from their
  arguments to the rows, and the cut of a long answer. The conversion of the seconds with their decimal
  fraction, a float, to a time stamp is a parameter (\<open>stamp\<close>).
\<close>

section \<open>strptime\<close>

text \<open>The expressions of the directives, as \<open>_strptime\<close> has them.\<close>

definition range_of :: "char \<Rightarrow> char \<Rightarrow> rx" where
  "range_of a b = Chr (between a b)"

fun alts :: "rx list \<Rightarrow> rx" where
  "alts [] = Chr (\<lambda>_. False)"
| "alts [r] = r"
| "alts (r # rs) = Alt r (alts rs)"

definition directive :: "char \<Rightarrow> rx" where
  "directive c =
     (if c = CHR ''Y'' then seqs [digit, digit, digit, digit]
      else if c = CHR ''m'' then alts [Seq (lit CHR ''1'') (range_of CHR ''0'' CHR ''2''), Seq (lit CHR ''0'') (range_of CHR ''1'' CHR ''9''),
        range_of CHR ''1'' CHR ''9'']
      else if c = CHR ''d'' then alts [Seq (lit CHR ''3'') (range_of CHR ''0'' CHR ''1''), Seq (range_of CHR ''1'' CHR ''2'') digit,
        Seq (lit CHR ''0'') (range_of CHR ''1'' CHR ''9''), range_of CHR ''1'' CHR ''9'', Seq (lit CHR '' '') (range_of CHR ''1'' CHR ''9'')]
      else if c = CHR ''H'' then alts [Seq (lit CHR ''2'') (range_of CHR ''0'' CHR ''3''), Seq (range_of CHR ''0'' CHR ''1'') digit, digit]
      else if c = CHR ''M'' then alts [Seq (range_of CHR ''0'' CHR ''5'') digit, digit]
      else alts [Seq (lit CHR ''6'') (range_of CHR ''0'' CHR ''1''), Seq (range_of CHR ''0'' CHR ''5'') digit, digit])"

text \<open>A blank of the format stands for any white space; letters match in either case.\<close>

fun strptime_rx :: "string \<Rightarrow> rx" where
  "strptime_rx [] = Eps"
| "strptime_rx [c] = Chr (\<lambda>x. lower_char x = lower_char c)"
| "strptime_rx (c # e # cs) =
     (if c = CHR ''%'' then Seq (Cap [e] (directive e)) (strptime_rx cs)
      else if c = CHR '' '' then Seq (many1 (Chr is_space)) (strptime_rx (e # cs))
      else Seq (Chr (\<lambda>x. lower_char x = lower_char c)) (strptime_rx (e # cs)))"

definition time_field :: "pos \<Rightarrow> char \<Rightarrow> int \<Rightarrow> int" where
  "time_field p c dflt = (case group_of p [c] of None \<Rightarrow> dflt | Some w \<Rightarrow> int (digits_value (strip w)))"

text \<open>\<open>calendar.timegm(time.strptime(s, fmt))\<close>; \<open>None\<close> is its \<open>ValueError\<close>.\<close>

definition read_time :: "string \<Rightarrow> string \<Rightarrow> int option" where
  "read_time fmt s =
     (case re_match (strptime_rx fmt) s of
        None \<Rightarrow> None
      | Some p \<Rightarrow>
        if po_rest p \<noteq> [] then None
        else (let y = time_field p CHR ''Y'' 1900; mo = time_field p CHR ''m'' 1; d = time_field p CHR ''d'' 1
              in if valid_date y mo d
                 then Some (((days_of y mo d * 24 + time_field p CHR ''H'' 0) * 60 + time_field p CHR ''M'' 0) * 60 + time_field p CHR ''S'' 0)
                 else None))"

definition iso_formats :: "string list" where
  "iso_formats = [''%Y-%m-%dT%H:%M:%S'', ''%Y-%m-%d %H:%M:%S'', ''%Y-%m-%dT%H:%M'', ''%Y-%m-%d'']"

definition rstrip_z :: "string \<Rightarrow> string" where
  "rstrip_z s = rev (dropWhile (\<lambda>c. c = CHR ''Z'' \<or> c = CHR ''z'') (rev s))"

text \<open>\<open>_parse_iso\<close>: the seconds and the digits of the fraction.\<close>

definition parse_iso :: "string \<Rightarrow> (int \<times> string) option" where
  "parse_iso s =
     (let t = rstrip_z (strip s); whole = before_char CHR ''.'' t;
          frac = filter is_digit (drop (Suc (length whole)) t)
      in if t = [] then None
         else case List.map_filter (\<lambda>fmt. read_time fmt whole) iso_formats of [] \<Rightarrow> None | n # _ \<Rightarrow> Some (n, frac))"

section \<open>The queries\<close>

type_synonym stamp = "int \<times> string \<Rightarrow> time"

definition asked_window :: "stamp \<Rightarrow> mcp_env \<Rightarrow> string \<Rightarrow> time \<Rightarrow> string \<Rightarrow> time option \<times> time option" where
  "asked_window stamp M since_iso since_for until_iso =
     window_bounds (\<lambda>s. map_option stamp (parse_iso s)) (me_now M) since_iso since_for until_iso"

definition search_logs_tool ::
    "stamp \<Rightarrow> mcp_env \<Rightarrow> string \<Rightarrow> search_args \<Rightarrow> string \<Rightarrow> time \<Rightarrow> string \<Rightarrow> int \<Rightarrow> mstate \<Rightarrow> tool_error + spine_row list" where
  "search_logs_tool stamp M header a since_iso since_for until_iso limit =
     reading M header (\<lambda>i. search_logs M a (asked_window stamp M since_iso since_for until_iso) limit)"

definition timeline_tool ::
    "stamp \<Rightarrow> mcp_env \<Rightarrow> string \<Rightarrow> string \<Rightarrow> time \<Rightarrow> string \<Rightarrow> string \<Rightarrow> int \<Rightarrow> int \<Rightarrow> mstate
     \<Rightarrow> tool_error + (string \<times> nat \<times> int option) list \<times> spine_row list" where
  "timeline_tool stamp M header since_iso since_for until_iso sources severity_min limit =
     reading M header (\<lambda>i. timeline M (asked_window stamp M since_iso since_for until_iso) sources severity_min limit)"

text \<open>\<open>_out\<close> on the text of the answer: a slice with a negative bound drops from the end.\<close>

definition cut_marker :: string where
  "cut_marker = CHR 0x0A # CHR 0x85 # ''[TRUNCATED '' @ em_dash @ '' narrow your query]''"

definition shortened :: "int \<Rightarrow> string \<Rightarrow> string" where
  "shortened hi s =
     (if int (length s) \<le> hi then s
      else (if 0 \<le> hi then take (nat hi) s else take (length s - nat (- hi)) s) @ cut_marker)"

section \<open>Reading a time back\<close>

text \<open>The first result of the matcher, which is the one taken.\<close>

definition leads :: "rx \<Rightarrow> pos \<Rightarrow> pos \<Rightarrow> bool" where
  "leads r p q = (\<exists>qs. run r p = q # qs)"

definition past :: "pos \<Rightarrow> char list \<Rightarrow> string \<Rightarrow> pos" where
  "past p w r = p\<lparr>po_prev := Some (last w), po_rest := r\<rparr>"

lemma leads_Seq: "leads a p q \<Longrightarrow> leads b q u \<Longrightarrow> leads (Seq a b) p u"
  by (auto simp: leads_def)

lemma leads_Alt: "leads a p q \<Longrightarrow> leads (Alt a b) p q" "run a p = [] \<Longrightarrow> leads b p q \<Longrightarrow> leads (Alt a b) p q"
  by (auto simp: leads_def)

lemma leads_Chr: "po_rest p = c # r \<Longrightarrow> f c \<Longrightarrow> leads (Chr f) p (past p [c] r)"
  by (simp add: leads_def past_def)

lemma leads_Cap:
  assumes "leads r p (past p w t)" "po_rest p = w @ t"
  shows "leads (Cap n r) p ((past p w t)\<lparr>po_caps := (n, w) # po_caps p\<rparr>)"
  using assms by (auto simp: leads_def past_def)

lemma leads_match: "leads r \<lparr>po_prev = None, po_rest = s, po_caps = []\<rparr> q \<Longrightarrow> re_match r s = Some q"
  by (auto simp: leads_def re_match_def)

text \<open>Two digits that a directive reads as one field.\<close>

definition two_for :: "char \<Rightarrow> char \<Rightarrow> char \<Rightarrow> bool" where
  "two_for c a b =
     (if c = CHR ''m'' then a = CHR ''1'' \<and> between CHR ''0'' CHR ''2'' b \<or> a = CHR ''0'' \<and> between CHR ''1'' CHR ''9'' b
      else if c = CHR ''d'' then a = CHR ''3'' \<and> between CHR ''0'' CHR ''1'' b \<or> between CHR ''1'' CHR ''2'' a \<and> is_digit b
        \<or> a = CHR ''0'' \<and> between CHR ''1'' CHR ''9'' b
      else if c = CHR ''H'' then a = CHR ''2'' \<and> between CHR ''0'' CHR ''3'' b \<or> between CHR ''0'' CHR ''1'' a \<and> is_digit b
      else between CHR ''0'' CHR ''5'' a \<and> is_digit b)"

lemma directives:
  "directive CHR ''Y'' = seqs [digit, digit, digit, digit]"
  "directive CHR ''m'' = Alt (Seq (lit CHR ''1'') (range_of CHR ''0'' CHR ''2'')) (Alt (Seq (lit CHR ''0'') (range_of CHR ''1'' CHR ''9''))
     (range_of CHR ''1'' CHR ''9''))"
  "directive CHR ''d'' = Alt (Seq (lit CHR ''3'') (range_of CHR ''0'' CHR ''1'')) (Alt (Seq (range_of CHR ''1'' CHR ''2'') digit)
     (Alt (Seq (lit CHR ''0'') (range_of CHR ''1'' CHR ''9'')) (Alt (range_of CHR ''1'' CHR ''9'')
       (Seq (lit CHR '' '') (range_of CHR ''1'' CHR ''9'')))))"
  "directive CHR ''H'' = Alt (Seq (lit CHR ''2'') (range_of CHR ''0'' CHR ''3'')) (Alt (Seq (range_of CHR ''0'' CHR ''1'') digit) digit)"
  "directive CHR ''M'' = Alt (Seq (range_of CHR ''0'' CHR ''5'') digit) digit"
  "directive CHR ''S'' = Alt (Seq (lit CHR ''6'') (range_of CHR ''0'' CHR ''1'')) (Alt (Seq (range_of CHR ''0'' CHR ''5'') digit) digit)"
  by (simp_all add: directive_def)

lemma run_chars:
  assumes "po_rest p = a # b # r"
  shows "run (Seq (Chr f) (Chr g)) p = (if f a \<and> g b then [past p [a, b] r] else [])"
    and "run (Chr f) p = (if f a then [past p [a] (b # r)] else [])"
  using assms by (simp_all add: past_def)

lemma two_for_simps:
  "two_for CHR ''m'' a b = (a = CHR ''1'' \<and> between CHR ''0'' CHR ''2'' b \<or> a = CHR ''0'' \<and> between CHR ''1'' CHR ''9'' b)"
  "two_for CHR ''d'' a b = (a = CHR ''3'' \<and> between CHR ''0'' CHR ''1'' b \<or> between CHR ''1'' CHR ''2'' a \<and> is_digit b
     \<or> a = CHR ''0'' \<and> between CHR ''1'' CHR ''9'' b)"
  "two_for CHR ''H'' a b = (a = CHR ''2'' \<and> between CHR ''0'' CHR ''3'' b \<or> between CHR ''0'' CHR ''1'' a \<and> is_digit b)"
  "two_for CHR ''M'' a b = (between CHR ''0'' CHR ''5'' a \<and> is_digit b)"
  "two_for CHR ''S'' a b = (between CHR ''0'' CHR ''5'' a \<and> is_digit b)"
  by (simp_all add: two_for_def)

lemma leads_two:
  assumes "po_rest p = a # b # r" "c \<in> set ''mdHMS''" "two_for c a b"
  shows "leads (directive c) p (past p [a, b] r)"
proof -
  have "c = CHR ''m'' \<or> c = CHR ''d'' \<or> c = CHR ''H'' \<or> c = CHR ''M'' \<or> c = CHR ''S''" using assms(2) by simp
  then show ?thesis using assms(3)
    by (elim disjE; hypsubst)
       (simp only: directives lit_def range_of_def digit_def run.simps(3) run_chars[OF assms(1)] leads_def two_for_simps,
        force simp: between_def code_point_def)+
qed

definition reads_two :: "char \<Rightarrow> int \<Rightarrow> bool" where
  "reads_two c i = (case pad 2 i of [a, b] \<Rightarrow> two_for c a b \<and> digits_value [a, b] = nat i \<and> is_digit a \<and> is_digit b | _ \<Rightarrow> False)"

lemma reads_month: "list_all (reads_two CHR ''m'') [1..12]" by code_simp
lemma reads_day: "list_all (reads_two CHR ''d'') [1..31]" by code_simp
lemma reads_hour: "list_all (reads_two CHR ''H'') [0..23]" by code_simp
lemma reads_minute: "list_all (reads_two CHR ''M'') [0..59]" by code_simp

lemma reads_second: "reads_two CHR ''S'' = reads_two CHR ''M''"
  unfolding reads_two_def two_for_simps ..

lemma leads_year:
  assumes "po_rest p = w @ r" "length w = 4" "list_all is_digit w"
  shows "leads (directive CHR ''Y'') p (past p w r)"
proof -
  obtain a b c d where "w = [a, b, c, d]" using assms(2) by (auto simp: numeral_eq_Suc length_Suc_conv)
  then show ?thesis using assms(1,3)
    unfolding directives digit_def leads_def past_def seqs.simps by simp
qed

lemma digits_value_zeros: "digits_value (replicate n CHR ''0'' @ s) = digits_value s"
  by (induction n) (simp_all add: digits_value_def code_point_def)

lemma nat_digits_length: "n < 10 ^ k \<Longrightarrow> 0 < k \<Longrightarrow> length (nat_digits n) \<le> k"
proof (induction n arbitrary: k rule: nat_digits.induct)
  case (1 n)
  show ?case
  proof (cases "n < 10")
    case True
    then show ?thesis using 1(3) by (simp add: nat_digits.simps)
  next
    case False
    then obtain m where m: "k = Suc m" "0 < m" using 1(2,3) by (cases k; cases "k - 1") auto
    then have "n div 10 < 10 ^ m" using 1(2) by auto
    then show ?thesis using 1(1)[OF False _ m(2)] False m(1) by (simp add: nat_digits.simps[of n])
  qed
qed

lemma pad_digits:
  assumes "0 \<le> i" "i < 10 ^ w" "0 < w"
  shows "length (pad w i) = w" "list_all is_digit (pad w i)" "digits_value (pad w i) = nat i"
  using assms nat_digits_length[of "nat i" w] nat_digits_props[of "nat i"]
  by (auto simp: pad_def int_text_def Let_def digits_value_zeros nat_less_iff list_all_iff)
     (simp_all add: is_digit_def code_point_def)

lemma leads_pad:
  assumes "reads_two c i" "c \<in> set ''mdHMS''" "po_rest p = pad 2 i @ r"
  shows "leads (directive c) p (past p (pad 2 i) r)" "digits_value (pad 2 i) = nat i" "list_all is_digit (pad 2 i)"
proof -
  obtain a b where w: "pad 2 i = [a, b]" "two_for c a b" "digits_value [a, b] = nat i" "is_digit a" "is_digit b"
    using assms(1) by (auto simp: reads_two_def split: list.splits)
  then show "leads (directive c) p (past p (pad 2 i) r)" "digits_value (pad 2 i) = nat i" "list_all is_digit (pad 2 i)"
    using leads_two[of p a b r c] assms(2,3) by simp_all
qed

lemma strip_digits: "list_all is_digit w \<Longrightarrow> strip w = w"
proof -
  assume d: "list_all is_digit w"
  have "\<not> is_space c" if "is_digit c" for c using that by (auto simp: is_digit_def is_space_def Let_def)
  then have "stripped w" using d by (cases w) (auto simp: stripped_def list_all_iff)
  then show ?thesis by (rule strip_id)
qed

definition iso_text :: "int \<Rightarrow> int \<Rightarrow> int \<Rightarrow> int \<Rightarrow> int \<Rightarrow> int \<Rightarrow> string" where
  "iso_text y mo d h mi s = pad 4 y @ ''-'' @ pad 2 mo @ ''-'' @ pad 2 d @ ''T'' @ pad 2 h @ '':'' @ pad 2 mi @ '':'' @ pad 2 s"

text \<open>The fields of a time in its ranges, as the matcher of the first format finds them.\<close>

definition in_ranges :: "int \<Rightarrow> int \<Rightarrow> int \<Rightarrow> int \<Rightarrow> int \<Rightarrow> int \<Rightarrow> bool" where
  "in_ranges y mo d h mi s = (1 \<le> y \<and> y \<le> 9999 \<and> 1 \<le> mo \<and> mo \<le> 12 \<and> 1 \<le> d \<and> d \<le> 31 \<and> 0 \<le> h \<and> h \<le> 23
     \<and> 0 \<le> mi \<and> mi \<le> 59 \<and> 0 \<le> s \<and> s \<le> 59)"

lemma in_rangesD:
  assumes "in_ranges y mo d h mi s"
  shows "reads_two CHR ''m'' mo" "reads_two CHR ''d'' d" "reads_two CHR ''H'' h" "reads_two CHR ''M'' mi" "reads_two CHR ''S'' s"
    "length (pad 4 y) = 4" "list_all is_digit (pad 4 y)" "digits_value (pad 4 y) = nat y"
  using assms reads_month reads_day reads_hour reads_minute pad_digits[of y 4]
  by (auto simp: in_ranges_def list_all_iff reads_second)

text \<open>An expression that leads from a text with some groups to what is left of it with more.\<close>

definition goes :: "rx \<Rightarrow> string \<Rightarrow> (string \<times> string) list \<Rightarrow> string \<Rightarrow> (string \<times> string) list \<Rightarrow> bool" where
  "goes r s caps s' caps' =
     (\<forall>prev. \<exists>prev'. leads r \<lparr>po_prev = prev, po_rest = s, po_caps = caps\<rparr> \<lparr>po_prev = prev', po_rest = s', po_caps = caps'\<rparr>)"

lemma goes_end: "goes (strptime_rx []) s caps s caps"
  by (auto simp: goes_def leads_def)

lemma goes_char:
  assumes "goes (strptime_rx (e # cs)) r caps s' caps'" "c \<noteq> CHR ''%''" "c \<noteq> CHR '' ''"
  shows "goes (strptime_rx (c # e # cs)) (c # r) caps s' caps'"
  unfolding goes_def
proof
  fix prev
  obtain prev' where "leads (strptime_rx (e # cs)) \<lparr>po_prev = Some c, po_rest = r, po_caps = caps\<rparr> \<lparr>po_prev = prev', po_rest = s', po_caps = caps'\<rparr>"
    using assms(1) by (auto simp: goes_def)
  then show "\<exists>prev'. leads (strptime_rx (c # e # cs)) \<lparr>po_prev = prev, po_rest = c # r, po_caps = caps\<rparr>
      \<lparr>po_prev = prev', po_rest = s', po_caps = caps'\<rparr>"
    using assms(2,3) by (auto simp: leads_def)
qed

lemma goes_field:
  assumes "\<And>p. po_rest p = w @ r \<Longrightarrow> leads (directive c) p (past p w r)" "goes (strptime_rx cs) r (([c], w) # caps) s' caps'"
  shows "goes (strptime_rx (CHR ''%'' # c # cs)) (w @ r) caps s' caps'"
  unfolding goes_def
proof
  fix prev
  let ?p = "\<lparr>po_prev = prev, po_rest = w @ r, po_caps = caps\<rparr>"
  obtain prev' where "leads (strptime_rx cs) \<lparr>po_prev = Some (last w), po_rest = r, po_caps = ([c], w) # caps\<rparr>
      \<lparr>po_prev = prev', po_rest = s', po_caps = caps'\<rparr>"
    using assms(2) by (auto simp: goes_def)
  moreover have "leads (Cap [c] (directive c)) ?p \<lparr>po_prev = Some (last w), po_rest = r, po_caps = ([c], w) # caps\<rparr>"
    using leads_Cap[OF assms(1)[of ?p], of "[c]"] by (simp add: past_def)
  ultimately show "\<exists>prev'. leads (strptime_rx (CHR ''%'' # c # cs)) ?p \<lparr>po_prev = prev', po_rest = s', po_caps = caps'\<rparr>"
    by (auto intro: leads_Seq)
qed

lemma goes_two:
  assumes "reads_two c i" "c \<in> set ''mdHMS''" "goes (strptime_rx cs) r (([c], pad 2 i) # caps) s' caps'"
  shows "goes (strptime_rx (CHR ''%'' # c # cs)) (pad 2 i @ r) caps s' caps'"
  using goes_field[OF leads_pad(1)[OF assms(1,2)] assms(3)] .

lemma first_format:
  assumes "in_ranges y mo d h mi s"
  shows "\<exists>p. re_match (strptime_rx ''%Y-%m-%dT%H:%M:%S'') (iso_text y mo d h mi s) = Some p \<and> po_rest p = []
    \<and> po_caps p = [(''S'', pad 2 s), (''M'', pad 2 mi), (''H'', pad 2 h), (''d'', pad 2 d), (''m'', pad 2 mo), (''Y'', pad 4 y)]"
proof -
  note r = in_rangesD[OF assms]
  have "goes (strptime_rx ''%Y-%m-%dT%H:%M:%S'') (pad 4 y @ ''-'' @ pad 2 mo @ ''-'' @ pad 2 d @ ''T'' @ pad 2 h @ '':'' @ pad 2 mi @ '':'' @ pad 2 s @ [])
      [] [] [(''S'', pad 2 s), (''M'', pad 2 mi), (''H'', pad 2 h), (''d'', pad 2 d), (''m'', pad 2 mo), (''Y'', pad 4 y)]"
    unfolding append_Cons append_Nil
    by (rule goes_field goes_two goes_char goes_end leads_year r | assumption | simp)+
  then show ?thesis using leads_match by (fastforce simp: goes_def iso_text_def)
qed

lemma field_digits: "po_caps p = caps \<Longrightarrow> map_of caps [c] = Some w \<Longrightarrow> list_all is_digit w \<Longrightarrow> time_field p c dflt = int (digits_value w)"
  by (simp add: time_field_def group_of_def strip_digits)

lemma two_digit_values:
  "reads_two c i \<Longrightarrow> list_all is_digit (pad 2 i) \<and> digits_value (pad 2 i) = nat i \<and> pad 2 i \<noteq> []"
  by (auto simp: reads_two_def split: list.splits)

lemma read_iso_text:
  assumes "in_ranges y mo d h mi s" "valid_date y mo d"
  shows "read_time ''%Y-%m-%dT%H:%M:%S'' (iso_text y mo d h mi s) = Some (((days_of y mo d * 24 + h) * 60 + mi) * 60 + s)"
proof -
  obtain p where p: "re_match (strptime_rx ''%Y-%m-%dT%H:%M:%S'') (iso_text y mo d h mi s) = Some p" "po_rest p = []"
    "po_caps p = [(''S'', pad 2 s), (''M'', pad 2 mi), (''H'', pad 2 h), (''d'', pad 2 d), (''m'', pad 2 mo), (''Y'', pad 4 y)]"
    using first_format[OF assms(1)] by blast
  note r = in_rangesD[OF assms(1)]
  note v = r(1-5)[THEN two_digit_values] r(6-8)
  have "time_field p CHR ''Y'' dflt = y \<and> time_field p CHR ''m'' dflt = mo \<and> time_field p CHR ''d'' dflt = d
      \<and> time_field p CHR ''H'' dflt = h \<and> time_field p CHR ''M'' dflt = mi \<and> time_field p CHR ''S'' dflt = s" for dflt
    using v assms(1) by (simp add: field_digits[OF p(3)] in_ranges_def)
  then show ?thesis using p(1,2) assms(2) by (simp add: read_time_def)
qed

text \<open>The characters of such a text: no blank, no \<open>Z\<close> and no fraction.\<close>

lemma iso_text_chars:
  assumes "in_ranges y mo d h mi s" "c \<in> set (iso_text y mo d h mi s)"
  shows "is_digit c \<or> c \<in> {CHR ''-'', CHR ''T'', CHR '':''}"
  using assms(2) in_rangesD(1-5)[OF assms(1), THEN two_digit_values] in_rangesD(7)[OF assms(1)]
  by (auto simp: iso_text_def list_all_iff)

lemma iso_text_plain:
  assumes "in_ranges y mo d h mi s"
  shows "c \<in> set (iso_text y mo d h mi s) \<Longrightarrow> \<not> is_space c \<and> c \<noteq> CHR ''Z'' \<and> c \<noteq> CHR ''z'' \<and> c \<noteq> CHR ''.''"
  using iso_text_chars[OF assms, of c] by (auto simp: is_digit_def is_space_def code_point_def Let_def)

lemma parse_iso_text:
  assumes r: "in_ranges y mo d h mi s" and "valid_date y mo d" "z = [] \<or> z = ''Z''"
  shows "parse_iso (iso_text y mo d h mi s @ z) = Some (((days_of y mo d * 24 + h) * 60 + mi) * 60 + s, [])"
proof -
  let ?w = "iso_text y mo d h mi s"
  have ne: "?w \<noteq> []" by (simp add: iso_text_def)
  have "stripped (?w @ z)"
    using iso_text_plain[OF r, of "hd ?w"] iso_text_plain[OF r, of "last ?w"] ne assms(3)
    by (auto simp: stripped_def is_space_def code_point_def Let_def)
  then have st: "strip (?w @ z) = ?w @ z" by (rule strip_id)
  have "dropWhile (\<lambda>c. c = CHR ''Z'' \<or> c = CHR ''z'') (rev ?w) = rev ?w"
    using iso_text_plain[OF r, of "last ?w"] ne by (cases "rev ?w") (auto simp: dropWhile_eq_self_iff hd_rev)
  then have z: "rstrip_z (?w @ z) = ?w" using assms(3) by (auto simp: rstrip_z_def)
  have "before_char CHR ''.'' ?w = ?w"
    unfolding before_char_def using iso_text_plain[OF r] by (simp add: takeWhile_eq_all_conv)
  then show ?thesis using ne
    by (simp add: parse_iso_def st z Let_def iso_formats_def read_iso_text[OF assms(1,2)] List.map_filter_simps)
qed

lemma civil_day_le: "civil n = (y, mo, d) \<Longrightarrow> d \<le> 31"
proof -
  assume c: "civil n = (y, mo, d)"
  obtain doy where e: "doy - (153 * ((5 * doy + 2) div 153) + 2) div 5 + 1 = d"
    using c unfolding civil_def Let_def prod.inject by (elim conjE) (rule that, assumption)
  have below: "a < k * (a div k) + k" if "0 < k" for a k :: int
    using that pos_mod_bound[of k a] mult_div_mod_eq[of k a] by linarith
  define q where "q = (5 * doy + 2) div 153"
  define u where "u = (153 * q + 2) div 5"
  have "5 * doy + 2 < 153 * q + 153" "153 * q + 2 < 5 * u + 5"
    unfolding u_def using below[of 153 "5 * doy + 2"] below[of 5 "153 * q + 2"] by (simp_all add: q_def)
  moreover have "doy - u + 1 = d" using e by (simp add: u_def q_def)
  ultimately show ?thesis by linarith
qed

text \<open>The time stamps that \<open>strftime\<close> writes are read back.\<close>

lemma parse_strftime:
  assumes "make_time y mo d h mi s = Some t" "0 \<le> h" "0 \<le> mi" "0 \<le> s"
  shows "parse_iso (strftime_iso t) = Some (t div 1000000, [])"
proof -
  let ?days = "days_of y mo d"
  have v: "valid_date y mo d" "h \<le> 23" "mi \<le> 59" "s \<le> 59" and t: "t = (((?days * 24 + h) * 60 + mi) * 60 + s) * 1000000"
    using assms(1) by (auto simp: make_time_def split: if_splits)
  define x where "x = (h * 60 + mi) * 60 + s"
  have x: "0 \<le> x" "x < 86400" using assms(2-4) v by (simp_all add: x_def)
  have sec1: "t div 1000000 = x + ?days * 86400" by (simp add: t x_def algebra_simps)
  have "day_of t = (t div 1000000) div 86400" by (simp add: day_of_def zdiv_zmult2_eq[of 86400 t 1000000, simplified])
  then have day: "day_of t = ?days" unfolding sec1 using x by simp
  have "second_of_day t = x" unfolding second_of_day_def sec1 using x by simp
  then have sec: "second_of_day t = (h * 60 + mi) * 60 + s" by (simp add: x_def)
  have c: "civil ?days = (y, mo, d)" "1 \<le> y" "y \<le> 9999" "1 \<le> mo" "mo \<le> 12" "1 \<le> d" using v(1) by (simp_all add: valid_date_def)
  have r: "in_ranges y mo d h mi s" using c civil_day_le[OF c(1)] v assms(2-4) by (simp add: in_ranges_def)
  have sixty: "(a * 60 + b) div 60 = a \<and> (a * 60 + b) mod 60 = b" if "0 \<le> b" "b \<le> 59" for a b :: int
    using that by simp
  note m = sixty[OF assms(4) v(4), of "h * 60 + mi", THEN conjunct1] sixty[OF assms(4) v(4), of "h * 60 + mi", THEN conjunct2]
  have k: "((h * 60 + mi) * 60 + s) div 3600 = h" "((h * 60 + mi) * 60 + s) div 60 mod 60 = mi" "((h * 60 + mi) * 60 + s) mod 60 = s"
    using zdiv_zmult2_eq[of 60 "(h * 60 + mi) * 60 + s" 60] sixty[OF assms(3) v(3), of h] unfolding m by simp_all
  have "strftime_iso t = iso_text y mo d h mi s @ ''Z''"
    by (simp only: strftime_iso_def date_text_def clock_text_def day sec c(1) k Let_def prod.case iso_text_def append_assoc)
  moreover have "t div 1000000 = ((?days * 24 + h) * 60 + mi) * 60 + s" by (simp add: t)
  ultimately show ?thesis using parse_iso_text[OF r v(1)] by simp
qed

section \<open>The window of a query\<close>

text \<open>
  A query from a time in the form the tools document (UTC with a \<open>Z\<close>) answers with the rows from that time on,
  whatever relative window is given beside it. The float that carries the seconds is exact for whole
  seconds.
\<close>

lemma query_starts_when_asked:
  assumes "make_time y mo d h mi x = Some t" "0 \<le> h" "0 \<le> mi" "0 \<le> x" "stamp (t div 1000000, []) = t"
  shows "search_logs_tool stamp M header a (strftime_iso t) since_for [] limit
           = reading M header (\<lambda>i. search_logs M a (Some t, None) limit)"
    and "search_logs_tool stamp M header a (strftime_iso t) since_for [] limit s = Inr rows \<Longrightarrow> r \<in> set rows \<Longrightarrow> t \<le> sp_ts r"
proof -
  have "strftime_iso t \<noteq> []" by (simp add: strftime_iso_def)
  then have w: "asked_window stamp M (strftime_iso t) since_for [] = (Some t, None)"
    using parse_strftime[OF assms(1-4)] assms(5) by (simp add: asked_window_def window_bounds_def)
  then show eq: "search_logs_tool stamp M header a (strftime_iso t) since_for [] limit
      = reading M header (\<lambda>i. search_logs M a (Some t, None) limit)"
    by (simp add: search_logs_tool_def)
  show "t \<le> sp_ts r"
    if "search_logs_tool stamp M header a (strftime_iso t) since_for [] limit s = Inr rows" "r \<in> set rows"
    using that unfolding eq
    by (auto simp: reading_def search_logs_def shown_def in_window_def split: option.splits if_splits dest!: in_set_takeD)
qed

text \<open>
  Two limits. A time with an explicit offset, also the offset of UTC, is not read, and the bound is left
  out of the query without a word; with a fraction the offset is read as part of it, and the bound is
  off by the offset.
\<close>

lemma offset_is_not_read: "parse_iso ''2026-01-02T03:04:05+00:00'' = None"
  by code_simp

lemma unread_bound_is_dropped:
  "search_logs_tool stamp M header a ''2026-01-02T03:04:05+00:00'' 0 [] limit
     = reading M header (\<lambda>i. search_logs M a (None, None) limit)"
  by (simp add: search_logs_tool_def asked_window_def window_bounds_def offset_is_not_read)

lemma offset_becomes_fraction: "parse_iso ''2026-01-02T03:04:05.5+02:00'' = Some (1767323045, ''50200'')"
  by code_simp

text \<open>An answer is never longer than its bound and the marker, and a cut one is no longer the JSON text.\<close>

lemma shortened_bounded: "0 \<le> hi \<Longrightarrow> int (length (shortened hi s)) \<le> hi + int (length cut_marker)"
  by (auto simp: shortened_def)

end
