(* ===== verification/Shutdown.thy ===== *)
theory Shutdown
  imports Collector_Props
begin

text \<open>
  The end of \<open>collector.main\<close>: what it closes and awaits once the stop event is set, with the tasks that
  go on meanwhile, as moves of one machine in any order the event loop may take them.
\<close>

section \<open>The moves\<close>

text \<open>
  What runs: the datagram socket, the OTLP server (and whether it was told to exit), the flusher and \<open>main\<close>.
\<close>

record closing =
  cs_collector :: collector
  cs_round :: nat
  cs_udp :: bool
  cs_exiting :: bool
  cs_otlp :: bool
  cs_flushing :: bool
  cs_main :: bool

datatype move = Datagram queue_item | Stream_Line queue_item | Export "queue_item list" | Flush | Flusher_Returns
  | Close_Listeners | Server_Returns | Main_Returns

definition queued :: "queue_item list \<Rightarrow> closing \<Rightarrow> closing" where
  "queued items s = s\<lparr>cs_collector := (cs_collector s)\<lparr>co_queue := co_queue (cs_collector s) @ items\<rparr>\<rparr>"

text \<open>
  Closing a server does not end its connections, and the OTLP server returns some time after it
  was told to exit. A flusher that ended with an exception raises it in \<open>main\<close>, which then awaits nothing more.
\<close>

fun shut :: "collector_env \<Rightarrow> move \<Rightarrow> closing \<Rightarrow> closing option" where
  "shut C (Datagram item) s = (if cs_main s \<and> cs_udp s then Some (queued [item] s) else None)"
| "shut C (Stream_Line item) s = (if cs_main s then Some (queued [item] s) else None)"
| "shut C (Export items) s = (if cs_main s \<and> cs_otlp s then Some (queued items s) else None)"
| "shut C Flush s =
     (if cs_main s \<and> cs_flushing s \<and> co_queue (cs_collector s) \<noteq> [] \<and> co_dead (cs_collector s) = None
      then Some (s\<lparr>cs_collector := flush_round C (cs_round s) (cs_collector s), cs_round := cs_round s + 1\<rparr>) else None)"
| "shut C Flusher_Returns s =
     (if cs_main s \<and> cs_flushing s \<and> (co_queue (cs_collector s) = [] \<or> co_dead (cs_collector s) \<noteq> None)
      then Some (s\<lparr>cs_flushing := False\<rparr>) else None)"
| "shut C Close_Listeners s = (if cs_main s \<and> cs_udp s then Some (s\<lparr>cs_udp := False, cs_exiting := True\<rparr>) else None)"
| "shut C Server_Returns s = (if cs_main s \<and> cs_exiting s \<and> cs_otlp s then Some (s\<lparr>cs_otlp := False\<rparr>) else None)"
| "shut C Main_Returns s =
     (if cs_main s \<and> \<not> cs_udp s \<and> \<not> cs_flushing s \<and> (\<not> cs_otlp s \<or> co_dead (cs_collector s) \<noteq> None)
      then Some (s\<lparr>cs_main := False\<rparr>) else None)"

fun shutdown :: "collector_env \<Rightarrow> move list \<Rightarrow> closing \<Rightarrow> closing option" where
  "shutdown C [] s = Some s"
| "shutdown C (mv # mvs) s = (case shut C mv s of None \<Rightarrow> None | Some t \<Rightarrow> shutdown C mvs t)"

text \<open>The state in which \<open>stop.wait()\<close> returns.\<close>

definition stopped :: "bool \<Rightarrow> nat \<Rightarrow> collector \<Rightarrow> closing" where
  "stopped otlp n c = \<lparr>cs_collector = c, cs_round = n, cs_udp = True, cs_exiting = False, cs_otlp = otlp, cs_flushing = True, cs_main = True\<rparr>"

section \<open>What becomes of the lines\<close>

fun lines_of :: "move \<Rightarrow> queue_item list" where
  "lines_of (Datagram item) = [item]"
| "lines_of (Stream_Line item) = [item]"
| "lines_of (Export items) = items"
| "lines_of Flush = []"
| "lines_of Flusher_Returns = []"
| "lines_of Close_Listeners = []"
| "lines_of Server_Returns = []"
| "lines_of Main_Returns = []"

definition all_accepted :: "move list \<Rightarrow> queue_item list" where
  "all_accepted mvs = concat (map lines_of mvs)"

lemma all_accepted_simps [simp]: "all_accepted [] = []" "all_accepted (mv # mvs) = lines_of mv @ all_accepted mvs"
  by (simp_all add: all_accepted_def)

lemma shutdown_append: "shutdown C (us @ vs) s = (case shutdown C us s of None \<Rightarrow> None | Some t \<Rightarrow> shutdown C vs t)"
  by (induction us arbitrary: s) (auto split: option.split)

lemma shut_lines:
  assumes "shut C mv s = Some t"
  shows "lines_held (cs_collector t) = lines_held (cs_collector s) + length (lines_of mv)"
  using assms by (cases mv) (auto simp: queued_def lines_held_def[of "_\<lparr>co_queue := _\<rparr>"] lines_held_def[of "cs_collector s"]
    flush_round_lines split: if_splits)

lemma shut_booked: "shut C mv s = Some t \<Longrightarrow> booked C d (cs_collector s) \<Longrightarrow> booked C d (cs_collector t)"
  by (cases mv) (auto simp: queued_def flush_round_booked booked_def[of _ _ "_\<lparr>co_queue := _\<rparr>"] flushed_def[of "_\<lparr>co_queue := _\<rparr>"]
    booked_def[of _ _ "cs_collector s"] flushed_def[of "cs_collector s"] split: if_splits)

lemma shutdown_keeps_books:
  "shutdown C mvs s = Some t \<Longrightarrow> booked C d (cs_collector s) \<Longrightarrow>
     booked C d (cs_collector t) \<and> lines_held (cs_collector t) = lines_held (cs_collector s) + length (all_accepted mvs)"
proof (induction mvs arbitrary: s)
  case (Cons mv mvs)
  then obtain u where u: "shut C mv s = Some u" "shutdown C mvs u = Some t" by (auto split: option.splits)
  then show ?case using Cons.IH[OF u(2) shut_booked[OF u(1) Cons.prems(2)]] shut_lines[OF u(1)] by simp
qed simp

text \<open>Once the flusher has returned nothing takes from the queue.\<close>

lemma shut_after:
  assumes "shut C mv s = Some t" "\<not> cs_flushing s"
  shows "cs_collector t = (cs_collector s)\<lparr>co_queue := co_queue (cs_collector s) @ lines_of mv\<rparr> \<and> \<not> cs_flushing t"
  using assms by (cases mv) (auto simp: queued_def split: if_splits)

lemma shutdown_after:
  "shutdown C mvs s = Some t \<Longrightarrow> \<not> cs_flushing s \<Longrightarrow>
     cs_collector t = (cs_collector s)\<lparr>co_queue := co_queue (cs_collector s) @ all_accepted mvs\<rparr>"
proof (induction mvs arbitrary: s)
  case (Cons mv mvs)
  then obtain u where u: "shut C mv s = Some u" "shutdown C mvs u = Some t" by (auto split: option.splits)
  show ?case using Cons.IH[OF u(2)] shut_after[OF u(1) Cons.prems(2)] by simp
qed simp

lemma flusher_return_needed:
  "shutdown C mvs s = Some t \<Longrightarrow> cs_flushing s \<Longrightarrow> \<not> cs_flushing t \<Longrightarrow> Flusher_Returns \<in> set mvs"
proof (induction mvs arbitrary: s)
  case (Cons mv mvs)
  then obtain u where u: "shut C mv s = Some u" "shutdown C mvs u = Some t" by (auto split: option.splits)
  have "mv = Flusher_Returns \<or> cs_flushing u" using u(1) Cons.prems(2) by (cases mv) (auto simp: queued_def split: if_splits)
  then show ?case using Cons.IH[OF u(2)] Cons.prems(3) by auto
qed simp

lemma main_return_needs: "cs_main s \<Longrightarrow> shut C mv s = Some t \<Longrightarrow> \<not> cs_main t \<Longrightarrow> \<not> cs_flushing t"
  by (cases mv) (auto simp: queued_def split: if_splits)

lemma exit_after_flusher:
  "shutdown C mvs s = Some t \<Longrightarrow> cs_main s \<Longrightarrow> \<not> cs_main t \<Longrightarrow> \<not> cs_flushing t"
proof (induction mvs arbitrary: s)
  case (Cons mv mvs)
  then obtain u where u: "shut C mv s = Some u" "shutdown C mvs u = Some t" by (auto split: option.splits)
  show ?case
  proof (cases "cs_main u")
    case True
    then show ?thesis using Cons.IH[OF u(2)] Cons.prems(3) by simp
  next
    case False
    then have "mvs = []" using u(2) by (cases mvs; cases "hd mvs") (auto split: option.splits)
    then show ?thesis using main_return_needs[OF Cons.prems(2) u(1) False] u(2) by simp
  qed
qed simp

text \<open>
  What the shutdown loses. When \<open>main\<close> has returned after a flusher that ended without an exception, the
  moves split at the flusher's return: every line accepted before it, and every line queued when the stop
  event was set, is stored, counted as dropped or reported as lost, and exactly the lines accepted after it,
  on open connections or by an OTLP server that has not yet returned, are left in the queue and
  gone with the process.
\<close>

theorem shutdown_loses_late_lines:
  assumes "shutdown C mvs (stopped otlp n c) = Some s" "\<not> cs_main s" "co_dead (cs_collector s) = None" "booked C d c"
  shows "\<exists>before late. mvs = before @ Flusher_Returns # late \<and> co_queue (cs_collector s) = all_accepted late
    \<and> sum_list (map note_lines (co_notes (cs_collector s))) = lines_held c + length (all_accepted before)
    \<and> booked C d (cs_collector s)"
proof -
  have "\<not> cs_flushing s" using exit_after_flusher[OF assms(1)] assms(2) by (simp add: stopped_def)
  then have "Flusher_Returns \<in> set mvs" using flusher_return_needed[OF assms(1)] by (simp add: stopped_def)
  then obtain before late where m: "mvs = before @ Flusher_Returns # late" by (meson split_list)
  then obtain u v where u: "shutdown C before (stopped otlp n c) = Some u" "shut C Flusher_Returns u = Some v"
      "shutdown C late v = Some s"
    using assms(1) by (auto simp: shutdown_append split: option.splits)
  have v: "cs_collector v = cs_collector u" "\<not> cs_flushing v" using u(2) by (auto split: if_splits)
  have s: "cs_collector s = (cs_collector u)\<lparr>co_queue := co_queue (cs_collector u) @ all_accepted late\<rparr>"
    using shutdown_after[OF u(3) v(2)] v(1) by simp
  then have e: "co_queue (cs_collector u) = []" using u(2) assms(3) by (auto split: if_splits)
  have "booked C d (cs_collector u) \<and> lines_held (cs_collector u) = lines_held c + length (all_accepted before)"
    using shutdown_keeps_books[OF u(1)] assms(4) by (simp add: stopped_def)
  moreover have "booked C d (cs_collector s)"
    using shutdown_keeps_books[OF assms(1)] assms(4) by (simp add: stopped_def)
  ultimately show ?thesis using m s e by (intro exI[of _ before] exI[of _ late]) (simp add: lines_held_def)
qed

text \<open>An export accepted while the server is about to exit, after the flusher has returned.\<close>

theorem shutdown_loses_late_lines_witness:
  "\<exists>s late. shutdown demo_collector [Flush, Close_Listeners, Flusher_Returns, Export [Parsed demo_line], Server_Returns, Main_Returns]
         (stopped True 0 \<lparr>co_queue = [Parsed demo_line], co_store = no_rows, co_notes = [], co_dead = None\<rparr>) = Some s
     \<and> co_queue (cs_collector s) = [Parsed demo_line] \<and> all_accepted late = [Parsed demo_line]"
proof -
  let ?c = "\<lparr>co_queue = [Parsed demo_line], co_store = no_rows, co_notes = [], co_dead = None\<rparr>"
  let ?mvs = "[Flush, Close_Listeners, Flusher_Returns, Export [Parsed demo_line], Server_Returns, Main_Returns]"
  define f where "f = flush_round demo_collector 0 ?c"
  have q: "co_queue f = []" "co_dead f = None"
    using flush_round_shrinks[of ?c demo_collector 0] flush_round_dead[of demo_collector ?c 0]
    by (simp_all add: f_def demo_collector_def)
  define s where "s = \<lparr>cs_collector = f\<lparr>co_queue := [Parsed demo_line]\<rparr>, cs_round = 1, cs_udp = False, cs_exiting = True,
    cs_otlp = False, cs_flushing = False, cs_main = False\<rparr>"
  have s: "shutdown demo_collector ?mvs (stopped True 0 ?c) = Some s" "\<not> cs_main s" "co_dead (cs_collector s) = None"
    using q by (simp_all add: stopped_def queued_def s_def f_def[symmetric])
  have "booked demo_collector no_rows ?c" by (simp add: booked_def flushed_def store_ok_def stored_def no_rows_def)
  from shutdown_loses_late_lines[OF s this] obtain late where "co_queue (cs_collector s) = all_accepted late" by blast
  then show ?thesis using s(1) by (intro exI[of _ s] exI[of _ late]) (simp add: s_def)
qed

end
